theory Spec2Isabelle
  imports Main "HOL-Library.Char_ord" "HOL-Library.List_Lexorder" "HOL-Library.Sublist"
    "HOL-Library.AList"
begin

section \<open>The claim store of cnab-go\<close>

text \<open>
  A shallow embedding of the package \<^verbatim>\<open>claim\<close>: the installation document
  (\<^verbatim>\<open>installation.go\<close>), the output container (\<^verbatim>\<open>output.go\<close>) and the
  claim store (\<^verbatim>\<open>claimstore.go\<close>). Go strings and byte slices are lists of
  bytes, compared as Go compares them (bytewise, a proper prefix first). An \<^verbatim>\<open>error\<close>
  is its message, \<^verbatim>\<open>nil\<close> is \<open>None\<close>.
\<close>

type_synonym bytes = string
type_synonym error = string
type_synonym Time = int

subsection \<open>Strings\<close>

text \<open>\<^verbatim>\<open>strings.Contains\<close> and \<^verbatim>\<open>strings.TrimPrefix\<close> of the Go library.\<close>

fun Contains :: "string \<Rightarrow> string \<Rightarrow> bool" where
  "Contains [] substr = (substr = [])"
| "Contains (x # xs) substr = (prefix substr (x # xs) \<or> Contains xs substr)"

definition TrimPrefix :: "string \<Rightarrow> string \<Rightarrow> string" where
  "TrimPrefix s pre = (if prefix pre s then drop (length pre) s else s)"

subsection \<open>Bundles\<close>

text \<open>
  Modelled from the spec: the package \<^verbatim>\<open>bundle\<close> is not among the sources. The
  spec treats a bundle as a value exposing \<^verbatim>\<open>Version\<close>, \<^verbatim>\<open>Labels\<close>,
  \<^verbatim>\<open>Outputs[name]\<close>, \<^verbatim>\<open>Definitions[name]\<close> and the derived predicate
  \<^verbatim>\<open>IsOutputSensitive(name)\<close>; custom actions carry the flag that makes them
  modifying. A Go map is a partial function, wrapped in \<open>option\<close> where the code tells
  a nil map from an empty one.
\<close>

record Schema =
  WriteOnly :: "bool option"

record BundleOutput =
  Definition :: string
  ApplyTo :: "string list"

record BundleAction =
  Modifies :: bool

record Bundle =
  Version :: string
  Labels :: "(string \<rightharpoonup> string) option"
  Outputs :: "string \<rightharpoonup> BundleOutput"
  Definitions :: "string \<rightharpoonup> Schema"
  Actions :: "string \<rightharpoonup> BundleAction"

text \<open>
  Modelled from the spec: \<^verbatim>\<open>Bundle.IsOutputSensitive\<close> is not among the sources.
  Sensitivity is a per-output boolean derived from the bundle's definition schema (the
  definition is marked write-only); the call fails for a name the bundle does not define.
\<close>

definition IsOutputSensitive :: "Bundle \<Rightarrow> string \<Rightarrow> bool \<times> error option" where
  "IsOutputSensitive b outputName =
     (case Bundle.Outputs b outputName of
        None \<Rightarrow> (False, Some (''output '' @ outputName @ '' not defined''))
      | Some output \<Rightarrow>
          (case Bundle.Definitions b (Definition output) of
             None \<Rightarrow> (False, Some (''output definition '' @ Definition output @ '' not found''))
           | Some def \<Rightarrow> (WriteOnly def = Some True, None)))"

subsection \<open>Claims and results\<close>

text \<open>
  Modelled from the spec: \<^verbatim>\<open>claim.go\<close> and \<^verbatim>\<open>result.go\<close> are not among the
  sources. The fields are the attributes the spec lists, \<^verbatim>\<open>Result.Namespace\<close>
  which \<^verbatim>\<open>Output.GetNamespace\<close> reads, and the two unexported references the
  sources use: \<^verbatim>\<open>Claim.results\<close> (set by \<^verbatim>\<open>ReadInstallationStatus\<close>) and
  \<^verbatim>\<open>Result.claim\<close> (read by \<^verbatim>\<open>SaveResult\<close>). A nil pointer is \<open>None\<close>.
\<close>

datatype Claim = Claim
  (ID: string)
  (Installation: string)
  (Revision: string)
  (Action: string)
  (Bundle: Bundle)
  (BundleReference: string)
  (BundleDigest: string)
  (Parameters: "string \<rightharpoonup> string")
  (Created: Time)
  (results: "Result list option")
and Result = Result
  (ID: string)
  (ClaimID: string)
  (Namespace: string)
  (Status: string)
  (Message: string)
  (Created: Time)
  (OutputMetadata: "string \<rightharpoonup> string")
  (claim: "Claim option")

definition ActionInstall :: string where "ActionInstall = ''install''"
definition ActionUpgrade :: string where "ActionUpgrade = ''upgrade''"
definition ActionUninstall :: string where "ActionUninstall = ''uninstall''"

text \<open>
  Modelled from the spec: \<^verbatim>\<open>Claim.IsModifyingAction\<close> is not among the sources.
  The state-changing actions are install, upgrade, uninstall and the custom actions the
  bundle marks as modifying; a custom action the bundle does not define is an error.
\<close>

definition IsModifyingAction :: "Claim \<Rightarrow> bool \<times> error option" where
  "IsModifyingAction c =
     (if Claim.Action c \<in> {ActionInstall, ActionUpgrade, ActionUninstall} then (True, None)
      else (case Bundle.Actions (Claim.Bundle c) (Claim.Action c) of
              None \<Rightarrow> (False, Some (''custom action not defined '' @ Claim.Action c))
            | Some actionDef \<Rightarrow> (Modifies actionDef, None)))"

subsection \<open>Installations (installation.go)\<close>

record InstallationStatus =
  ClaimID :: string
  Action :: string
  Revision :: string
  ResultID :: string
  ResultStatus :: string

text \<open>
  \<^verbatim>\<open>Custom\<close> is an opaque \<^verbatim>\<open>interface{}\<close>: \<open>None\<close> is nil. The unexported
  \<^verbatim>\<open>claims\<close> are the claims \<^verbatim>\<open>LoadClaims\<close> attaches.
\<close>

record Installation =
  SchemaVersion :: string
  Name :: string
  Namespace :: string
  BundleRepository :: string
  BundleVersion :: string
  BundleDigest :: string
  Created :: Time
  Modified :: Time
  Custom :: "string option"
  Labels :: "(string \<rightharpoonup> string) option"
  Status :: InstallationStatus
  claims :: "Claim list"

text \<open>Reading a Go map, nil or not: \<^verbatim>\<open>m[k]\<close> with the comma-ok form.\<close>

definition lookup :: "(string \<rightharpoonup> 'a) option \<Rightarrow> string \<Rightarrow> 'a option" where
  "lookup m k = (case m of None \<Rightarrow> None | Some f \<Rightarrow> f k)"

text \<open>
  \<^verbatim>\<open>ApplyClaim\<close>. The parser \<^verbatim>\<open>reference.ParseNormalizedNamed\<close> belongs to
  another library and is a parameter: it returns the repository name \<^verbatim>\<open>ref.Name()\<close>
  or an error. A nil \<^verbatim>\<open>Labels\<close> is replaced by a fresh map before
  the bundle's labels are written into it. The literal \<^verbatim>\<open>InstallationStatus{ClaimID, Revision, Action}\<close>
  leaves the two result fields at their zero value.
\<close>

definition ApplyClaim ::
  "(string \<Rightarrow> error + string) \<Rightarrow> Installation \<Rightarrow> Claim \<Rightarrow> Installation" where
  "ApplyClaim ParseNormalizedNamed i c =
     (let i1 = i\<lparr>Installation.BundleVersion := Bundle.Version (Claim.Bundle c)\<rparr>;
          i2 = i1\<lparr>Installation.BundleDigest := Claim.BundleDigest c\<rparr>;
          i3 = (case ParseNormalizedNamed (Claim.BundleReference c) of
                  Inr ref \<Rightarrow> i2\<lparr>Installation.BundleRepository := ref\<rparr>
                | Inl err \<Rightarrow> i2);
          labels0 = (case Installation.Labels i3 of
                       None \<Rightarrow> Map.empty | Some m \<Rightarrow> m);
          i5 = i3\<lparr>Installation.Labels :=
                    Some (labels0 ++
                          (case Bundle.Labels (Claim.Bundle c) of
                             None \<Rightarrow> Map.empty | Some m \<Rightarrow> m))\<rparr>
      in i5\<lparr>Installation.Status :=
              \<lparr>InstallationStatus.ClaimID = Claim.ID c,
               InstallationStatus.Action = Claim.Action c,
               InstallationStatus.Revision = Claim.Revision c,
               InstallationStatus.ResultID = '''',
               InstallationStatus.ResultStatus = ''''\<rparr>\<rparr>)"

definition ApplyResult :: "Installation \<Rightarrow> Result \<Rightarrow> Installation" where
  "ApplyResult i r =
     (let i1 = i\<lparr>Installation.Status :=
                  (Installation.Status i)\<lparr>InstallationStatus.ResultID := Result.ID r\<rparr>\<rparr>
      in i1\<lparr>Installation.Status :=
              (Installation.Status i1)\<lparr>InstallationStatus.ResultStatus := Result.Status r\<rparr>\<rparr>)"

subsection \<open>Outputs (output.go)\<close>

record Output =
  claim :: Claim
  result :: Result
  Name :: string
  Value :: bytes

text \<open>\<^verbatim>\<open>NewOutput\<close> points the result at the claim and stores both by value.\<close>

definition Result_set_claim :: "Result \<Rightarrow> Claim option \<Rightarrow> Result" where
  "Result_set_claim r c =
     Result (Result.ID r) (Result.ClaimID r) (Result.Namespace r) (Result.Status r)
            (Result.Message r) (Result.Created r) (Result.OutputMetadata r) c"

definition NewOutput :: "Claim \<Rightarrow> Result \<Rightarrow> string \<Rightarrow> bytes \<Rightarrow> Output" where
  "NewOutput c r name val =
     \<lparr>Output.claim = c, Output.result = Result_set_claim r (Some c),
      Output.Name = name, Output.Value = val\<rparr>"

definition GetGroup :: "Output \<Rightarrow> string" where
  "GetGroup out = Result.ID (Output.result out)"

text \<open>
  \<^verbatim>\<open>Outputs\<close>: the sorted values and the map from a name to its index in them.
\<close>

record Outputs =
  vals :: "Output list"
  keys :: "string \<rightharpoonup> nat"

text \<open>
  \<^verbatim>\<open>NewOutputs\<close> copies the slice, records each name's index (a later duplicate
  overwrites an earlier one) and calls \<^verbatim>\<open>sort.Sort\<close>, whose \<^verbatim>\<open>Less\<close>
  compares names and whose \<^verbatim>\<open>Swap\<close> keeps \<^verbatim>\<open>keys\<close> pointing at the
  moved values. The library's sorting algorithm is not part of the sources: the model
  sorts by name and indexes the sorted values. On pairwise distinct names, the only
  inputs \<^verbatim>\<open>readLastOutputs\<close> builds, every sorting algorithm gives this result.
\<close>

definition NewOutputs :: "Output list \<Rightarrow> Outputs" where
  "NewOutputs outputs =
     (let sorted_vals = sort_key Output.Name outputs
      in \<lparr>vals = sorted_vals,
          keys = map_of (zip (map Output.Name sorted_vals) [0..<length sorted_vals])\<rparr>)"

definition GetByName :: "Outputs \<Rightarrow> string \<Rightarrow> Output option" where
  "GetByName outs name =
     (case keys outs name of
        None \<Rightarrow> None
      | Some i \<Rightarrow> if i \<ge> length (vals outs) then None else Some (vals outs ! i))"

definition GetByIndex :: "Outputs \<Rightarrow> int \<Rightarrow> Output option" where
  "GetByIndex outs i =
     (if i < 0 \<or> i \<ge> int (length (vals outs)) then None else Some (vals outs ! nat i))"

definition Len :: "Outputs \<Rightarrow> nat" where
  "Len outs = length (vals outs)"

subsection \<open>The backing store and the libraries\<close>

text \<open>
  The interface \<^verbatim>\<open>crud.ManagedStore\<close>: each method is a function of the backing
  store's state \<open>'s\<close>. \<^verbatim>\<open>HandleConnect\<close> returns the function that releases the
  connection, and an error. \<^verbatim>\<open>List\<close> returns both a list and an error, since
  \<^verbatim>\<open>ListClaims\<close> looks at the list before the error.
\<close>

record 's ManagedStore =
  HandleConnect :: "'s \<Rightarrow> (('s \<Rightarrow> error option \<times> 's) \<times> error option) \<times> 's"
  List :: "string \<Rightarrow> string \<Rightarrow> 's \<Rightarrow> (string list \<times> error option) \<times> 's"
  Read :: "string \<Rightarrow> string \<Rightarrow> 's \<Rightarrow> (error + bytes) \<times> 's"
  ReadAll :: "string \<Rightarrow> string \<Rightarrow> 's \<Rightarrow> (error + bytes list) \<times> 's"
  Save :: "string \<Rightarrow> string \<Rightarrow> string \<Rightarrow> bytes \<Rightarrow> 's \<Rightarrow> error option \<times> 's"
  Delete :: "string \<Rightarrow> string \<Rightarrow> 's \<Rightarrow> error option \<times> 's"

text \<open>
  What the package imports and the sources do not hold, as parameters: the message of
  the sentinel \<^verbatim>\<open>crud.ErrRecordDoesNotExist\<close>, the name
  \<^verbatim>\<open>storage.NamespaceGlobal\<close>, the reference parser, and the
  JSON encoding of the three documents (\<^verbatim>\<open>encoding/json\<close>).
\<close>

record Env =
  ErrRecordDoesNotExist :: error
  NamespaceGlobal :: string
  ParseNormalizedNamed :: "string \<Rightarrow> error + string"
  encodeInstallation :: "Installation \<Rightarrow> error + bytes"
  decodeInstallation :: "bytes \<Rightarrow> error + Installation"
  encodeClaim :: "Claim \<Rightarrow> error + bytes"
  decodeClaim :: "bytes \<Rightarrow> error + Claim"
  encodeResult :: "Result \<Rightarrow> error + bytes"
  decodeResult :: "bytes \<Rightarrow> error + Result"

text \<open>
  \<^verbatim>\<open>encoding/json\<close> neither writes nor reads an unexported field:
  \<^verbatim>\<open>Installation.claims\<close> (tagged \<^verbatim>\<open>json:"-"\<close>), \<^verbatim>\<open>Claim.results\<close> and
  \<^verbatim>\<open>Result.claim\<close>. So the encoder sees a document with these fields at their
  zero value, and a decoded document has them at their zero value.
\<close>

definition exportedInstallation :: "Installation \<Rightarrow> Installation" where
  "exportedInstallation i = i\<lparr>Installation.claims := []\<rparr>"

definition exportedClaim :: "Claim \<Rightarrow> Claim" where
  "exportedClaim c =
     Claim (Claim.ID c) (Claim.Installation c) (Claim.Revision c) (Claim.Action c)
           (Claim.Bundle c) (Claim.BundleReference c) (Claim.BundleDigest c)
           (Claim.Parameters c) (Claim.Created c) None"

definition exportedResult :: "Result \<Rightarrow> Result" where
  "exportedResult r = Result_set_claim r None"

definition marshalInstallation :: "Env \<Rightarrow> Installation \<Rightarrow> error + bytes" where
  "marshalInstallation L i = encodeInstallation L (exportedInstallation i)"

definition unmarshalInstallation :: "Env \<Rightarrow> bytes \<Rightarrow> error + Installation" where
  "unmarshalInstallation L b = map_sum id exportedInstallation (decodeInstallation L b)"

definition marshalClaim :: "Env \<Rightarrow> Claim \<Rightarrow> error + bytes" where
  "marshalClaim L c = encodeClaim L (exportedClaim c)"

definition unmarshalClaim :: "Env \<Rightarrow> bytes \<Rightarrow> error + Claim" where
  "unmarshalClaim L b = map_sum id exportedClaim (decodeClaim L b)"

definition marshalResult :: "Env \<Rightarrow> Result \<Rightarrow> error + bytes" where
  "marshalResult L r = encodeResult L (exportedResult r)"

definition unmarshalResult :: "Env \<Rightarrow> bytes \<Rightarrow> error + Result" where
  "unmarshalResult L b = map_sum id exportedResult (decodeResult L b)"

definition ItemTypeInstallations :: string where "ItemTypeInstallations = ''installations''"
definition ItemTypeClaims :: string where "ItemTypeClaims = ''claims''"
definition ItemTypeResults :: string where "ItemTypeResults = ''results''"
definition ItemTypeOutputs :: string where "ItemTypeOutputs = ''outputs''"

definition ErrInstallationNotFound :: error where
  "ErrInstallationNotFound = ''Installation does not exist''"
definition ErrClaimNotFound :: error where
  "ErrClaimNotFound = ''Claim does not exist''"
definition ErrResultNotFound :: error where
  "ErrResultNotFound = ''Result does not exist''"
definition ErrOutputNotFound :: error where
  "ErrOutputNotFound = ''Output does not exist''"

text \<open>
  Modelled from the spec: \<^verbatim>\<open>InstallationKey\<close>, the \<^verbatim>\<open>storage.Document\<close>
  methods of the three JSON documents and \<^verbatim>\<open>crud.SaveDocument\<close> are not among
  the sources. An installation is keyed \<^verbatim>\<open><namespace>/<name>\<close>, or just
  \<^verbatim>\<open><name>\<close> when the namespace is empty, in the group of its namespace; a claim
  by its id in the group of its installation; a result by its id in the group of its
  claim. Claims are always encrypted, installations and results are not.
  \<^verbatim>\<open>SaveDocument\<close> serializes the entity, applies the encryption iff the document
  asks for it, and writes kind, group, key and bytes.
\<close>

definition InstallationKey :: "string \<Rightarrow> string \<Rightarrow> string" where
  "InstallationKey namespace name =
     (if namespace = '''' then name else namespace @ ''/'' @ name)"

record Document =
  GetType :: string
  Group :: string
  GetName :: string
  GetData :: "error + bytes"
  ShouldEncrypt :: bool

definition InstallationDocument :: "Env \<Rightarrow> Installation \<Rightarrow> Document" where
  "InstallationDocument L i =
     \<lparr>GetType = ItemTypeInstallations, Group = Installation.Namespace i,
      GetName = InstallationKey (Installation.Namespace i) (Installation.Name i),
      GetData = marshalInstallation L i, ShouldEncrypt = False\<rparr>"

definition ClaimDocument :: "Env \<Rightarrow> Claim \<Rightarrow> Document" where
  "ClaimDocument L c =
     \<lparr>GetType = ItemTypeClaims, Group = Claim.Installation c, GetName = Claim.ID c,
      GetData = marshalClaim L c, ShouldEncrypt = True\<rparr>"

definition ResultDocument :: "Env \<Rightarrow> Result \<Rightarrow> Document" where
  "ResultDocument L r =
     \<lparr>GetType = ItemTypeResults, Group = Result.ClaimID r, GetName = Result.ID r,
      GetData = marshalResult L r, ShouldEncrypt = False\<rparr>"

definition SaveDocument ::
  "'s ManagedStore \<Rightarrow> Document \<Rightarrow> (bytes \<Rightarrow> error + bytes) \<Rightarrow> 's \<Rightarrow> error option \<times> 's" where
  "SaveDocument store doc encrypt st =
     (case GetData doc of
        Inl err \<Rightarrow> (Some err, st)
      | Inr data \<Rightarrow>
          (case (if ShouldEncrypt doc then encrypt data else Inr data) of
             Inl err \<Rightarrow> (Some err, st)
           | Inr data' \<Rightarrow> Save store (GetType doc) (Group doc) (GetName doc) data' st))"

subsection \<open>The claim store (claimstore.go)\<close>

text \<open>
  The \<^verbatim>\<open>Store\<close>. Its mutex is left out: the model runs one operation at a time.
\<close>

record 's Store =
  backingStore :: "'s ManagedStore"
  encrypt :: "bytes \<Rightarrow> error + bytes"
  decrypt :: "bytes \<Rightarrow> error + bytes"

definition NoOpEncryptionHandler :: "bytes \<Rightarrow> error + bytes" where
  "NoOpEncryptionHandler data = Inr data"

definition NewClaimStore ::
  "'s ManagedStore \<Rightarrow> (bytes \<Rightarrow> error + bytes) option \<Rightarrow> (bytes \<Rightarrow> error + bytes) option
     \<Rightarrow> 's Store" where
  "NewClaimStore store enc dec =
     \<lparr>backingStore = store,
      encrypt = (case enc of None \<Rightarrow> NoOpEncryptionHandler | Some f \<Rightarrow> f),
      decrypt = (case dec of None \<Rightarrow> NoOpEncryptionHandler | Some f \<Rightarrow> f)\<rparr>"

text \<open>Zero values, returned beside an error.\<close>

definition zeroBundle :: Bundle where
  "zeroBundle = \<lparr>Bundle.Version = '''', Bundle.Labels = None, Bundle.Outputs = Map.empty,
                  Bundle.Definitions = Map.empty, Bundle.Actions = Map.empty\<rparr>"

definition zeroClaim :: Claim where
  "zeroClaim = Claim '''' '''' '''' '''' zeroBundle '''' '''' Map.empty 0 None"

definition zeroResult :: Result where
  "zeroResult = Result '''' '''' '''' '''' '''' 0 Map.empty None"

definition zeroInstallation :: Installation where
  "zeroInstallation =
     \<lparr>Installation.SchemaVersion = '''', Installation.Name = '''',
      Installation.Namespace = '''', Installation.BundleRepository = '''',
      Installation.BundleVersion = '''', Installation.BundleDigest = '''',
      Installation.Created = 0, Installation.Modified = 0, Installation.Custom = None,
      Installation.Labels = None,
      Installation.Status =
        \<lparr>InstallationStatus.ClaimID = '''', InstallationStatus.Action = '''',
         InstallationStatus.Revision = '''', InstallationStatus.ResultID = '''',
         InstallationStatus.ResultStatus = ''''\<rparr>,
      Installation.claims = []\<rparr>"

definition zeroOutput :: Output where
  "zeroOutput = \<lparr>Output.claim = zeroClaim, Output.result = zeroResult,
                  Output.Name = '''', Output.Value = ''''\<rparr>"

text \<open>\<^verbatim>\<open>return zero, err\<close>: the error if there is one, else the zero value.\<close>

definition ret :: "'a \<Rightarrow> error option \<Rightarrow> error + 'a" where
  "ret zero err = (case err of Some e \<Rightarrow> Inl e | None \<Rightarrow> Inr zero)"

text \<open>\<^verbatim>\<open>errors.Wrap\<close>: the message, a colon and the cause.\<close>

definition Wrap :: "error \<Rightarrow> string \<Rightarrow> error" where
  "Wrap err msg = msg @ '': '' @ err"

definition outputKey :: "string \<Rightarrow> string \<Rightarrow> string" where
  "outputKey resultID output = resultID @ ''-'' @ output"

definition handleNotExistsError :: "Env \<Rightarrow> error option \<Rightarrow> error \<Rightarrow> error option" where
  "handleNotExistsError L crudError typedError =
     (case crudError of
        Some e \<Rightarrow> if Contains e (ErrRecordDoesNotExist L) then Some typedError else crudError
      | None \<Rightarrow> crudError)"

text \<open>
  The opening of an operation that holds a connection:
  \<^verbatim>\<open>handleClose, err := s.backingStore.HandleConnect(); defer handleClose();
  if err != nil { return ..., err }\<close>. The deferred release runs on every path, after
  the body, and its own error is dropped.
\<close>

definition withConnect ::
  "'s ManagedStore \<Rightarrow> (error \<Rightarrow> 'r) \<Rightarrow> ('s \<Rightarrow> 'r \<times> 's) \<Rightarrow> 's \<Rightarrow> 'r \<times> 's" where
  "withConnect store fail body st =
     (case HandleConnect store st of
        ((handleClose, err), st1) \<Rightarrow>
          (case err of
             Some e \<Rightarrow> (fail e, snd (handleClose st1))
           | None \<Rightarrow> (case body st1 of (r, st2) \<Rightarrow> (r, snd (handleClose st2)))))"

text \<open>\<^verbatim>\<open>for _, x := range xs { err := f(x); if err != nil { return err } }\<close>\<close>

fun forEach :: "('a \<Rightarrow> 's \<Rightarrow> error option \<times> 's) \<Rightarrow> 'a list \<Rightarrow> 's \<Rightarrow> error option \<times> 's" where
  "forEach f [] st = (None, st)"
| "forEach f (x # xs) st =
     (case f x st of
        (Some err, st1) \<Rightarrow> (Some err, st1)
      | (None, st1) \<Rightarrow> forEach f xs st1)"

definition ListClaims ::
  "Env \<Rightarrow> 's Store \<Rightarrow> string \<Rightarrow> 's \<Rightarrow> (string list \<times> error option) \<times> 's" where
  "ListClaims L s installation st =
     (case List (backingStore s) ItemTypeClaims installation st of
        ((claimIds, err), st1) \<Rightarrow>
          if length claimIds = 0 then (([], Some ErrInstallationNotFound), st1)
          else ((sort claimIds, handleNotExistsError L err ErrInstallationNotFound), st1))"

definition ListResults ::
  "Env \<Rightarrow> 's Store \<Rightarrow> string \<Rightarrow> 's \<Rightarrow> (error + string list) \<times> 's" where
  "ListResults L s claimID st =
     (case List (backingStore s) ItemTypeResults claimID st of
        ((resultIds, err), st1) \<Rightarrow>
          (case err of
             Some e \<Rightarrow>
               if Contains e (ErrRecordDoesNotExist L) then (Inr [], st1) else (Inl e, st1)
           | None \<Rightarrow> (Inr (sort resultIds), st1)))"

definition ListOutputs ::
  "Env \<Rightarrow> 's Store \<Rightarrow> string \<Rightarrow> 's \<Rightarrow> (error + string list) \<times> 's" where
  "ListOutputs L s resultID st =
     (case List (backingStore s) ItemTypeOutputs resultID st of
        ((outputNames, err), st1) \<Rightarrow>
          (case err of
             Some e \<Rightarrow>
               if Contains e (ErrRecordDoesNotExist L) then (Inr [], st1) else (Inl e, st1)
           | None \<Rightarrow>
               (Inr (sort (map (\<lambda>fullName. TrimPrefix fullName (resultID @ ''-''))
                               outputNames)), st1)))"

definition ReadInstallation ::
  "Env \<Rightarrow> 's Store \<Rightarrow> string \<Rightarrow> string \<Rightarrow> 's \<Rightarrow> (error + Installation) \<times> 's" where
  "ReadInstallation L s namespace name st =
     (case Read (backingStore s) ItemTypeInstallations (InstallationKey namespace name) st of
        (Inl err, st1) \<Rightarrow>
          (ret zeroInstallation (handleNotExistsError L (Some err) ErrInstallationNotFound), st1)
      | (Inr data, st1) \<Rightarrow> (unmarshalInstallation L data, st1))"

definition ReadClaim :: "Env \<Rightarrow> 's Store \<Rightarrow> string \<Rightarrow> 's \<Rightarrow> (error + Claim) \<times> 's" where
  "ReadClaim L s claimID st =
     (case Read (backingStore s) ItemTypeClaims claimID st of
        (Inl err, st1) \<Rightarrow>
          (ret zeroClaim (handleNotExistsError L (Some err) ErrClaimNotFound), st1)
      | (Inr data, st1) \<Rightarrow>
          (case decrypt s data of
             Inl err \<Rightarrow> (Inl (Wrap err (''error decrypting claim '' @ claimID)), st1)
           | Inr data' \<Rightarrow> (unmarshalClaim L data', st1)))"

text \<open>The loop of \<^verbatim>\<open>ReadAllClaims\<close> over the records of the group.\<close>

fun decodeClaims :: "Env \<Rightarrow> 's Store \<Rightarrow> bytes list \<Rightarrow> error + Claim list" where
  "decodeClaims L s [] = Inr []"
| "decodeClaims L s (data # rest) =
     (case decrypt s data of
        Inl err \<Rightarrow> Inl (Wrap err ''error decrypting claim'')
      | Inr data' \<Rightarrow>
          (case unmarshalClaim L data' of
             Inl err \<Rightarrow> Inl (Wrap err ''error unmarshaling claim'')
           | Inr c \<Rightarrow>
               (case decodeClaims L s rest of
                  Inl err \<Rightarrow> Inl err
                | Inr cs \<Rightarrow> Inr (c # cs))))"

text \<open>
  \<^verbatim>\<open>sort.Sort(claims)\<close> orders the claims by id; claims with equal ids keep their
  order here, where the library leaves it open.
\<close>

definition ReadAllClaims ::
  "Env \<Rightarrow> 's Store \<Rightarrow> string \<Rightarrow> 's \<Rightarrow> (error + Claim list) \<times> 's" where
  "ReadAllClaims L s installation st =
     (case ReadAll (backingStore s) ItemTypeClaims installation st of
        (Inl err, st1) \<Rightarrow> (ret [] (handleNotExistsError L (Some err) ErrInstallationNotFound), st1)
      | (Inr datas, st1) \<Rightarrow>
          if length datas = 0 then (Inl ErrInstallationNotFound, st1)
          else (case decodeClaims L s datas of
                  Inl err \<Rightarrow> (Inl err, st1)
                | Inr cs \<Rightarrow> (Inr (sort_key Claim.ID cs), st1)))"

definition ReadLastClaim :: "Env \<Rightarrow> 's Store \<Rightarrow> string \<Rightarrow> 's \<Rightarrow> (error + Claim) \<times> 's" where
  "ReadLastClaim L s installation =
     withConnect (backingStore s) Inl (\<lambda>st.
       case List (backingStore s) ItemTypeClaims installation st of
         ((claimIds, err), st1) \<Rightarrow>
           (case err of
              Some e \<Rightarrow>
                (ret zeroClaim (handleNotExistsError L (Some e) ErrInstallationNotFound), st1)
            | None \<Rightarrow>
                if length claimIds = 0 then (Inl ErrInstallationNotFound, st1)
                else ReadClaim L s (last (sort claimIds)) st1))"

definition ReadResult :: "Env \<Rightarrow> 's Store \<Rightarrow> string \<Rightarrow> 's \<Rightarrow> (error + Result) \<times> 's" where
  "ReadResult L s resultID st =
     (case Read (backingStore s) ItemTypeResults resultID st of
        (Inl err, st1) \<Rightarrow>
          (ret zeroResult (handleNotExistsError L (Some err) ErrResultNotFound), st1)
      | (Inr data, st1) \<Rightarrow> (unmarshalResult L data, st1))"

definition ReadLastResult :: "Env \<Rightarrow> 's Store \<Rightarrow> string \<Rightarrow> 's \<Rightarrow> (error + Result) \<times> 's" where
  "ReadLastResult L s claimID =
     withConnect (backingStore s) Inl (\<lambda>st.
       case List (backingStore s) ItemTypeResults claimID st of
         ((resultIDs, err), st1) \<Rightarrow>
           (case err of
              Some e \<Rightarrow>
                (ret zeroResult (handleNotExistsError L (Some e) ErrClaimNotFound), st1)
            | None \<Rightarrow>
                if length resultIDs = 0
                then (Inl (''claim '' @ claimID @ '' has no results''), st1)
                else ReadResult L s (last (sort resultIDs)) st1))"

text \<open>
  \<^verbatim>\<open>sensitive, err := b.IsOutputSensitive(name); if err != nil { sensitive = false }\<close>
\<close>

definition sensitiveOrFalse :: "Bundle \<Rightarrow> string \<Rightarrow> bool" where
  "sensitiveOrFalse b outputName =
     (case IsOutputSensitive b outputName of
        (sensitive, Some err) \<Rightarrow> False
      | (sensitive, None) \<Rightarrow> sensitive)"

definition ReadOutput ::
  "Env \<Rightarrow> 's Store \<Rightarrow> Claim \<Rightarrow> Result \<Rightarrow> string \<Rightarrow> 's \<Rightarrow> (error + Output) \<times> 's" where
  "ReadOutput L s c r outputName st =
     (case Read (backingStore s) ItemTypeOutputs (outputKey (Result.ID r) outputName) st of
        (Inl err, st1) \<Rightarrow>
          (ret zeroOutput (handleNotExistsError L (Some err) ErrOutputNotFound), st1)
      | (Inr data, st1) \<Rightarrow>
          if sensitiveOrFalse (Claim.Bundle c) outputName
          then (case decrypt s data of
                  Inl err \<Rightarrow> (Inl (Wrap err (''error decrypting output '' @ outputName)), st1)
                | Inr data' \<Rightarrow> (Inr (NewOutput c r outputName data'), st1))
          else (Inr (NewOutput c r outputName data), st1))"

text \<open>
  The three loops of \<^verbatim>\<open>readLastOutputs\<close>. The first appends, for each claim, a
  result \<^verbatim>\<open>Result{ID, ClaimID, claim}\<close> for each listed result id.
\<close>

fun collectResults ::
  "Env \<Rightarrow> 's Store \<Rightarrow> Claim list \<Rightarrow> Result list \<Rightarrow> 's \<Rightarrow> (error + Result list) \<times> 's" where
  "collectResults L s [] acc st = (Inr acc, st)"
| "collectResults L s (c # cs) acc st =
     (case ListResults L s (Claim.ID c) st of
        (Inl err, st1) \<Rightarrow> (Inl err, st1)
      | (Inr resultIds, st1) \<Rightarrow>
          collectResults L s cs
            (acc @ map (\<lambda>resultID. Result resultID (Claim.ID c) '''' '''' '''' 0 Map.empty (Some c))
                       resultIds) st1)"

text \<open>
  The second walks the sorted results and sets \<^verbatim>\<open>lastOutputs[outputName] = result\<close>
  for each output name that passes the filter. The Go map is an association list, in
  the order in which the names were first written.
\<close>

fun setOutputs :: "string \<Rightarrow> Result \<Rightarrow> string list \<Rightarrow> (string \<times> Result) list
                     \<Rightarrow> (string \<times> Result) list" where
  "setOutputs filterOutput r [] lastOutputs = lastOutputs"
| "setOutputs filterOutput r (outputName # rest) lastOutputs =
     setOutputs filterOutput r rest
       (if filterOutput = '''' \<or> filterOutput = outputName
        then AList.update outputName r lastOutputs else lastOutputs)"

fun collectLastOutputs ::
  "Env \<Rightarrow> 's Store \<Rightarrow> string \<Rightarrow> Result list \<Rightarrow> (string \<times> Result) list \<Rightarrow> 's
     \<Rightarrow> (error + (string \<times> Result) list) \<times> 's" where
  "collectLastOutputs L s filterOutput [] lastOutputs st = (Inr lastOutputs, st)"
| "collectLastOutputs L s filterOutput (r # rs) lastOutputs st =
     (case ListOutputs L s (Result.ID r) st of
        (Inl err, st1) \<Rightarrow> (Inl err, st1)
      | (Inr outputNames, st1) \<Rightarrow>
          collectLastOutputs L s filterOutput rs
            (setOutputs filterOutput r outputNames lastOutputs) st1)"

text \<open>
  The third reads each output through \<^verbatim>\<open>*result.claim\<close>; a nil pointer there
  would panic. Go ranges over the map in an order of its choice; the model takes the
  list's order, which decides only which of several failing reads is reported.
\<close>

fun readOutputs ::
  "Env \<Rightarrow> 's Store \<Rightarrow> (string \<times> Result) list \<Rightarrow> Output list \<Rightarrow> 's
     \<Rightarrow> (error + Output list) \<times> 's" where
  "readOutputs L s [] outputs st = (Inr outputs, st)"
| "readOutputs L s ((outputName, r) # rest) outputs st =
     (case Result.claim r of
        None \<Rightarrow> (Inl ''panic: invalid memory address or nil pointer dereference'', st)
      | Some c \<Rightarrow>
          (case ReadOutput L s c r outputName st of
             (Inl err, st1) \<Rightarrow> (Inl err, st1)
           | (Inr output, st1) \<Rightarrow> readOutputs L s rest (outputs @ [output]) st1))"

definition readLastOutputs ::
  "Env \<Rightarrow> 's Store \<Rightarrow> string \<Rightarrow> string \<Rightarrow> 's \<Rightarrow> (error + Outputs) \<times> 's" where
  "readLastOutputs L s installation filterOutput st =
     (case ReadAllClaims L s installation st of
        (Inl err, st1) \<Rightarrow> (Inl err, st1)
      | (Inr cs, st1) \<Rightarrow>
          (case collectResults L s cs [] st1 of
             (Inl err, st2) \<Rightarrow> (Inl err, st2)
           | (Inr rs, st2) \<Rightarrow>
               (case collectLastOutputs L s filterOutput (sort_key Result.ID rs) [] st2 of
                  (Inl err, st3) \<Rightarrow> (Inl err, st3)
                | (Inr lastOutputs, st3) \<Rightarrow>
                    (case readOutputs L s lastOutputs [] st3 of
                       (Inl err, st4) \<Rightarrow> (Inl err, st4)
                     | (Inr outputs, st4) \<Rightarrow> (Inr (NewOutputs outputs), st4)))))"

definition ReadLastOutputs ::
  "Env \<Rightarrow> 's Store \<Rightarrow> string \<Rightarrow> 's \<Rightarrow> (error + Outputs) \<times> 's" where
  "ReadLastOutputs L s installation =
     withConnect (backingStore s) Inl (readLastOutputs L s installation '''')"

definition ReadLastOutput ::
  "Env \<Rightarrow> 's Store \<Rightarrow> string \<Rightarrow> string \<Rightarrow> 's \<Rightarrow> (error + Output) \<times> 's" where
  "ReadLastOutput L s installation name =
     withConnect (backingStore s) Inl (\<lambda>st.
       case readLastOutputs L s installation name st of
         (Inl err, st1) \<Rightarrow> (Inl err, st1)
       | (Inr outputs, st1) \<Rightarrow>
           (case GetByName outputs name of
              Some out \<Rightarrow> (Inr out, st1)
            | None \<Rightarrow> (Inl ErrOutputNotFound, st1)))"

text \<open>The write path.\<close>

definition SaveInstallation :: "Env \<Rightarrow> 's Store \<Rightarrow> Installation \<Rightarrow> 's \<Rightarrow> error option \<times> 's" where
  "SaveInstallation L s i st =
     SaveDocument (backingStore s) (InstallationDocument L i) (encrypt s) st"

definition SaveClaim :: "Env \<Rightarrow> 's Store \<Rightarrow> Claim \<Rightarrow> 's \<Rightarrow> error option \<times> 's" where
  "SaveClaim L s c =
     withConnect (backingStore s) Some (\<lambda>st.
       case SaveDocument (backingStore s) (ClaimDocument L c) (encrypt s) st of
         (Some err, st1) \<Rightarrow> (Some err, st1)
       | (None, st1) \<Rightarrow>
           if fst (IsModifyingAction c)
           then (case ReadInstallation L s '''' (Claim.Installation c) st1 of
                   (Inl err, st2) \<Rightarrow> (Some err, st2)
                 | (Inr i, st2) \<Rightarrow>
                     SaveInstallation L s (ApplyClaim (ParseNormalizedNamed L) i c) st2)
           else (None, st1))"

definition SaveResult :: "Env \<Rightarrow> 's Store \<Rightarrow> Result \<Rightarrow> 's \<Rightarrow> error option \<times> 's" where
  "SaveResult L s r =
     withConnect (backingStore s) Some (\<lambda>st.
       case SaveDocument (backingStore s) (ResultDocument L r) (encrypt s) st of
         (Some err, st1) \<Rightarrow> (Some err, st1)
       | (None, st1) \<Rightarrow>
           (case Result.claim r of
              None \<Rightarrow> (None, st1)
            | Some c \<Rightarrow>
                if fst (IsModifyingAction c)
                then (case ReadInstallation L s '''' (Claim.Installation c) st1 of
                        (Inl err, st2) \<Rightarrow> (Some err, st2)
                      | (Inr i, st2) \<Rightarrow> SaveInstallation L s (ApplyResult i r) st2)
                else (None, st1)))"

definition SaveOutput :: "Env \<Rightarrow> 's Store \<Rightarrow> Output \<Rightarrow> 's \<Rightarrow> error option \<times> 's" where
  "SaveOutput L s out st =
     (if Claim.ID (Output.claim out) = '''' then (Some ''output.Claim is not set'', st)
      else
        (case (if sensitiveOrFalse (Claim.Bundle (Output.claim out)) (Output.Name out)
               then (case encrypt s (Output.Value out) of
                       Inl err \<Rightarrow>
                         Inl (Wrap err
                               (''error encrypting output '' @ Output.Name out
                                @ '' for result '' @ Result.ID (Output.result out)
                                @ '' of installation ''
                                @ Claim.Installation (Output.claim out)))
                     | Inr data \<Rightarrow> Inr data)
               else Inr (Output.Value out)) of
           Inl err \<Rightarrow> (Some err, st)
         | Inr data \<Rightarrow>
             Save (backingStore s) ItemTypeOutputs (GetGroup out)
                  (outputKey (Result.ID (Output.result out)) (Output.Name out)) data st))"

text \<open>The delete path.\<close>

definition DeleteOutput :: "Env \<Rightarrow> 's Store \<Rightarrow> string \<Rightarrow> string \<Rightarrow> 's \<Rightarrow> error option \<times> 's" where
  "DeleteOutput L s resultID outputName st =
     (case Delete (backingStore s) ItemTypeOutputs (outputKey resultID outputName) st of
        (err, st1) \<Rightarrow> (handleNotExistsError L err ErrOutputNotFound, st1))"

definition DeleteResult :: "Env \<Rightarrow> 's Store \<Rightarrow> string \<Rightarrow> 's \<Rightarrow> error option \<times> 's" where
  "DeleteResult L s resultID =
     withConnect (backingStore s) Some (\<lambda>st.
       case ListOutputs L s resultID st of
         (Inl err, st1) \<Rightarrow> (Some err, st1)
       | (Inr outputNames, st1) \<Rightarrow>
           (case forEach (DeleteOutput L s resultID) outputNames st1 of
              (Some err, st2) \<Rightarrow> (Some err, st2)
            | (None, st2) \<Rightarrow>
                (case Delete (backingStore s) ItemTypeResults resultID st2 of
                   (err, st3) \<Rightarrow> (handleNotExistsError L err ErrResultNotFound, st3))))"

definition DeleteClaim :: "Env \<Rightarrow> 's Store \<Rightarrow> string \<Rightarrow> 's \<Rightarrow> error option \<times> 's" where
  "DeleteClaim L s claimID =
     withConnect (backingStore s) Some (\<lambda>st.
       case ListResults L s claimID st of
         (Inl err, st1) \<Rightarrow> (Some err, st1)
       | (Inr resultIds, st1) \<Rightarrow>
           (case forEach (DeleteResult L s) resultIds st1 of
              (Some err, st2) \<Rightarrow> (Some err, st2)
            | (None, st2) \<Rightarrow>
                (case Delete (backingStore s) ItemTypeClaims claimID st2 of
                   (err, st3) \<Rightarrow> (handleNotExistsError L err ErrClaimNotFound, st3))))"

definition DeleteInstallation :: "Env \<Rightarrow> 's Store \<Rightarrow> string \<Rightarrow> 's \<Rightarrow> error option \<times> 's" where
  "DeleteInstallation L s installation =
     withConnect (backingStore s) Some (\<lambda>st.
       case ListClaims L s installation st of
         ((claimIds, Some err), st1) \<Rightarrow> (Some err, st1)
       | ((claimIds, None), st1) \<Rightarrow>
           (case forEach (DeleteClaim L s) claimIds st1 of
              (Some err, st2) \<Rightarrow> (Some err, st2)
            | (None, st2) \<Rightarrow>
                (case Delete (backingStore s) ItemTypeInstallations installation st2 of
                   (err, st3) \<Rightarrow> (handleNotExistsError L err ErrInstallationNotFound, st3))))"

text \<open>
  The remaining public operations. \<^verbatim>\<open>ListInstallations\<close> lists the global
  namespace when it is given none.
\<close>

definition ListInstallations ::
  "Env \<Rightarrow> 's Store \<Rightarrow> string \<Rightarrow> 's \<Rightarrow> (string list \<times> error option) \<times> 's" where
  "ListInstallations L s namespace st =
     (case List (backingStore s) ItemTypeInstallations
             (if namespace = '''' then NamespaceGlobal L else namespace) st of
        ((names, err), st1) \<Rightarrow> ((sort names, err), st1))"

fun decodeInstallations :: "Env \<Rightarrow> bytes list \<Rightarrow> error + Installation list" where
  "decodeInstallations L [] = Inr []"
| "decodeInstallations L (data # rest) =
     (case unmarshalInstallation L data of
        Inl err \<Rightarrow> Inl (Wrap err ''error unmarshaling installation'')
      | Inr i \<Rightarrow>
          (case decodeInstallations L rest of
             Inl err \<Rightarrow> Inl err
           | Inr is \<Rightarrow> Inr (i # is)))"

definition ReadAllInstallations ::
  "Env \<Rightarrow> 's Store \<Rightarrow> 's \<Rightarrow> (error + Installation list) \<times> 's" where
  "ReadAllInstallations L s st =
     (case ReadAll (backingStore s) ItemTypeInstallations '''' st of
        (Inl err, st1) \<Rightarrow> (Inl err, st1)
      | (Inr datas, st1) \<Rightarrow>
          (case decodeInstallations L datas of
             Inl err \<Rightarrow> (Inl err, st1)
           | Inr is \<Rightarrow> (Inr (sort_key Installation.Name is), st1)))"

fun decodeResults :: "Env \<Rightarrow> bytes list \<Rightarrow> error + Result list" where
  "decodeResults L [] = Inr []"
| "decodeResults L (data # rest) =
     (case unmarshalResult L data of
        Inl err \<Rightarrow> Inl (''error unmarshaling result: '' @ err)
      | Inr r \<Rightarrow>
          (case decodeResults L rest of
             Inl err \<Rightarrow> Inl err
           | Inr rs \<Rightarrow> Inr (r # rs)))"

definition ReadAllResults ::
  "Env \<Rightarrow> 's Store \<Rightarrow> string \<Rightarrow> 's \<Rightarrow> (error + Result list) \<times> 's" where
  "ReadAllResults L s claimID st =
     (case ReadAll (backingStore s) ItemTypeResults claimID st of
        (Inl err, st1) \<Rightarrow>
          if Contains err (ErrRecordDoesNotExist L) then (Inr [], st1) else (Inl err, st1)
      | (Inr datas, st1) \<Rightarrow>
          (case decodeResults L datas of
             Inl err \<Rightarrow> (Inl err, st1)
           | Inr rs \<Rightarrow> (Inr (sort_key Result.ID rs), st1)))"

text \<open>
  \<^verbatim>\<open>LoadClaims\<close> (installation.go) sorts the claims by id and, for each claim
  whose results are loaded, its results by id.
\<close>

definition Claim_set_results :: "Claim \<Rightarrow> Result list option \<Rightarrow> Claim" where
  "Claim_set_results c rs =
     Claim (Claim.ID c) (Claim.Installation c) (Claim.Revision c) (Claim.Action c)
           (Claim.Bundle c) (Claim.BundleReference c) (Claim.BundleDigest c)
           (Claim.Parameters c) (Claim.Created c) rs"

definition LoadClaims :: "Installation \<Rightarrow> Claim list \<Rightarrow> Installation" where
  "LoadClaims i cs =
     i\<lparr>Installation.claims :=
         map (\<lambda>c. case Claim.results c of
                     None \<Rightarrow> c
                   | Some rs \<Rightarrow> Claim_set_results c (Some (sort_key Result.ID rs)))
             (sort_key Claim.ID cs)\<rparr>"

definition ReadInstallationStatus ::
  "Env \<Rightarrow> 's Store \<Rightarrow> string \<Rightarrow> 's \<Rightarrow> (error + Installation) \<times> 's" where
  "ReadInstallationStatus L s installation =
     withConnect (backingStore s) Inl (\<lambda>st.
       case ListClaims L s installation st of
         ((claimIds, Some err), st1) \<Rightarrow> (Inl err, st1)
       | ((claimIds, None), st1) \<Rightarrow>
           if length claimIds > 0
           then (case ReadClaim L s (last (sort claimIds)) st1 of
                   (Inl err, st2) \<Rightarrow> (Inl err, st2)
                 | (Inr c, st2) \<Rightarrow>
                     (case ListResults L s (last (sort claimIds)) st2 of
                        (Inl err, st3) \<Rightarrow> (Inl err, st3)
                      | (Inr resultIDs, st3) \<Rightarrow>
                          if length resultIDs > 0
                          then (case ReadResult L s (last (sort resultIDs)) st3 of
                                  (Inl err, st4) \<Rightarrow> (Inl err, st4)
                                | (Inr r, st4) \<Rightarrow>
                                    (Inr (LoadClaims
                                            (zeroInstallation\<lparr>Installation.Name := installation\<rparr>)
                                            [Claim_set_results c (Some [r])]), st4))
                          else (Inr (LoadClaims
                                       (zeroInstallation\<lparr>Installation.Name := installation\<rparr>)
                                       [c]), st3)))
           else (Inl ErrInstallationNotFound, st1))"

fun readStatuses ::
  "Env \<Rightarrow> 's Store \<Rightarrow> string list \<Rightarrow> Installation list \<Rightarrow> 's
     \<Rightarrow> (error + Installation list) \<times> 's" where
  "readStatuses L s [] installations st = (Inr installations, st)"
| "readStatuses L s (name # names) installations st =
     (case ReadInstallationStatus L s name st of
        (Inl err, st1) \<Rightarrow> (Inl err, st1)
      | (Inr installation, st1) \<Rightarrow>
          readStatuses L s names (installations @ [installation]) st1)"

definition ReadAllInstallationStatus ::
  "Env \<Rightarrow> 's Store \<Rightarrow> 's \<Rightarrow> (error + Installation list) \<times> 's" where
  "ReadAllInstallationStatus L s =
     withConnect (backingStore s) Inl (\<lambda>st.
       case ListInstallations L s '''' st of
         ((names, Some err), st1) \<Rightarrow> (Inl err, st1)
       | ((names, None), st1) \<Rightarrow> readStatuses L s names [] st1)"

subsection \<open>A backing store\<close>

text \<open>
  Modelled from the spec: \<^verbatim>\<open>crud.BackingStore\<close> and the stores behind it are not
  among the sources. The contract is a key/group/item store: \<^verbatim>\<open>Save\<close> is an
  upsert of kind, group, key and bytes, \<^verbatim>\<open>Read\<close> returns a single record,
  \<^verbatim>\<open>List\<close> the keys within a group, \<^verbatim>\<open>ReadAll\<close> the records within a
  group, \<^verbatim>\<open>Delete\<close> removes one record, and a sentinel error signals that there
  is no such record. \<^verbatim>\<open>HandleConnect\<close> is a scoped acquisition of the connection:
  it connects unless a holder already did, and only the release of the holder that
  connected closes. Each call connects for its own duration when no scope is open. The
  state counts the connects and the closes it observes. The spec leaves two things to
  the store, and the comment in \<^verbatim>\<open>ListClaims\<close> says that stores differ: whether
  listing an empty group is an error, and whether deleting a missing record is one. The
  two flags of the configuration choose.
\<close>

record MemState =
  items :: "((string \<times> string) \<times> (string \<times> bytes)) list"
  opened :: bool
  connects :: nat
  closes :: nat

record MemConfig =
  strictList :: bool
  strictDelete :: bool

definition lookupItem :: "MemState \<Rightarrow> string \<Rightarrow> string \<Rightarrow> (string \<times> bytes) option" where
  "lookupItem st kind key = map_of (items st) (kind, key)"

text \<open>The keys of a grp with their bytes, in the order of the store.\<close>

definition groupItems :: "MemState \<Rightarrow> string \<Rightarrow> string \<Rightarrow> (string \<times> bytes) list" where
  "groupItems st kind grp =
     remdups (map (\<lambda>(kk, gd). (snd kk, snd gd))
       (filter (\<lambda>(kk, gd). fst kk = kind \<and> fst gd = grp \<and> map_of (items st) kk = Some gd)
               (items st)))"

definition groupKeys :: "MemState \<Rightarrow> string \<Rightarrow> string \<Rightarrow> string list" where
  "groupKeys st kind grp = map fst (groupItems st kind grp)"

definition memClose :: "MemState \<Rightarrow> error option \<times> MemState" where
  "memClose st =
     (if opened st then (None, st\<lparr>opened := False, closes := closes st + 1\<rparr>)
      else (None, st))"

definition memHandleConnect ::
  "MemState \<Rightarrow> ((MemState \<Rightarrow> error option \<times> MemState) \<times> error option) \<times> MemState" where
  "memHandleConnect st =
     (if opened st then (((\<lambda>st'. (None, st')), None), st)
      else ((memClose, None), st\<lparr>opened := True, connects := connects st + 1\<rparr>))"

definition scoped :: "(MemState \<Rightarrow> 'r \<times> MemState) \<Rightarrow> MemState \<Rightarrow> 'r \<times> MemState" where
  "scoped body st =
     (case memHandleConnect st of
        ((handleClose, err), st1) \<Rightarrow>
          (case body st1 of (r, st2) \<Rightarrow> (r, snd (handleClose st2))))"

definition memList ::
  "Env \<Rightarrow> MemConfig \<Rightarrow> string \<Rightarrow> string \<Rightarrow> MemState \<Rightarrow> (string list \<times> error option) \<times> MemState" where
  "memList L cfg kind grp =
     scoped (\<lambda>st.
       let ks = groupKeys st kind grp
       in ((ks, if ks = [] \<and> strictList cfg then Some (ErrRecordDoesNotExist L) else None), st))"

definition memRead ::
  "Env \<Rightarrow> string \<Rightarrow> string \<Rightarrow> MemState \<Rightarrow> (error + bytes) \<times> MemState" where
  "memRead L kind key =
     scoped (\<lambda>st.
       (case lookupItem st kind key of
          None \<Rightarrow> Inl (ErrRecordDoesNotExist L)
        | Some (grp, data) \<Rightarrow> Inr data, st))"

definition memReadAll ::
  "Env \<Rightarrow> MemConfig \<Rightarrow> string \<Rightarrow> string \<Rightarrow> MemState \<Rightarrow> (error + bytes list) \<times> MemState" where
  "memReadAll L cfg kind grp =
     scoped (\<lambda>st.
       let kds = groupItems st kind grp
       in (if kds = [] \<and> strictList cfg then Inl (ErrRecordDoesNotExist L)
           else Inr (map snd kds), st))"

definition memSave ::
  "string \<Rightarrow> string \<Rightarrow> string \<Rightarrow> bytes \<Rightarrow> MemState \<Rightarrow> error option \<times> MemState" where
  "memSave kind grp key data =
     scoped (\<lambda>st. (None, st\<lparr>items := AList.update (kind, key) (grp, data) (items st)\<rparr>))"

definition memDelete ::
  "Env \<Rightarrow> MemConfig \<Rightarrow> string \<Rightarrow> string \<Rightarrow> MemState \<Rightarrow> error option \<times> MemState" where
  "memDelete L cfg kind key =
     scoped (\<lambda>st.
       case lookupItem st kind key of
         None \<Rightarrow> (if strictDelete cfg then Some (ErrRecordDoesNotExist L) else None, st)
       | Some gd \<Rightarrow> (None, st\<lparr>items := AList.delete (kind, key) (items st)\<rparr>))"

definition memStore :: "Env \<Rightarrow> MemConfig \<Rightarrow> MemState ManagedStore" where
  "memStore L cfg =
     \<lparr>HandleConnect = memHandleConnect, List = memList L cfg, Read = memRead L,
      ReadAll = memReadAll L cfg, Save = memSave, Delete = memDelete L cfg\<rparr>"

subsection \<open>Auxiliary definitions\<close>

text \<open>
  What a call outside a connection scope does to the counters of the backing store: one
  connect and one close. Inside a scope it does nothing.
\<close>

definition touch :: "MemState \<Rightarrow> MemState" where
  "touch st = (if opened st then st
               else st\<lparr>connects := connects st + 1, closes := closes st + 1\<rparr>)"



subsection \<open>Example data\<close>

text \<open>
  A bundle with a sensitive and a plain output, two claims of one installation with a
  result each, a reference parser, a JSON encoding given by a table of documents, an
  encryption that reverses the bytes, and a store holding these records.
\<close>

definition wBundle :: Bundle where
  "wBundle =
     \<lparr>Bundle.Version = ''0.1.0'', Bundle.Labels = Some [''env'' \<mapsto> ''dev''],
      Bundle.Outputs = [''password'' \<mapsto> \<lparr>Definition = ''password'', ApplyTo = []\<rparr>,
                        ''port'' \<mapsto> \<lparr>Definition = ''port'', ApplyTo = []\<rparr>],
      Bundle.Definitions = [''password'' \<mapsto> \<lparr>WriteOnly = Some True\<rparr>,
                            ''port'' \<mapsto> \<lparr>WriteOnly = Some False\<rparr>],
      Bundle.Actions = Map.empty\<rparr>"

definition wClaim1 :: Claim where
  "wClaim1 = Claim ''c1'' ''wordpress'' ''rev1'' ''install'' wBundle ''example.com/wordpress''
                   ''sha256:abc123'' Map.empty 10 None"

definition wClaim2 :: Claim where
  "wClaim2 = Claim ''c2'' ''wordpress'' ''rev2'' ''upgrade'' wBundle ''example.com/wordpress''
                   ''sha256:abc123'' Map.empty 20 None"

definition wResult1 :: Result where
  "wResult1 = Result ''r1'' ''c1'' '''' ''succeeded'' '''' 11 Map.empty (Some wClaim1)"

definition wResult2 :: Result where
  "wResult2 = Result ''r2'' ''c2'' '''' ''succeeded'' '''' 21 Map.empty (Some wClaim2)"

definition wInstallation :: Installation where
  "wInstallation =
     zeroInstallation\<lparr>Installation.SchemaVersion := ''1.0.0'',
       Installation.Name := ''wordpress'', Installation.BundleVersion := ''0.0.9'',
       Installation.Created := 5, Installation.Modified := 5,
       Installation.Labels := Some [''team'' \<mapsto> ''ops'']\<rparr>"

definition wParse :: "string \<Rightarrow> error + string" where
  "wParse ref = (if ref = '''' then Inl ''invalid reference format'' else Inr ref)"

definition tableEncode :: "(bytes \<times> 'a) list \<Rightarrow> 'a \<Rightarrow> error + bytes" where
  "tableEncode tbl x =
     (case find (\<lambda>(b, d). d = x) tbl of
        Some (b, d) \<Rightarrow> Inr b
      | None \<Rightarrow> Inl ''json: unsupported value'')"

definition tableDecode :: "(bytes \<times> 'a) list \<Rightarrow> bytes \<Rightarrow> error + 'a" where
  "tableDecode tbl b =
     (case map_of tbl b of
        Some d \<Rightarrow> Inr d
      | None \<Rightarrow> Inl ''invalid character'')"

definition wInstallations :: "(bytes \<times> Installation) list" where
  "wInstallations =
     [(''{installation}'', wInstallation),
      (''{installation c1}'', ApplyClaim wParse wInstallation wClaim1),
      (''{installation c1 r1}'', ApplyResult (ApplyClaim wParse wInstallation wClaim1) wResult1)]"

definition wClaims :: "(bytes \<times> Claim) list" where
  "wClaims = [(''{claim c1}'', wClaim1), (''{claim c2}'', wClaim2)]"

definition wResults :: "(bytes \<times> Result) list" where
  "wResults = [(''{result r1}'', exportedResult wResult1),
               (''{result r2}'', exportedResult wResult2)]"

definition wEnv :: Env where
  "wEnv =
     \<lparr>ErrRecordDoesNotExist = ''File does not exist'', NamespaceGlobal = '''',
      ParseNormalizedNamed = wParse,
      encodeInstallation = tableEncode wInstallations,
      decodeInstallation = tableDecode wInstallations,
      encodeClaim = tableEncode wClaims, decodeClaim = tableDecode wClaims,
      encodeResult = tableEncode wResults, decodeResult = tableDecode wResults\<rparr>"

definition wCipher :: "bytes \<Rightarrow> error + bytes" where
  "wCipher data = Inr (rev data)"

definition wStore :: "bool \<Rightarrow> bool \<Rightarrow> MemState Store" where
  "wStore sl sd = NewClaimStore (memStore wEnv \<lparr>strictList = sl, strictDelete = sd\<rparr>)
                                (Some wCipher) (Some wCipher)"

text \<open>The same store with an encryption that has no key and fails.\<close>

definition wNoKey :: "bytes \<Rightarrow> error + bytes" where
  "wNoKey data = Inl ''no key''"

definition wLocked :: "MemState Store" where
  "wLocked = NewClaimStore (memStore wEnv \<lparr>strictList = False, strictDelete = False\<rparr>)
                           (Some wNoKey) (Some wNoKey)"

definition wEmpty :: MemState where
  "wEmpty = \<lparr>items = [], opened = False, connects = 0, closes = 0\<rparr>"

definition wState :: MemState where
  "wState =
     \<lparr>items =
        [((''installations'', ''wordpress''), ('''', ''{installation c1 r1}'')),
         ((''claims'', ''c2''), (''wordpress'', rev ''{claim c2}'')),
         ((''claims'', ''c1''), (''wordpress'', rev ''{claim c1}'')),
         ((''results'', ''r1''), (''c1'', ''{result r1}'')),
         ((''results'', ''r2''), (''c2'', ''{result r2}'')),
         ((''outputs'', ''r1-port''), (''r1'', ''8080'')),
         ((''outputs'', ''r2-port''), (''r2'', ''9090'')),
         ((''outputs'', ''r2-password''), (''r2'', rev ''secret''))],
      opened = False, connects = 0, closes = 0\<rparr>"

text \<open>The store after saving the example installation into the empty store.\<close>

definition wSaved :: MemState where
  "wSaved =
     \<lparr>items = [((''installations'', ''wordpress''), ('''', ''{installation}''))],
      opened = False, connects = 1, closes = 1\<rparr>"

text \<open>The stores after saving the first claim, and then its result.\<close>

definition wAfterClaim :: MemState where
  "wAfterClaim =
     \<lparr>items = [((''installations'', ''wordpress''), ('''', ''{installation c1}'')),
               ((''claims'', ''c1''), (''wordpress'', rev ''{claim c1}''))],
      opened = False, connects = 2, closes = 2\<rparr>"

definition wAfterResult :: MemState where
  "wAfterResult =
     \<lparr>items = [((''installations'', ''wordpress''), ('''', ''{installation c1 r1}'')),
               ((''claims'', ''c1''), (''wordpress'', rev ''{claim c1}'')),
               ((''results'', ''r1''), (''c1'', ''{result r1}''))],
      opened = False, connects = 3, closes = 3\<rparr>"

text \<open>
  Two relations between the state before an operation and the state after it: the
  operation ran inside a connection that was already open and left it open, with no
  connect and no close of its own; or the backing store observed exactly one connect and
  exactly one close and the connection is released.
\<close>

definition inScope :: "MemState \<Rightarrow> MemState \<Rightarrow> bool" where
  "inScope st st' = (opened st' \<and> connects st' = connects st \<and> closes st' = closes st)"

definition oneConnection :: "MemState \<Rightarrow> MemState \<Rightarrow> bool" where
  "oneConnection st st' =
     (connects st' = connects st + 1 \<and> closes st' = closes st + 1 \<and> \<not> opened st')"

text \<open>An operation that, run inside an open connection, stays inside it.\<close>

definition keeps :: "(MemState \<Rightarrow> 'r \<times> MemState) \<Rightarrow> bool" where
  "keeps f = (\<forall>st r st'. opened st \<longrightarrow> f st = (r, st') \<longrightarrow> inScope st st')"

text \<open>
  Relations between the records of two states, for the cascade of deletes: every record
  of the second state is a record of the first; only output records went away; no
  result record went away while one of its outputs stayed. The key of every output
  record starts with its group and a dash, as \<^verbatim>\<open>SaveOutput\<close> writes it.
\<close>

definition shrinks :: "MemState \<Rightarrow> MemState \<Rightarrow> bool" where
  "shrinks st st' =
     (\<forall>kind key v. lookupItem st' kind key = Some v \<longrightarrow> lookupItem st kind key = Some v)"

definition onlyOutputs :: "MemState \<Rightarrow> MemState \<Rightarrow> bool" where
  "onlyOutputs st st' =
     (shrinks st st' \<and>
      (\<forall>kind key. kind \<noteq> ItemTypeOutputs \<longrightarrow> lookupItem st' kind key = lookupItem st kind key))"

definition noOutputs :: "string \<Rightarrow> MemState \<Rightarrow> bool" where
  "noOutputs resultID st = (\<forall>key data. lookupItem st ItemTypeOutputs key \<noteq> Some (resultID, data))"

definition cascades :: "MemState \<Rightarrow> MemState \<Rightarrow> bool" where
  "cascades st st' =
     (shrinks st st' \<and>
      (\<forall>resultID v. lookupItem st ItemTypeResults resultID = Some v
           \<and> lookupItem st' ItemTypeResults resultID = None \<longrightarrow> noOutputs resultID st'))"

definition keyed :: "MemState \<Rightarrow> bool" where
  "keyed st =
     (\<forall>key grp data. lookupItem st ItemTypeOutputs key = Some (grp, data)
        \<longrightarrow> prefix (grp @ ''-'') key)"

text \<open>
  What a delete of the claim store may do to the records: it only removes, and from a
  state whose output records are keyed by their group it removes a result record only
  together with the outputs of that result.
\<close>

definition deletes :: "MemState \<Rightarrow> MemState \<Rightarrow> bool" where
  "deletes st st' = (shrinks st st' \<and> (keyed st \<longrightarrow> cascades st st'))"

text \<open>
  The output names that \<^verbatim>\<open>ListOutputs\<close> returns for a result on the backing store
  above; an entry of the map of \<^verbatim>\<open>readLastOutputs\<close> and the output that
  \<^verbatim>\<open>ReadOutput\<close> makes of its record; and a result of a claim of an installation
  that has a record for an output name.
\<close>

definition namesOf :: "MemState \<Rightarrow> string \<Rightarrow> string list" where
  "namesOf st rid =
     sort (map (\<lambda>fullName. TrimPrefix fullName (rid @ ''-'')) (groupKeys st ItemTypeOutputs rid))"

definition readsAs :: "'s Store \<Rightarrow> MemState \<Rightarrow> string \<times> Result \<Rightarrow> Output \<Rightarrow> bool" where
  "readsAs s st nr out =
     (\<exists>c g data v. Result.claim (snd nr) = Some c
        \<and> lookupItem st ItemTypeOutputs (outputKey (Result.ID (snd nr)) (fst nr)) = Some (g, data)
        \<and> (if sensitiveOrFalse (Claim.Bundle c) (fst nr) then decrypt s data = Inr v else v = data)
        \<and> out = NewOutput c (snd nr) (fst nr) v)"

definition wrote :: "MemState \<Rightarrow> string \<Rightarrow> string \<Rightarrow> string \<Rightarrow> bool" where
  "wrote st inst rid name =
     (\<exists>cid cdata rdata data.
        lookupItem st ItemTypeClaims cid = Some (inst, cdata)
      \<and> lookupItem st ItemTypeResults rid = Some (cid, rdata)
      \<and> lookupItem st ItemTypeOutputs (outputKey rid name) = Some (rid, data))"


section \<open>Frame of ApplyClaim and ApplyResult\<close>

lemma ApplyClaim_Labels:
  "lookup (Installation.Labels (ApplyClaim p i c)) k =
     (case lookup (Bundle.Labels (Claim.Bundle c)) k of
        Some v \<Rightarrow> Some v | None \<Rightarrow> lookup (Installation.Labels i) k)"
  by (cases "Installation.Labels i"; cases "Bundle.Labels (Claim.Bundle c)")
     (auto simp: ApplyClaim_def lookup_def Let_def map_add_def split: sum.splits option.splits)

text \<open>
  C10. \<^verbatim>\<open>ApplyResult\<close> changes only \<^verbatim>\<open>Status.ResultID\<close> and
  \<^verbatim>\<open>Status.ResultStatus\<close>: the other three status fields and every other field
  of the installation are the ones it was given. \<^verbatim>\<open>ApplyClaim\<close> leaves
  \<^verbatim>\<open>SchemaVersion\<close>, \<^verbatim>\<open>Name\<close>, \<^verbatim>\<open>Namespace\<close>, \<^verbatim>\<open>Created\<close>,
  \<^verbatim>\<open>Modified\<close> and \<^verbatim>\<open>Custom\<close> as they were, and a label whose key is not
  in the claim's bundle labels reads as before. Neither writes \<^verbatim>\<open>Modified\<close>.
\<close>

theorem C10_apply_frame:
  "ApplyResult i r =
     i\<lparr>Installation.Status :=
         (Installation.Status i)\<lparr>InstallationStatus.ResultID := Result.ID r,
                                 InstallationStatus.ResultStatus := Result.Status r\<rparr>\<rparr>
   \<and> InstallationStatus.ClaimID (Installation.Status (ApplyResult i r))
       = InstallationStatus.ClaimID (Installation.Status i)
   \<and> InstallationStatus.Action (Installation.Status (ApplyResult i r))
       = InstallationStatus.Action (Installation.Status i)
   \<and> InstallationStatus.Revision (Installation.Status (ApplyResult i r))
       = InstallationStatus.Revision (Installation.Status i)
   \<and> Installation.Modified (ApplyResult i r) = Installation.Modified i
   \<and> Installation.SchemaVersion (ApplyClaim p i c) = Installation.SchemaVersion i
   \<and> Installation.Name (ApplyClaim p i c) = Installation.Name i
   \<and> Installation.Namespace (ApplyClaim p i c) = Installation.Namespace i
   \<and> Installation.Created (ApplyClaim p i c) = Installation.Created i
   \<and> Installation.Modified (ApplyClaim p i c) = Installation.Modified i
   \<and> Installation.Custom (ApplyClaim p i c) = Installation.Custom i
   \<and> Installation.claims (ApplyClaim p i c) = Installation.claims i
   \<and> (\<forall>k. lookup (Bundle.Labels (Claim.Bundle c)) k = None \<longrightarrow>
            lookup (Installation.Labels (ApplyClaim p i c)) k
              = lookup (Installation.Labels i) k)"
proof -
  have res: "ApplyResult i r =
     i\<lparr>Installation.Status :=
         (Installation.Status i)\<lparr>InstallationStatus.ResultID := Result.ID r,
                                 InstallationStatus.ResultStatus := Result.Status r\<rparr>\<rparr>"
    by (simp add: ApplyResult_def Let_def)
  have frame: "Installation.SchemaVersion (ApplyClaim p i c) = Installation.SchemaVersion i
      \<and> Installation.Name (ApplyClaim p i c) = Installation.Name i
      \<and> Installation.Namespace (ApplyClaim p i c) = Installation.Namespace i
      \<and> Installation.Created (ApplyClaim p i c) = Installation.Created i
      \<and> Installation.Modified (ApplyClaim p i c) = Installation.Modified i
      \<and> Installation.Custom (ApplyClaim p i c) = Installation.Custom i
      \<and> Installation.claims (ApplyClaim p i c) = Installation.claims i"
    by (simp add: ApplyClaim_def Let_def split: sum.splits)
  have lab: "\<forall>k. lookup (Bundle.Labels (Claim.Bundle c)) k = None \<longrightarrow>
            lookup (Installation.Labels (ApplyClaim p i c)) k
              = lookup (Installation.Labels i) k"
    by (simp add: ApplyClaim_Labels)
  show ?thesis
    using frame lab by (simp add: res)
qed


theorem C10_apply_frame_witness:
  "lookup (Bundle.Labels (Claim.Bundle wClaim1)) ''team'' = None
   \<and> lookup (Installation.Labels (ApplyClaim wParse wInstallation wClaim1)) ''team''
       = Some ''ops''
   \<and> lookup (Installation.Labels (ApplyClaim wParse wInstallation wClaim1)) ''env''
       = Some ''dev''
   \<and> Installation.Modified (ApplyClaim wParse wInstallation wClaim1) = 5
   \<and> Installation.Modified (ApplyResult wInstallation wResult1) = 5
   \<and> InstallationStatus.ResultID (Installation.Status (ApplyResult wInstallation wResult1))
       = ''r1''"
proof -
  have h: "lookup (Bundle.Labels (Claim.Bundle wClaim1)) ''team'' = None"
    by (simp add: wClaim1_def wBundle_def lookup_def)
  have l: "lookup (Installation.Labels wInstallation) ''team'' = Some ''ops''"
    by (simp add: wInstallation_def lookup_def)
  have m: "Installation.Modified wInstallation = 5"
    by (simp add: wInstallation_def)
  have e: "lookup (Installation.Labels (ApplyClaim wParse wInstallation wClaim1)) ''env''
       = Some ''dev''"
    unfolding ApplyClaim_Labels by (simp add: wClaim1_def wBundle_def lookup_def)
  have r: "Result.ID wResult1 = ''r1''" by (simp add: wResult1_def)
  show ?thesis
    using C10_apply_frame [of wInstallation wResult1 wParse wClaim1] h l m e r by simp
qed


section \<open>The backing store\<close>

lemma items_touch [simp]: "items (touch st) = items st"
  by (simp add: touch_def)

lemma opened_touch [simp]: "opened (touch st) = opened st"
  by (simp add: touch_def)

lemma touch_opened [simp]: "opened st \<Longrightarrow> touch st = st"
  by (simp add: touch_def)

lemma groupItems_cong: "items st' = items st \<Longrightarrow> groupItems st' k g = groupItems st k g"
  by (simp add: groupItems_def)

lemma groupKeys_cong: "items st' = items st \<Longrightarrow> groupKeys st' k g = groupKeys st k g"
  by (simp add: groupKeys_def groupItems_def)

lemma lookupItem_cong: "items st' = items st \<Longrightarrow> lookupItem st' k g = lookupItem st k g"
  by (simp add: lookupItem_def)

lemma memList_eq:
  "List (memStore L cfg) kind grp st =
     ((groupKeys st kind grp,
       if groupKeys st kind grp = [] \<and> strictList cfg then Some (ErrRecordDoesNotExist L) else None),
      touch st)"
  by (simp add: memStore_def memList_def scoped_def memHandleConnect_def memClose_def touch_def
      Let_def groupKeys_def groupItems_def)

lemma memRead_eq:
  "Read (memStore L cfg) kind key st =
     (case lookupItem st kind key of
          None \<Rightarrow> Inl (ErrRecordDoesNotExist L)
        | Some (grp, data) \<Rightarrow> Inr data, touch st)"
  by (simp add: memStore_def memRead_def scoped_def memHandleConnect_def memClose_def touch_def
      Let_def lookupItem_def)

lemma memReadAll_eq:
  "ReadAll (memStore L cfg) kind grp st =
     (if groupItems st kind grp = [] \<and> strictList cfg then Inl (ErrRecordDoesNotExist L)
           else Inr (map snd (groupItems st kind grp)), touch st)"
  by (simp add: memStore_def memReadAll_def scoped_def memHandleConnect_def memClose_def touch_def
      Let_def groupItems_def)

lemma memSave_eq:
  "Save (memStore L cfg) kind grp key data st =
     (None, touch (st\<lparr>items := AList.update (kind, key) (grp, data) (items st)\<rparr>))"
  by (simp add: memStore_def memSave_def scoped_def memHandleConnect_def memClose_def touch_def
      Let_def)

lemma memDelete_eq:
  "Delete (memStore L cfg) kind key st =
     (case lookupItem st kind key of
         None \<Rightarrow> (if strictDelete cfg then Some (ErrRecordDoesNotExist L) else None, touch st)
       | Some gd \<Rightarrow> (None, touch (st\<lparr>items := AList.delete (kind, key) (items st)\<rparr>)))"
  by (auto simp add: memStore_def memDelete_def scoped_def memHandleConnect_def memClose_def touch_def
      Let_def lookupItem_def split: option.splits)

lemma memHandleConnect_eq: "HandleConnect (memStore L cfg) = memHandleConnect"
  by (simp add: memStore_def)

lemma Contains_refl [simp]: "Contains s s"
  by (cases s) auto

lemmas store_defs = NewClaimStore_def wStore_def wCipher_def
lemmas w_defs = wState_def wEmpty_def wEnv_def wParse_def tableEncode_def tableDecode_def
  wInstallations_def wClaims_def wResults_def
lemmas kind_defs = ItemTypeInstallations_def ItemTypeClaims_def ItemTypeResults_def ItemTypeOutputs_def
lemmas mem_eqs = memList_eq memRead_eq memReadAll_eq memSave_eq memDelete_eq memHandleConnect_eq


lemma lookupItem_conn [simp]:
  "lookupItem (st\<lparr>opened := b\<rparr>) = lookupItem st"
  "lookupItem (st\<lparr>connects := n\<rparr>) = lookupItem st"
  "lookupItem (st\<lparr>closes := n\<rparr>) = lookupItem st"
  "lookupItem (touch st) = lookupItem st"
  by (simp_all add: lookupItem_def fun_eq_iff)

lemma groupItems_conn [simp]:
  "groupItems (st\<lparr>opened := b\<rparr>) = groupItems st"
  "groupItems (st\<lparr>connects := n\<rparr>) = groupItems st"
  "groupItems (st\<lparr>closes := n\<rparr>) = groupItems st"
  "groupItems (touch st) = groupItems st"
  by (simp_all add: groupItems_def fun_eq_iff)

lemma groupKeys_conn [simp]:
  "groupKeys (st\<lparr>opened := b\<rparr>) = groupKeys st"
  "groupKeys (st\<lparr>connects := n\<rparr>) = groupKeys st"
  "groupKeys (st\<lparr>closes := n\<rparr>) = groupKeys st"
  "groupKeys (touch st) = groupKeys st"
  by (simp_all add: groupKeys_def fun_eq_iff)

lemma withConnect_mem:
  "withConnect (memStore L cfg) fail body st =
     (if opened st then body st
      else (case body (st\<lparr>opened := True, connects := connects st + 1\<rparr>) of
              (r, st2) \<Rightarrow> (r, snd (memClose st2))))"
  by (simp add: withConnect_def memHandleConnect_eq memHandleConnect_def split: prod.splits)

lemma handleNotExistsError_simps [simp]:
  "handleNotExistsError L None t = None"
  "Contains e (ErrRecordDoesNotExist L) \<Longrightarrow> handleNotExistsError L (Some e) t = Some t"
  "\<not> Contains e (ErrRecordDoesNotExist L) \<Longrightarrow> handleNotExistsError L (Some e) t = Some e"
  by (simp_all add: handleNotExistsError_def)

lemma ret_simps [simp]: "ret z (Some e) = Inl e" "ret z None = Inr z"
  by (simp_all add: ret_def)

lemma ListClaims_mem:
  assumes "backingStore s = memStore L cfg"
  shows "ListClaims L s inst st =
     ((if groupKeys st ItemTypeClaims inst = [] then ([], Some ErrInstallationNotFound)
       else (sort (groupKeys st ItemTypeClaims inst), None)), touch st)"
  by (simp add: ListClaims_def assms memList_eq)

lemma ListResults_mem:
  assumes "backingStore s = memStore L cfg"
  shows "ListResults L s cid st = (Inr (sort (groupKeys st ItemTypeResults cid)), touch st)"
  by (simp add: ListResults_def assms memList_eq)

lemma ListOutputs_mem:
  assumes "backingStore s = memStore L cfg"
  shows "ListOutputs L s rid st =
     (Inr (sort (map (\<lambda>fullName. TrimPrefix fullName (rid @ ''-''))
                     (groupKeys st ItemTypeOutputs rid))), touch st)"
  by (simp add: ListOutputs_def assms memList_eq)

lemma ReadInstallation_mem:
  assumes "backingStore s = memStore L cfg"
  shows "ReadInstallation L s ns name st =
     (case lookupItem st ItemTypeInstallations (InstallationKey ns name) of
        None \<Rightarrow> Inl ErrInstallationNotFound
      | Some (g, data) \<Rightarrow> unmarshalInstallation L data, touch st)"
  by (simp add: ReadInstallation_def assms memRead_eq split: option.splits)

lemma ReadClaim_mem:
  assumes "backingStore s = memStore L cfg"
  shows "ReadClaim L s cid st =
     (case lookupItem st ItemTypeClaims cid of
        None \<Rightarrow> Inl ErrClaimNotFound
      | Some (g, data) \<Rightarrow>
          (case decrypt s data of
             Inl err \<Rightarrow> Inl (Wrap err (''error decrypting claim '' @ cid))
           | Inr data' \<Rightarrow> unmarshalClaim L data'), touch st)"
  by (simp add: ReadClaim_def assms memRead_eq split: option.splits sum.splits)

lemma ReadResult_mem:
  assumes "backingStore s = memStore L cfg"
  shows "ReadResult L s rid st =
     (case lookupItem st ItemTypeResults rid of
        None \<Rightarrow> Inl ErrResultNotFound
      | Some (g, data) \<Rightarrow> unmarshalResult L data, touch st)"
  by (simp add: ReadResult_def assms memRead_eq split: option.splits)

lemma ReadOutput_mem:
  assumes "backingStore s = memStore L cfg"
  shows "ReadOutput L s c r name st =
     (case lookupItem st ItemTypeOutputs (outputKey (Result.ID r) name) of
        None \<Rightarrow> Inl ErrOutputNotFound
      | Some (g, data) \<Rightarrow>
          if sensitiveOrFalse (Claim.Bundle c) name
          then (case decrypt s data of
                  Inl err \<Rightarrow> Inl (Wrap err (''error decrypting output '' @ name))
                | Inr data' \<Rightarrow> Inr (NewOutput c r name data'))
          else Inr (NewOutput c r name data), touch st)"
  by (simp add: ReadOutput_def assms memRead_eq split: option.splits sum.splits)

lemma sorted_last_Max: "sorted ys \<Longrightarrow> ys \<noteq> [] \<Longrightarrow> last ys = Max (set ys)"
proof (induction ys)
  case Nil
  then show ?case by simp
next
  case (Cons a ys)
  show ?case
  proof (cases "ys = []")
    case True
    then show ?thesis by simp
  next
    case False
    have "last ys = Max (set ys)" using Cons False by simp
    moreover have "a \<le> Max (set ys)"
      using Cons.prems False by (meson List.finite_set Max_ge_iff set_empty sorted_simps(2) last_in_set)
    ultimately show ?thesis using False by (simp add: max_def)
  qed
qed

lemma last_sort_Max: "xs \<noteq> [] \<Longrightarrow> last (sort xs) = Max (set xs)"
  using sorted_last_Max [of "sort xs"] by (metis set_sort sorted_sort set_empty)


lemma in_groupItems_iff:
  "(k, d) \<in> set (groupItems st kind g) \<longleftrightarrow> lookupItem st kind k = Some (g, d)"
proof
  assume "(k, d) \<in> set (groupItems st kind g)"
  then obtain kk gd where m: "(kk, gd) \<in> set (items st)" "fst kk = kind" "fst gd = g"
      "map_of (items st) kk = Some gd" "snd kk = k" "snd gd = d"
    unfolding groupItems_def by auto
  have "kk = (kind, k)" "gd = (g, d)" using m by (simp_all add: prod_eq_iff)
  then show "lookupItem st kind k = Some (g, d)"
    using m(4) by (simp add: lookupItem_def)
next
  assume a: "lookupItem st kind k = Some (g, d)"
  then have "((kind, k), (g, d)) \<in> set (items st)"
    by (simp add: lookupItem_def map_of_SomeD)
  moreover have "map_of (items st) (kind, k) = Some (g, d)"
    using a by (simp add: lookupItem_def)
  ultimately have "(\<lambda>(kk, gd). (snd kk, snd gd)) ((kind, k), (g, d))
      \<in> (\<lambda>(kk, gd). (snd kk, snd gd)) `
         {x \<in> set (items st). (\<lambda>(kk, gd). fst kk = kind \<and> fst gd = g \<and> map_of (items st) kk = Some gd) x}"
    by (intro imageI) simp
  then show "(k, d) \<in> set (groupItems st kind g)"
    unfolding groupItems_def by simp
qed

lemma set_groupKeys:
  "set (groupKeys st kind g) = {k. \<exists>d. lookupItem st kind k = Some (g, d)}"
proof -
  have "\<And>k. k \<in> set (groupKeys st kind g) \<longleftrightarrow> (\<exists>d. lookupItem st kind k = Some (g, d))"
  proof -
    fix k
    have "k \<in> set (groupKeys st kind g) \<longleftrightarrow> (\<exists>d. (k, d) \<in> set (groupItems st kind g))"
      unfolding groupKeys_def by force
    then show "k \<in> set (groupKeys st kind g) \<longleftrightarrow> (\<exists>d. lookupItem st kind k = Some (g, d))"
      by (simp add: in_groupItems_iff)
  qed
  then show ?thesis by blast
qed

lemma distinct_groupKeys: "distinct (groupKeys st kind g)"
proof -
  have "inj_on fst (set (groupItems st kind g))"
  proof (rule inj_onI)
    fix x y
    assume x: "x \<in> set (groupItems st kind g)" and y: "y \<in> set (groupItems st kind g)"
      and e: "fst x = fst y"
    obtain k1 d1 where x': "x = (k1, d1)" by (cases x)
    obtain k2 d2 where y': "y = (k2, d2)" by (cases y)
    have "lookupItem st kind k1 = Some (g, d1)"
      using x unfolding x' by (rule iffD1 [OF in_groupItems_iff])
    moreover have "lookupItem st kind k2 = Some (g, d2)"
      using y unfolding y' by (rule iffD1 [OF in_groupItems_iff])
    moreover have "k1 = k2" using e x' y' by simp
    ultimately have "d1 = d2" by simp
    then show "x = y" using x' y' \<open>k1 = k2\<close> by simp
  qed
  moreover have "distinct (groupItems st kind g)" by (simp add: groupItems_def)
  ultimately show ?thesis by (simp add: groupKeys_def distinct_map)
qed

lemma groupKeys_empty_iff:
  "groupKeys st kind g = [] \<longleftrightarrow> (\<forall>k d. lookupItem st kind k \<noteq> Some (g, d))"
proof -
  have "groupKeys st kind g = [] \<longleftrightarrow> set (groupKeys st kind g) = {}" by simp
  also have "\<dots> \<longleftrightarrow> (\<forall>k d. lookupItem st kind k \<noteq> Some (g, d))"
    unfolding set_groupKeys by blast
  finally show ?thesis .
qed


section \<open>Not-found policy\<close>


text \<open>
  C6. When the backing store signals that the record does not exist, that is, when its
  error message contains the message of \<^verbatim>\<open>crud.ErrRecordDoesNotExist\<close>,
  \<^verbatim>\<open>ListResults\<close> and \<^verbatim>\<open>ListOutputs\<close> return an empty list and no error,
  and \<^verbatim>\<open>ReadInstallation\<close>, \<^verbatim>\<open>ReadClaim\<close>, \<^verbatim>\<open>ReadResult\<close> and
  \<^verbatim>\<open>ReadOutput\<close> return the typed errors with the messages
  "Installation does not exist", "Claim does not exist", "Result does not exist" and
  "Output does not exist". This holds for every backing store.
\<close>

theorem C6_not_found_policy:
  assumes "Contains e (ErrRecordDoesNotExist L)"
  shows
    "(List (backingStore s) ItemTypeResults claimID st = ((ns, Some e), st1)
        \<longrightarrow> ListResults L s claimID st = (Inr [], st1))
   \<and> (List (backingStore s) ItemTypeOutputs resultID st = ((ns, Some e), st1)
        \<longrightarrow> ListOutputs L s resultID st = (Inr [], st1))
   \<and> (Read (backingStore s) ItemTypeInstallations (InstallationKey namespace name) st
          = (Inl e, st1)
        \<longrightarrow> ReadInstallation L s namespace name st = (Inl ''Installation does not exist'', st1))
   \<and> (Read (backingStore s) ItemTypeClaims claimID st = (Inl e, st1)
        \<longrightarrow> ReadClaim L s claimID st = (Inl ''Claim does not exist'', st1))
   \<and> (Read (backingStore s) ItemTypeResults resultID st = (Inl e, st1)
        \<longrightarrow> ReadResult L s resultID st = (Inl ''Result does not exist'', st1))
   \<and> (Read (backingStore s) ItemTypeOutputs (outputKey (Result.ID r) outputName) st
          = (Inl e, st1)
        \<longrightarrow> ReadOutput L s c r outputName st = (Inl ''Output does not exist'', st1))"
  using assms
  by (simp add: ListResults_def ListOutputs_def ReadInstallation_def ReadClaim_def
      ReadResult_def ReadOutput_def ErrInstallationNotFound_def ErrClaimNotFound_def
      ErrResultNotFound_def ErrOutputNotFound_def)

theorem C6_not_found_policy_witness:
  "Contains ''File does not exist'' (ErrRecordDoesNotExist wEnv)
   \<and> List (backingStore (wStore True True)) ItemTypeResults ''c1'' wEmpty
       = (([], Some ''File does not exist''), touch wEmpty)
   \<and> ListResults wEnv (wStore True True) ''c1'' wEmpty = (Inr [], touch wEmpty)
   \<and> List (backingStore (wStore True True)) ItemTypeOutputs ''r1'' wEmpty
       = (([], Some ''File does not exist''), touch wEmpty)
   \<and> ListOutputs wEnv (wStore True True) ''r1'' wEmpty = (Inr [], touch wEmpty)
   \<and> Read (backingStore (wStore True True)) ItemTypeInstallations
         (InstallationKey '''' ''wordpress'') wEmpty
       = (Inl ''File does not exist'', touch wEmpty)
   \<and> ReadInstallation wEnv (wStore True True) '''' ''wordpress'' wEmpty
       = (Inl ''Installation does not exist'', touch wEmpty)
   \<and> Read (backingStore (wStore True True)) ItemTypeClaims ''c1'' wEmpty
       = (Inl ''File does not exist'', touch wEmpty)
   \<and> ReadClaim wEnv (wStore True True) ''c1'' wEmpty
       = (Inl ''Claim does not exist'', touch wEmpty)
   \<and> Read (backingStore (wStore True True)) ItemTypeResults ''r1'' wEmpty
       = (Inl ''File does not exist'', touch wEmpty)
   \<and> ReadResult wEnv (wStore True True) ''r1'' wEmpty
       = (Inl ''Result does not exist'', touch wEmpty)
   \<and> Read (backingStore (wStore True True)) ItemTypeOutputs
         (outputKey (Result.ID wResult1) ''port'') wEmpty
       = (Inl ''File does not exist'', touch wEmpty)
   \<and> ReadOutput wEnv (wStore True True) wClaim1 wResult1 ''port'' wEmpty
       = (Inl ''Output does not exist'', touch wEmpty)"
proof -
  have h: "Contains ''File does not exist'' (ErrRecordDoesNotExist wEnv)"
    by (simp add: wEnv_def)
  have l1: "List (backingStore (wStore True True)) ItemTypeResults ''c1'' wEmpty
       = (([], Some ''File does not exist''), touch wEmpty)"
    by (simp add: store_defs mem_eqs groupKeys_def groupItems_def wEmpty_def wEnv_def)
  have l2: "List (backingStore (wStore True True)) ItemTypeOutputs ''r1'' wEmpty
       = (([], Some ''File does not exist''), touch wEmpty)"
    by (simp add: store_defs mem_eqs groupKeys_def groupItems_def wEmpty_def wEnv_def)
  have r: "\<And>kind key. Read (backingStore (wStore True True)) kind key wEmpty
       = (Inl ''File does not exist'', touch wEmpty)"
    by (simp add: store_defs mem_eqs lookupItem_def wEmpty_def wEnv_def)
  show ?thesis
    using C6_not_found_policy [OF h, of "wStore True True" "''c1''" wEmpty "[]" "touch wEmpty"
        "''r1''" "''''" "''wordpress''" wResult1 "''port''" wClaim1] h l1 l2 r
    by simp
qed


section \<open>The last claim and the last result\<close>

lemma ReadLastClaim_mem:
  assumes "backingStore s = memStore L cfg"
  shows "fst (ReadLastClaim L s inst st) =
     (if groupKeys st ItemTypeClaims inst = [] then Inl ErrInstallationNotFound
      else fst (ReadClaim L s (Max (set (groupKeys st ItemTypeClaims inst))) st))"
  by (simp add: ReadLastClaim_def assms withConnect_mem memList_eq ReadClaim_mem [OF assms]
      last_sort_Max split: prod.splits)

lemma ReadLastResult_mem:
  assumes "backingStore s = memStore L cfg"
  shows "fst (ReadLastResult L s cid st) =
     (if groupKeys st ItemTypeResults cid = []
      then Inl (if strictList cfg then ErrClaimNotFound
                else ''claim '' @ cid @ '' has no results'')
      else fst (ReadResult L s (Max (set (groupKeys st ItemTypeResults cid))) st))"
  by (simp add: ReadLastResult_def assms withConnect_mem memList_eq ReadResult_mem [OF assms]
      last_sort_Max split: prod.splits)

text \<open>
  C4. On the backing store above, whatever its two flags: when the installation has
  claim records, \<^verbatim>\<open>ReadLastClaim\<close> returns what \<^verbatim>\<open>ReadClaim\<close> returns for the
  greatest claim id of the installation, in the order of Go strings; when it has none,
  it returns \<^verbatim>\<open>ErrInstallationNotFound\<close>. When the claim has result records,
  \<^verbatim>\<open>ReadLastResult\<close> returns what \<^verbatim>\<open>ReadResult\<close> returns for the greatest
  result id of the claim; when it has none, it returns an error.
\<close>

theorem C4_read_last:
  assumes "backingStore s = memStore L cfg"
  shows
    "((\<exists>k d. lookupItem st ItemTypeClaims k = Some (inst, d)) \<longrightarrow>
        fst (ReadLastClaim L s inst st)
          = fst (ReadClaim L s (Max {k. \<exists>d. lookupItem st ItemTypeClaims k = Some (inst, d)}) st))
   \<and> ((\<forall>k d. lookupItem st ItemTypeClaims k \<noteq> Some (inst, d)) \<longrightarrow>
        fst (ReadLastClaim L s inst st) = Inl ErrInstallationNotFound)
   \<and> ((\<exists>k d. lookupItem st ItemTypeResults k = Some (cid, d)) \<longrightarrow>
        fst (ReadLastResult L s cid st)
          = fst (ReadResult L s (Max {k. \<exists>d. lookupItem st ItemTypeResults k = Some (cid, d)}) st))
   \<and> ((\<forall>k d. lookupItem st ItemTypeResults k \<noteq> Some (cid, d)) \<longrightarrow>
        (\<exists>err. fst (ReadLastResult L s cid st) = Inl err))"
proof -
  have c1: "(\<exists>k d. lookupItem st ItemTypeClaims k = Some (inst, d)) \<longrightarrow>
        fst (ReadLastClaim L s inst st)
          = fst (ReadClaim L s (Max {k. \<exists>d. lookupItem st ItemTypeClaims k = Some (inst, d)}) st)"
    using groupKeys_empty_iff [of st ItemTypeClaims inst]
    by (auto simp: ReadLastClaim_mem [OF assms] set_groupKeys)
  have c2: "(\<forall>k d. lookupItem st ItemTypeClaims k \<noteq> Some (inst, d)) \<longrightarrow>
        fst (ReadLastClaim L s inst st) = Inl ErrInstallationNotFound"
    using groupKeys_empty_iff [of st ItemTypeClaims inst]
    by (simp add: ReadLastClaim_mem [OF assms])
  have r1: "(\<exists>k d. lookupItem st ItemTypeResults k = Some (cid, d)) \<longrightarrow>
        fst (ReadLastResult L s cid st)
          = fst (ReadResult L s (Max {k. \<exists>d. lookupItem st ItemTypeResults k = Some (cid, d)}) st)"
    using groupKeys_empty_iff [of st ItemTypeResults cid]
    by (auto simp: ReadLastResult_mem [OF assms] set_groupKeys)
  have r2: "(\<forall>k d. lookupItem st ItemTypeResults k \<noteq> Some (cid, d)) \<longrightarrow>
        (\<exists>err. fst (ReadLastResult L s cid st) = Inl err)"
    using groupKeys_empty_iff [of st ItemTypeResults cid]
    by (simp add: ReadLastResult_mem [OF assms])
  show ?thesis using c1 c2 r1 r2 by blast
qed


lemma wStore_backing: "backingStore (wStore sl sd) = memStore wEnv \<lparr>strictList = sl, strictDelete = sd\<rparr>"
  by (simp add: store_defs)

lemma wStore_crypt [simp]:
  "encrypt (wStore sl sd) data = Inr (rev data)"
  "decrypt (wStore sl sd) data = Inr (rev data)"
  by (simp_all add: store_defs)

lemma wState_claims: "groupKeys wState ItemTypeClaims ''wordpress'' = [''c2'', ''c1'']"
  by (simp add: groupKeys_def groupItems_def wState_def kind_defs)

lemma wState_claims_missing: "groupKeys wState ItemTypeClaims ''missing'' = []"
  by (simp add: groupKeys_def groupItems_def wState_def kind_defs)

lemma wState_results:
  "groupKeys wState ItemTypeResults ''c1'' = [''r1'']"
  "groupKeys wState ItemTypeResults ''c2'' = [''r2'']"
  "groupKeys wState ItemTypeResults ''c3'' = []"
  by (simp_all add: groupKeys_def groupItems_def wState_def kind_defs)

lemma wState_ReadClaim:
  "fst (ReadClaim wEnv (wStore sl sd) ''c2'' wState) = Inr wClaim2"
  "fst (ReadClaim wEnv (wStore sl sd) ''c1'' wState) = Inr wClaim1"
  unfolding ReadClaim_mem [OF wStore_backing]
  by (simp_all add: lookupItem_def wState_def kind_defs
      unmarshalClaim_def wEnv_def tableDecode_def wClaims_def exportedClaim_def wClaim1_def wClaim2_def)

lemma wState_ReadResult:
  "fst (ReadResult wEnv (wStore sl sd) ''r1'' wState) = Inr (exportedResult wResult1)"
  unfolding ReadResult_mem [OF wStore_backing]
  by (simp_all add: lookupItem_def wState_def kind_defs
      unmarshalResult_def wEnv_def tableDecode_def wResults_def exportedResult_def  Result_set_claim_def)

theorem C4_read_last_witness:
  "backingStore (wStore False False) = memStore wEnv \<lparr>strictList = False, strictDelete = False\<rparr>
   \<and> (\<exists>k d. lookupItem wState ItemTypeClaims k = Some (''wordpress'', d))
   \<and> fst (ReadLastClaim wEnv (wStore False False) ''wordpress'' wState) = Inr wClaim2
   \<and> (\<forall>k d. lookupItem wState ItemTypeClaims k \<noteq> Some (''missing'', d))
   \<and> fst (ReadLastClaim wEnv (wStore False False) ''missing'' wState)
       = Inl ErrInstallationNotFound
   \<and> (\<exists>k d. lookupItem wState ItemTypeResults k = Some (''c1'', d))
   \<and> fst (ReadLastResult wEnv (wStore False False) ''c1'' wState)
       = Inr (exportedResult wResult1)
   \<and> (\<forall>k d. lookupItem wState ItemTypeResults k \<noteq> Some (''c3'', d))
   \<and> (\<exists>err. fst (ReadLastResult wEnv (wStore False False) ''c3'' wState) = Inl err)"
proof -
  have e1: "\<exists>k d. lookupItem wState ItemTypeClaims k = Some (''wordpress'', d)"
    using groupKeys_empty_iff [of wState ItemTypeClaims "''wordpress''"] wState_claims by simp
  have e2: "\<forall>k d. lookupItem wState ItemTypeClaims k \<noteq> Some (''missing'', d)"
    using groupKeys_empty_iff [of wState ItemTypeClaims "''missing''"] wState_claims_missing
    by simp
  have e3: "\<exists>k d. lookupItem wState ItemTypeResults k = Some (''c1'', d)"
    using groupKeys_empty_iff [of wState ItemTypeResults "''c1''"] wState_results by simp
  have e4: "\<forall>k d. lookupItem wState ItemTypeResults k \<noteq> Some (''c3'', d)"
    using groupKeys_empty_iff [of wState ItemTypeResults "''c3''"] wState_results by simp
  have m1: "Max {k. \<exists>d. lookupItem wState ItemTypeClaims k = Some (''wordpress'', d)} = ''c2''"
    unfolding set_groupKeys [symmetric] wState_claims by simp
  have m2: "Max {k. \<exists>d. lookupItem wState ItemTypeResults k = Some (''c1'', d)} = ''r1''"
    unfolding set_groupKeys [symmetric] wState_results by simp
  show ?thesis
    using C4_read_last [OF wStore_backing [of False False],
        where st = wState and inst = "''wordpress''" and cid = "''c1''"]
      C4_read_last [OF wStore_backing [of False False],
        where st = wState and inst = "''missing''" and cid = "''c3''"]
      e1 e2 e3 e4 wStore_backing [of False False]
    by (simp add: m1 m2 wState_ReadClaim wState_ReadResult)
qed


section \<open>Writes and deletes on the backing store\<close>

lemma lookupItem_update:
  "lookupItem (st\<lparr>items := AList.update (kind, key) v (items st)\<rparr>) kind' key' =
     (if kind' = kind \<and> key' = key then Some v else lookupItem st kind' key')"
  by (simp add: lookupItem_def update_conv')

lemma lookupItem_delete:
  "lookupItem (st\<lparr>items := AList.delete (kind, key) (items st)\<rparr>) kind' key' =
     (if kind' = kind \<and> key' = key then None else lookupItem st kind' key')"
  by (simp add: lookupItem_def delete_conv')

lemma SaveDocument_mem:
  "SaveDocument (memStore L cfg) doc enc st =
     (case GetData doc of
        Inl err \<Rightarrow> (Some err, st)
      | Inr data \<Rightarrow>
          (case (if ShouldEncrypt doc then enc data else Inr data) of
             Inl err \<Rightarrow> (Some err, st)
           | Inr data' \<Rightarrow>
               (None, touch (st\<lparr>items := AList.update (GetType doc, GetName doc)
                                            (Group doc, data') (items st)\<rparr>))))"
  by (simp add: SaveDocument_def memSave_eq split: sum.splits)

lemma SaveInstallation_mem:
  assumes "backingStore s = memStore L cfg"
  shows "SaveInstallation L s i st =
     (case marshalInstallation L i of
        Inl err \<Rightarrow> (Some err, st)
      | Inr data \<Rightarrow>
          (None, touch (st\<lparr>items :=
             AList.update (ItemTypeInstallations,
                           InstallationKey (Installation.Namespace i) (Installation.Name i))
                          (Installation.Namespace i, data) (items st)\<rparr>)))"
  by (simp add: SaveInstallation_def assms SaveDocument_mem InstallationDocument_def
      split: sum.splits)

section \<open>An installation without claims\<close>

lemma DeleteInstallation_no_claims:
  assumes "backingStore s = memStore L cfg"
    and "groupKeys st ItemTypeClaims installation = []"
  shows "fst (DeleteInstallation L s installation st) = Some ErrInstallationNotFound"
    and "items (snd (DeleteInstallation L s installation st)) = items st"
  using assms(2)
  by (simp_all add: DeleteInstallation_def assms(1) withConnect_mem ListClaims_mem [OF assms(1)]
      memClose_def)

text \<open>
  C9. On the backing store above: when no claim record exists for the installation,
  whether or not an installation record does, \<^verbatim>\<open>ListClaims\<close> returns an empty list
  with \<^verbatim>\<open>ErrInstallationNotFound\<close>, and \<^verbatim>\<open>DeleteInstallation\<close> returns
  \<^verbatim>\<open>ErrInstallationNotFound\<close> and leaves every record of the backing store as it
  was. In particular, when the state is the one \<^verbatim>\<open>SaveInstallation\<close> left after
  saving an installation of that name, the record it wrote is still there.
\<close>

theorem C9_installation_without_claims:
  assumes "backingStore s = memStore L cfg"
    and "\<forall>k d. lookupItem st ItemTypeClaims k \<noteq> Some (installation, d)"
  shows
    "fst (ListClaims L s installation st) = ([], Some ErrInstallationNotFound)
   \<and> fst (DeleteInstallation L s installation st) = Some ErrInstallationNotFound
   \<and> items (snd (DeleteInstallation L s installation st)) = items st
   \<and> (\<forall>i st0. SaveInstallation L s i st0 = (None, st) \<and> Installation.Name i = installation
        \<longrightarrow> (\<exists>data. marshalInstallation L i = Inr data
               \<and> lookupItem (snd (DeleteInstallation L s installation st))
                    ItemTypeInstallations
                    (InstallationKey (Installation.Namespace i) (Installation.Name i))
                  = Some (Installation.Namespace i, data)))"
proof -
  have ks: "groupKeys st ItemTypeClaims installation = []"
    using assms(2) by (simp add: groupKeys_empty_iff)
  have l: "fst (ListClaims L s installation st) = ([], Some ErrInstallationNotFound)"
    using ks by (simp add: ListClaims_mem [OF assms(1)])
  note d = DeleteInstallation_no_claims [OF assms(1) ks]
  have sv: "\<forall>i st0. SaveInstallation L s i st0 = (None, st) \<and> Installation.Name i = installation
        \<longrightarrow> (\<exists>data. marshalInstallation L i = Inr data
               \<and> lookupItem (snd (DeleteInstallation L s installation st))
                    ItemTypeInstallations
                    (InstallationKey (Installation.Namespace i) (Installation.Name i))
                  = Some (Installation.Namespace i, data))"
  proof (intro allI impI)
    fix i st0
    assume a: "SaveInstallation L s i st0 = (None, st) \<and> Installation.Name i = installation"
    then obtain data where m: "marshalInstallation L i = Inr data"
      and st: "st = touch (st0\<lparr>items :=
             AList.update (ItemTypeInstallations,
                           InstallationKey (Installation.Namespace i) (Installation.Name i))
                          (Installation.Namespace i, data) (items st0)\<rparr>)"
      by (auto simp: SaveInstallation_mem [OF assms(1)] split: sum.splits)
    have "lookupItem st ItemTypeInstallations
            (InstallationKey (Installation.Namespace i) (Installation.Name i))
          = Some (Installation.Namespace i, data)"
      unfolding st by (simp add: lookupItem_update)
    moreover have "lookupItem (snd (DeleteInstallation L s installation st)) = lookupItem st"
      using d(2) by (simp add: lookupItem_def fun_eq_iff)
    ultimately show "\<exists>data. marshalInstallation L i = Inr data
               \<and> lookupItem (snd (DeleteInstallation L s installation st))
                    ItemTypeInstallations
                    (InstallationKey (Installation.Namespace i) (Installation.Name i))
                  = Some (Installation.Namespace i, data)"
      using m by simp
  qed
  show ?thesis using l d sv by blast
qed

lemma wSaveInstallation:
  "SaveInstallation wEnv (wStore sl sd) wInstallation wEmpty = (None, wSaved)"
  unfolding SaveInstallation_mem [OF wStore_backing]
  by (simp add: marshalInstallation_def exportedInstallation_def wEnv_def tableEncode_def
      wInstallations_def wInstallation_def zeroInstallation_def wEmpty_def wSaved_def touch_def
      InstallationKey_def kind_defs)

theorem C9_installation_without_claims_witness:
  "backingStore (wStore False False)
     = memStore wEnv \<lparr>strictList = False, strictDelete = False\<rparr>
   \<and> (\<forall>k d. lookupItem wSaved ItemTypeClaims k \<noteq> Some (''wordpress'', d))
   \<and> SaveInstallation wEnv (wStore False False) wInstallation wEmpty = (None, wSaved)
   \<and> Installation.Name wInstallation = ''wordpress''
   \<and> fst (ListClaims wEnv (wStore False False) ''wordpress'' wSaved)
       = ([], Some ErrInstallationNotFound)
   \<and> fst (DeleteInstallation wEnv (wStore False False) ''wordpress'' wSaved)
       = Some ErrInstallationNotFound
   \<and> items (snd (DeleteInstallation wEnv (wStore False False) ''wordpress'' wSaved))
       = items wSaved
   \<and> lookupItem (snd (DeleteInstallation wEnv (wStore False False) ''wordpress'' wSaved))
        ItemTypeInstallations ''wordpress'' = Some ('''', ''{installation}'')"
proof -
  have h: "\<forall>k d. lookupItem wSaved ItemTypeClaims k \<noteq> Some (''wordpress'', d)"
    by (simp add: lookupItem_def wSaved_def kind_defs)
  have n: "Installation.Name wInstallation = ''wordpress''"
    "Installation.Namespace wInstallation = ''''"
    by (simp_all add: wInstallation_def zeroInstallation_def)
  have m: "marshalInstallation wEnv wInstallation = Inr ''{installation}''"
    by (simp add: marshalInstallation_def exportedInstallation_def wEnv_def tableEncode_def
      wInstallations_def wInstallation_def zeroInstallation_def)
  have k: "InstallationKey '''' ''wordpress'' = ''wordpress''"
    by (simp add: InstallationKey_def)
  show ?thesis
    using C9_installation_without_claims [OF wStore_backing [of False False] h]
      wSaveInstallation [of False False] h n wStore_backing [of False False]
    by (auto simp: m k)
qed


section \<open>Sensitive outputs\<close>

lemma sensitiveOrFalse_iff:
  "sensitiveOrFalse b name \<longleftrightarrow> IsOutputSensitive b name = (True, None)"
  by (simp add: sensitiveOrFalse_def IsOutputSensitive_def split: option.splits)

lemma SaveOutput_mem:
  assumes "backingStore s = memStore L cfg"
  shows "SaveOutput L s out st =
     (if Claim.ID (Output.claim out) = '''' then (Some ''output.Claim is not set'', st)
      else if sensitiveOrFalse (Claim.Bundle (Output.claim out)) (Output.Name out)
      then (case encrypt s (Output.Value out) of
              Inl err \<Rightarrow>
                (Some (Wrap err (''error encrypting output '' @ Output.Name out
                                @ '' for result '' @ Result.ID (Output.result out)
                                @ '' of installation ''
                                @ Claim.Installation (Output.claim out))), st)
            | Inr data \<Rightarrow>
                (None, touch (st\<lparr>items :=
                   AList.update (ItemTypeOutputs,
                                 outputKey (Result.ID (Output.result out)) (Output.Name out))
                                (Result.ID (Output.result out), data) (items st)\<rparr>)))
      else (None, touch (st\<lparr>items :=
                   AList.update (ItemTypeOutputs,
                                 outputKey (Result.ID (Output.result out)) (Output.Name out))
                                (Result.ID (Output.result out), Output.Value out)
                                (items st)\<rparr>)))"
  by (simp add: SaveOutput_def assms memSave_eq GetGroup_def split: sum.splits)

text \<open>
  C2. On the backing store above: after \<^verbatim>\<open>SaveOutput\<close> has returned without an
  error, the record under the output's key, in the group of its result, holds the
  encryption of the value when the bundle of the output's claim marks the name
  sensitive, and the value itself otherwise. \<^verbatim>\<open>ReadOutput\<close> applies the decryption
  to the stored bytes when the bundle of the claim it is given marks the name sensitive,
  and returns them as they are otherwise. A name without an output definition in the
  bundle is not sensitive, on both paths.
\<close>

theorem C2_sensitive_outputs:
  assumes "backingStore s = memStore L cfg"
    and "SaveOutput L s out st = (None, st')"
  shows
    "(\<exists>raw. lookupItem st' ItemTypeOutputs
               (outputKey (Result.ID (Output.result out)) (Output.Name out))
             = Some (Result.ID (Output.result out), raw)
          \<and> fst (Read (backingStore s) ItemTypeOutputs
                   (outputKey (Result.ID (Output.result out)) (Output.Name out)) st') = Inr raw
          \<and> (if IsOutputSensitive (Claim.Bundle (Output.claim out)) (Output.Name out)
                  = (True, None)
              then encrypt s (Output.Value out) = Inr raw
              else raw = Output.Value out))
   \<and> (\<forall>c r name st2 g raw.
         lookupItem st2 ItemTypeOutputs (outputKey (Result.ID r) name) = Some (g, raw) \<longrightarrow>
         fst (ReadOutput L s c r name st2)
           = (if IsOutputSensitive (Claim.Bundle c) name = (True, None)
              then (case decrypt s raw of
                      Inl err \<Rightarrow> Inl (Wrap err (''error decrypting output '' @ name))
                    | Inr data \<Rightarrow> Inr (NewOutput c r name data))
              else Inr (NewOutput c r name raw)))
   \<and> (\<forall>b name. Bundle.Outputs b name = None \<longrightarrow> IsOutputSensitive b name \<noteq> (True, None))"
proof -
  let ?key = "outputKey (Result.ID (Output.result out)) (Output.Name out)"
  let ?sens = "IsOutputSensitive (Claim.Bundle (Output.claim out)) (Output.Name out)
                  = (True, None)"
  have stored: "\<exists>raw. lookupItem st' ItemTypeOutputs ?key
             = Some (Result.ID (Output.result out), raw)
          \<and> (if ?sens then encrypt s (Output.Value out) = Inr raw
              else raw = Output.Value out)"
    using assms(2) unfolding SaveOutput_mem [OF assms(1)]
    by (auto simp: sensitiveOrFalse_iff lookupItem_update split: if_splits sum.splits)
  then obtain raw where raw: "lookupItem st' ItemTypeOutputs ?key
             = Some (Result.ID (Output.result out), raw)"
    "if ?sens then encrypt s (Output.Value out) = Inr raw else raw = Output.Value out"
    by blast
  have rd: "fst (Read (backingStore s) ItemTypeOutputs ?key st') = Inr raw"
    using raw(1) by (simp add: assms(1) memRead_eq)
  have ro: "\<forall>c r name st2 g raw.
         lookupItem st2 ItemTypeOutputs (outputKey (Result.ID r) name) = Some (g, raw) \<longrightarrow>
         fst (ReadOutput L s c r name st2)
           = (if IsOutputSensitive (Claim.Bundle c) name = (True, None)
              then (case decrypt s raw of
                      Inl err \<Rightarrow> Inl (Wrap err (''error decrypting output '' @ name))
                    | Inr data \<Rightarrow> Inr (NewOutput c r name data))
              else Inr (NewOutput c r name raw))"
    by (simp add: ReadOutput_mem [OF assms(1)] sensitiveOrFalse_iff)
  have un: "\<forall>b name. Bundle.Outputs b name = None \<longrightarrow> IsOutputSensitive b name \<noteq> (True, None)"
    by (simp add: IsOutputSensitive_def)
  show ?thesis using raw rd ro un by blast
qed

lemma wSensitive:
  "IsOutputSensitive wBundle ''password'' = (True, None)"
  "IsOutputSensitive wBundle ''port'' = (False, None)"
  "Bundle.Outputs wBundle ''token'' = None"
  by (simp_all add: IsOutputSensitive_def wBundle_def)

lemma wSaveOutput:
  "SaveOutput wEnv (wStore sl sd) (NewOutput wClaim1 wResult1 ''password'' ''secret'') wEmpty
     = (None, \<lparr>items = [((''outputs'', ''r1-password''), (''r1'', ''terces''))],
               opened = False, connects = 1, closes = 1\<rparr>)"
  "SaveOutput wEnv (wStore sl sd) (NewOutput wClaim1 wResult1 ''port'' ''8080'') wEmpty
     = (None, \<lparr>items = [((''outputs'', ''r1-port''), (''r1'', ''8080''))],
               opened = False, connects = 1, closes = 1\<rparr>)"
  unfolding SaveOutput_mem [OF wStore_backing]
  by (simp_all add: NewOutput_def wClaim1_def wResult1_def Result_set_claim_def
      sensitiveOrFalse_iff wSensitive outputKey_def kind_defs wEmpty_def touch_def)

theorem C2_sensitive_outputs_witness:
  "backingStore (wStore False False)
     = memStore wEnv \<lparr>strictList = False, strictDelete = False\<rparr>
   \<and> SaveOutput wEnv (wStore False False)
         (NewOutput wClaim1 wResult1 ''password'' ''secret'') wEmpty
       = (None, \<lparr>items = [((''outputs'', ''r1-password''), (''r1'', ''terces''))],
                 opened = False, connects = 1, closes = 1\<rparr>)
   \<and> IsOutputSensitive (Claim.Bundle wClaim1) ''password'' = (True, None)
   \<and> encrypt (wStore False False) ''secret'' = Inr ''terces''
   \<and> fst (ReadOutput wEnv (wStore False False) wClaim1 wResult1 ''password''
            \<lparr>items = [((''outputs'', ''r1-password''), (''r1'', ''terces''))],
             opened = False, connects = 1, closes = 1\<rparr>)
       = Inr (NewOutput wClaim1 wResult1 ''password'' ''secret'')
   \<and> SaveOutput wEnv (wStore False False)
         (NewOutput wClaim1 wResult1 ''port'' ''8080'') wEmpty
       = (None, \<lparr>items = [((''outputs'', ''r1-port''), (''r1'', ''8080''))],
                 opened = False, connects = 1, closes = 1\<rparr>)
   \<and> IsOutputSensitive (Claim.Bundle wClaim1) ''port'' \<noteq> (True, None)
   \<and> fst (ReadOutput wEnv (wStore False False) wClaim1 wResult1 ''port''
            \<lparr>items = [((''outputs'', ''r1-port''), (''r1'', ''8080''))],
             opened = False, connects = 1, closes = 1\<rparr>)
       = Inr (NewOutput wClaim1 wResult1 ''port'' ''8080'')
   \<and> Bundle.Outputs wBundle ''token'' = None
   \<and> IsOutputSensitive wBundle ''token'' \<noteq> (True, None)"
proof -
  let ?s1 = "\<lparr>items = [((''outputs'', ''r1-password''), (''r1'', ''terces''))],
             opened = False, connects = 1, closes = 1\<rparr>"
  let ?s2 = "\<lparr>items = [((''outputs'', ''r1-port''), (''r1'', ''8080''))],
             opened = False, connects = 1, closes = 1\<rparr>"
  note t1 = C2_sensitive_outputs [OF wStore_backing [of False False] wSaveOutput(1)]
  note t2 = C2_sensitive_outputs [OF wStore_backing [of False False] wSaveOutput(2)]
  have b: "Claim.Bundle wClaim1 = wBundle" by (simp add: wClaim1_def)
  have k: "outputKey (Result.ID wResult1) ''password'' = ''r1-password''"
    "outputKey (Result.ID wResult1) ''port'' = ''r1-port''"
    by (simp_all add: outputKey_def wResult1_def)
  have l1: "lookupItem ?s1 ItemTypeOutputs (outputKey (Result.ID wResult1) ''password'')
      = Some (''r1'', ''terces'')"
    by (simp add: k lookupItem_def kind_defs)
  have l2: "lookupItem ?s2 ItemTypeOutputs (outputKey (Result.ID wResult1) ''port'')
      = Some (''r1'', ''8080'')"
    by (simp add: k lookupItem_def kind_defs)
  have r1: "fst (ReadOutput wEnv (wStore False False) wClaim1 wResult1 ''password'' ?s1)
       = Inr (NewOutput wClaim1 wResult1 ''password'' ''secret'')"
    using t1 l1 by (simp add: b wSensitive)
  have r2: "fst (ReadOutput wEnv (wStore False False) wClaim1 wResult1 ''port'' ?s2)
       = Inr (NewOutput wClaim1 wResult1 ''port'' ''8080'')"
    using t2 l2 by (simp add: b wSensitive)
  have u: "IsOutputSensitive wBundle ''token'' \<noteq> (True, None)"
    using t1 wSensitive(3) by blast
  show ?thesis
    using wStore_backing [of False False] wSaveOutput [of False False] r1 r2 u
    by (simp add: b wSensitive)
qed


section \<open>Saving claims and results\<close>

lemma items_memClose [simp]: "items (snd (memClose st)) = items st"
  by (simp add: memClose_def)

lemma kinds_distinct [simp]:
  "ItemTypeClaims \<noteq> ItemTypeInstallations" "ItemTypeInstallations \<noteq> ItemTypeClaims"
  "ItemTypeResults \<noteq> ItemTypeInstallations" "ItemTypeInstallations \<noteq> ItemTypeResults"
  "ItemTypeOutputs \<noteq> ItemTypeInstallations" "ItemTypeInstallations \<noteq> ItemTypeOutputs"
  "ItemTypeClaims \<noteq> ItemTypeResults" "ItemTypeResults \<noteq> ItemTypeClaims"
  "ItemTypeClaims \<noteq> ItemTypeOutputs" "ItemTypeOutputs \<noteq> ItemTypeClaims"
  "ItemTypeResults \<noteq> ItemTypeOutputs" "ItemTypeOutputs \<noteq> ItemTypeResults"
  by (simp_all add: kind_defs)

lemma InstallationKey_global [simp]: "InstallationKey '''' name = name"
  by (simp add: InstallationKey_def)

lemma ApplyClaim_key [simp]:
  "Installation.Name (ApplyClaim p i c) = Installation.Name i"
  "Installation.Namespace (ApplyClaim p i c) = Installation.Namespace i"
  "Installation.claims (ApplyClaim p i c) = Installation.claims i"
  by (simp_all add: ApplyClaim_def Let_def split: sum.splits)

lemma ApplyClaim_Status:
  "Installation.Status (ApplyClaim p i c) =
     \<lparr>InstallationStatus.ClaimID = Claim.ID c, InstallationStatus.Action = Claim.Action c,
      InstallationStatus.Revision = Claim.Revision c, InstallationStatus.ResultID = [],
      InstallationStatus.ResultStatus = []\<rparr>"
  by (simp add: ApplyClaim_def Let_def split: sum.splits)

lemma ApplyResult_key [simp]:
  "Installation.Name (ApplyResult i r) = Installation.Name i"
  "Installation.Namespace (ApplyResult i r) = Installation.Namespace i"
  "Installation.claims (ApplyResult i r) = Installation.claims i"
  by (simp_all add: ApplyResult_def Let_def)

lemma ApplyResult_Status:
  "InstallationStatus.ResultID (Installation.Status (ApplyResult i r)) = Result.ID r"
  "InstallationStatus.ResultStatus (Installation.Status (ApplyResult i r)) = Result.Status r"
  by (simp_all add: ApplyResult_def Let_def)

lemma lookupItem_items_update:
  "lookupItem (st\<lparr>items := AList.update (kind, key) v xs\<rparr>) kind' key' =
     (if kind' = kind \<and> key' = key then Some v
      else lookupItem (st\<lparr>items := xs\<rparr>) kind' key')"
  by (simp add: lookupItem_def update_conv')

lemma lookupItem_items_delete:
  "lookupItem (st\<lparr>items := AList.delete (kind, key) xs\<rparr>) kind' key' =
     (if kind' = kind \<and> key' = key then None
      else lookupItem (st\<lparr>items := xs\<rparr>) kind' key')"
  by (simp add: lookupItem_def delete_conv')

lemma lookupItem_items_same [simp]:
  "lookupItem (st\<lparr>items := items st'\<rparr>) = lookupItem st'"
  by (simp add: lookupItem_def fun_eq_iff)

lemma SaveClaim_mem_items:
  assumes mem: "backingStore s = memStore L cfg"
    and ok: "SaveClaim L s c st = (None, st')"
  shows "\<exists>data data'. marshalClaim L c = Inr data \<and> encrypt s data = Inr data'
     \<and> (if fst (IsModifyingAction c)
         then \<exists>g b i idata.
                lookupItem st ItemTypeInstallations (Claim.Installation c) = Some (g, b)
              \<and> unmarshalInstallation L b = Inr i
              \<and> marshalInstallation L (ApplyClaim (ParseNormalizedNamed L) i c) = Inr idata
              \<and> items st' =
                  AList.update (ItemTypeInstallations,
                      InstallationKey (Installation.Namespace i) (Installation.Name i))
                    (Installation.Namespace i, idata)
                    (AList.update (ItemTypeClaims, Claim.ID c) (Claim.Installation c, data')
                       (items st))
         else items st' =
                AList.update (ItemTypeClaims, Claim.ID c) (Claim.Installation c, data')
                  (items st))"
  using ok
  unfolding SaveClaim_def mem withConnect_mem SaveDocument_mem
    ReadInstallation_mem [OF mem] SaveInstallation_mem [OF mem]
  by (auto simp: ClaimDocument_def lookupItem_items_update
      split: if_splits sum.splits prod.splits option.splits)

lemma SaveResult_mem_items:
  assumes mem: "backingStore s = memStore L cfg"
    and ok: "SaveResult L s r st = (None, st')"
  shows "\<exists>data. marshalResult L r = Inr data
     \<and> (case Result.claim r of
          None \<Rightarrow>
            items st' = AList.update (ItemTypeResults, Result.ID r) (Result.ClaimID r, data)
                          (items st)
        | Some c \<Rightarrow>
            if fst (IsModifyingAction c)
            then \<exists>g b i idata.
                   lookupItem st ItemTypeInstallations (Claim.Installation c) = Some (g, b)
                 \<and> unmarshalInstallation L b = Inr i
                 \<and> marshalInstallation L (ApplyResult i r) = Inr idata
                 \<and> items st' =
                     AList.update (ItemTypeInstallations,
                         InstallationKey (Installation.Namespace i) (Installation.Name i))
                       (Installation.Namespace i, idata)
                       (AList.update (ItemTypeResults, Result.ID r) (Result.ClaimID r, data)
                          (items st))
            else items st' =
                   AList.update (ItemTypeResults, Result.ID r) (Result.ClaimID r, data)
                     (items st))"
  using ok
  unfolding SaveResult_def mem withConnect_mem SaveDocument_mem
    ReadInstallation_mem [OF mem] SaveInstallation_mem [OF mem]
  by (auto simp: ResultDocument_def lookupItem_items_update
      split: if_splits sum.splits prod.splits option.splits)

lemma unmarshalInstallation_claims:
  "unmarshalInstallation L b = Inr i \<Longrightarrow> Installation.claims i = []"
  by (cases "decodeInstallation L b") (auto simp: unmarshalInstallation_def exportedInstallation_def)

lemma exportedInstallation_id:
  "Installation.claims i = [] \<Longrightarrow> exportedInstallation i = i"
  by (simp add: exportedInstallation_def)

lemma json_installation_round_trip:
  assumes rt: "\<forall>i b. encodeInstallation L i = Inr b \<longrightarrow> decodeInstallation L b = Inr i"
    and m: "marshalInstallation L i = Inr b"
  shows "unmarshalInstallation L b = Inr (exportedInstallation i)"
proof -
  have "decodeInstallation L b = Inr (exportedInstallation i)"
    using rt m by (simp add: marshalInstallation_def)
  then show ?thesis by (simp add: unmarshalInstallation_def exportedInstallation_def)
qed

lemma items_lookupItem: "items st' = xs \<Longrightarrow> lookupItem st' k k' = map_of xs (k, k')"
  by (simp add: lookupItem_def)

text \<open>
  C1. On the backing store above, with a JSON encoding that decodes what it encoded.
  After \<^verbatim>\<open>SaveClaim(c)\<close> has returned without an error for a claim whose action
  is modifying, the installation it persisted is the installation read under the
  claim's installation name with \<^verbatim>\<open>ApplyClaim(c)\<close> applied: reading it back gives
  a status with the claim's id, action and revision and with empty result id and
  result status. After \<^verbatim>\<open>SaveResult(r)\<close> has returned without an error for a
  result that refers to a modifying claim, the installation it persisted has the
  result's id and status in its status. The installation is written under its own
  namespace and name; when it was stored under the key of its own name, it is read
  back under the claim's installation name as well.
\<close>

theorem C1_status_derivation:
  assumes mem: "backingStore s = memStore L cfg"
    and rt: "\<forall>i b. encodeInstallation L i = Inr b \<longrightarrow> decodeInstallation L b = Inr i"
  shows
    "(SaveClaim L s c st = (None, st') \<and> fst (IsModifyingAction c) \<longrightarrow>
       (\<exists>i i'. fst (ReadInstallation L s '''' (Claim.Installation c) st) = Inr i
          \<and> i' = ApplyClaim (ParseNormalizedNamed L) i c
          \<and> fst (ReadInstallation L s (Installation.Namespace i') (Installation.Name i') st')
              = Inr i'
          \<and> (InstallationKey (Installation.Namespace i) (Installation.Name i)
                = Claim.Installation c \<longrightarrow>
              fst (ReadInstallation L s '''' (Claim.Installation c) st') = Inr i')
          \<and> InstallationStatus.ClaimID (Installation.Status i') = Claim.ID c
          \<and> InstallationStatus.Action (Installation.Status i') = Claim.Action c
          \<and> InstallationStatus.Revision (Installation.Status i') = Claim.Revision c
          \<and> InstallationStatus.ResultID (Installation.Status i') = ''''
          \<and> InstallationStatus.ResultStatus (Installation.Status i') = ''''))
   \<and> (SaveResult L s r st = (None, st'') \<and> Result.claim r = Some rc
        \<and> fst (IsModifyingAction rc) \<longrightarrow>
       (\<exists>i i'. fst (ReadInstallation L s '''' (Claim.Installation rc) st) = Inr i
          \<and> i' = ApplyResult i r
          \<and> fst (ReadInstallation L s (Installation.Namespace i') (Installation.Name i') st'')
              = Inr i'
          \<and> (InstallationKey (Installation.Namespace i) (Installation.Name i)
                = Claim.Installation rc \<longrightarrow>
              fst (ReadInstallation L s '''' (Claim.Installation rc) st'') = Inr i')
          \<and> InstallationStatus.ResultID (Installation.Status i') = Result.ID r
          \<and> InstallationStatus.ResultStatus (Installation.Status i') = Result.Status r))"
proof (intro conjI impI)
  assume a: "SaveClaim L s c st = (None, st') \<and> fst (IsModifyingAction c)"
  let ?p = "ParseNormalizedNamed L"
  from SaveClaim_mem_items [OF mem conjunct1 [OF a]] conjunct2 [OF a]
  obtain data' g b i idata where
    l: "lookupItem st ItemTypeInstallations (Claim.Installation c) = Some (g, b)"
    and u: "unmarshalInstallation L b = Inr i"
    and m: "marshalInstallation L (ApplyClaim ?p i c) = Inr idata"
    and it: "items st' =
                  AList.update (ItemTypeInstallations,
                      InstallationKey (Installation.Namespace i) (Installation.Name i))
                    (Installation.Namespace i, idata)
                    (AList.update (ItemTypeClaims, Claim.ID c) (Claim.Installation c, data')
                       (items st))"
    by auto
  have ex: "exportedInstallation (ApplyClaim ?p i c) = ApplyClaim ?p i c"
    using unmarshalInstallation_claims [OF u] by (simp add: exportedInstallation_id)
  have bk: "unmarshalInstallation L idata = Inr (ApplyClaim ?p i c)"
    using json_installation_round_trip [OF rt m] ex by simp
  have lk: "lookupItem st' ItemTypeInstallations
              (InstallationKey (Installation.Namespace i) (Installation.Name i))
            = Some (Installation.Namespace i, idata)"
    by (simp add: items_lookupItem [OF it] update_conv')
  have r0: "fst (ReadInstallation L s '''' (Claim.Installation c) st) = Inr i"
    by (simp add: ReadInstallation_mem [OF mem] l u)
  have r1: "fst (ReadInstallation L s (Installation.Namespace (ApplyClaim ?p i c))
                   (Installation.Name (ApplyClaim ?p i c)) st') = Inr (ApplyClaim ?p i c)"
    by (simp add: ReadInstallation_mem [OF mem] lk bk)
  have r2: "InstallationKey (Installation.Namespace i) (Installation.Name i)
                = Claim.Installation c \<longrightarrow>
              fst (ReadInstallation L s '''' (Claim.Installation c) st') = Inr (ApplyClaim ?p i c)"
    using lk by (auto simp: ReadInstallation_mem [OF mem] bk)
  show "\<exists>i i'. fst (ReadInstallation L s '''' (Claim.Installation c) st) = Inr i
          \<and> i' = ApplyClaim (ParseNormalizedNamed L) i c
          \<and> fst (ReadInstallation L s (Installation.Namespace i') (Installation.Name i') st')
              = Inr i'
          \<and> (InstallationKey (Installation.Namespace i) (Installation.Name i)
                = Claim.Installation c \<longrightarrow>
              fst (ReadInstallation L s '''' (Claim.Installation c) st') = Inr i')
          \<and> InstallationStatus.ClaimID (Installation.Status i') = Claim.ID c
          \<and> InstallationStatus.Action (Installation.Status i') = Claim.Action c
          \<and> InstallationStatus.Revision (Installation.Status i') = Claim.Revision c
          \<and> InstallationStatus.ResultID (Installation.Status i') = ''''
          \<and> InstallationStatus.ResultStatus (Installation.Status i') = ''''"
    using r0 r1 r2 by (intro exI [of _ i] exI [of _ "ApplyClaim ?p i c"]) (simp add: ApplyClaim_Status)
next
  assume a: "SaveResult L s r st = (None, st'') \<and> Result.claim r = Some rc
        \<and> fst (IsModifyingAction rc)"
  from SaveResult_mem_items [OF mem conjunct1 [OF a]] conjunct2 [OF a]
  obtain data g b i idata where
    l: "lookupItem st ItemTypeInstallations (Claim.Installation rc) = Some (g, b)"
    and u: "unmarshalInstallation L b = Inr i"
    and m: "marshalInstallation L (ApplyResult i r) = Inr idata"
    and it: "items st'' =
                  AList.update (ItemTypeInstallations,
                      InstallationKey (Installation.Namespace i) (Installation.Name i))
                    (Installation.Namespace i, idata)
                    (AList.update (ItemTypeResults, Result.ID r) (Result.ClaimID r, data)
                       (items st))"
    by auto
  have ex: "exportedInstallation (ApplyResult i r) = ApplyResult i r"
    using unmarshalInstallation_claims [OF u] by (simp add: exportedInstallation_id)
  have bk: "unmarshalInstallation L idata = Inr (ApplyResult i r)"
    using json_installation_round_trip [OF rt m] ex by simp
  have lk: "lookupItem st'' ItemTypeInstallations
              (InstallationKey (Installation.Namespace i) (Installation.Name i))
            = Some (Installation.Namespace i, idata)"
    by (simp add: items_lookupItem [OF it] update_conv')
  have r0: "fst (ReadInstallation L s '''' (Claim.Installation rc) st) = Inr i"
    by (simp add: ReadInstallation_mem [OF mem] l u)
  have r1: "fst (ReadInstallation L s (Installation.Namespace (ApplyResult i r))
                   (Installation.Name (ApplyResult i r)) st'') = Inr (ApplyResult i r)"
    by (simp add: ReadInstallation_mem [OF mem] lk bk)
  have r2: "InstallationKey (Installation.Namespace i) (Installation.Name i)
                = Claim.Installation rc \<longrightarrow>
              fst (ReadInstallation L s '''' (Claim.Installation rc) st'') = Inr (ApplyResult i r)"
    using lk by (auto simp: ReadInstallation_mem [OF mem] bk)
  show "\<exists>i i'. fst (ReadInstallation L s '''' (Claim.Installation rc) st) = Inr i
          \<and> i' = ApplyResult i r
          \<and> fst (ReadInstallation L s (Installation.Namespace i') (Installation.Name i') st'')
              = Inr i'
          \<and> (InstallationKey (Installation.Namespace i) (Installation.Name i)
                = Claim.Installation rc \<longrightarrow>
              fst (ReadInstallation L s '''' (Claim.Installation rc) st'') = Inr i')
          \<and> InstallationStatus.ResultID (Installation.Status i') = Result.ID r
          \<and> InstallationStatus.ResultStatus (Installation.Status i') = Result.Status r"
    using r0 r1 r2 by (intro exI [of _ i] exI [of _ "ApplyResult i r"]) (simp add: ApplyResult_Status)
qed

lemma table_round_trip:
  assumes "distinct (map fst tbl)" and "tableEncode tbl x = Inr b"
  shows "tableDecode tbl b = Inr x"
proof -
  from assms(2) obtain d where f: "find (\<lambda>(b, d). d = x) tbl = Some (b, d)"
    by (auto simp: tableEncode_def split: option.splits)
  then have "(b, d) \<in> set tbl" "d = x"
    by (auto simp: find_Some_iff in_set_conv_nth)
  then have "map_of tbl b = Some x"
    using assms(1) by simp
  then show ?thesis by (simp add: tableDecode_def)
qed

lemma wEnv_round_trip:
  "\<forall>i b. encodeInstallation wEnv i = Inr b \<longrightarrow> decodeInstallation wEnv b = Inr i"
  "\<forall>c b. encodeClaim wEnv c = Inr b \<longrightarrow> decodeClaim wEnv b = Inr c"
  "\<forall>r b. encodeResult wEnv r = Inr b \<longrightarrow> decodeResult wEnv b = Inr r"
  by (auto simp: wEnv_def intro!: table_round_trip simp: wInstallations_def wClaims_def wResults_def)

lemma wModifying: "fst (IsModifyingAction wClaim1)"
  by (simp add: IsModifyingAction_def wClaim1_def ActionInstall_def)

lemma wMarshal:
  "marshalClaim wEnv wClaim1 = Inr ''{claim c1}''"
  "marshalResult wEnv wResult1 = Inr ''{result r1}''"
  "marshalInstallation wEnv wInstallation = Inr ''{installation}''"
  "marshalInstallation wEnv (ApplyClaim wParse wInstallation wClaim1) = Inr ''{installation c1}''"
  "marshalInstallation wEnv (ApplyResult (ApplyClaim wParse wInstallation wClaim1) wResult1)
     = Inr ''{installation c1 r1}''"
  by (simp_all add: marshalClaim_def marshalResult_def marshalInstallation_def wEnv_def
      tableEncode_def wClaims_def wResults_def wInstallations_def exportedClaim_def
      exportedInstallation_def wClaim1_def wClaim2_def wInstallation_def zeroInstallation_def
      ApplyClaim_def ApplyResult_def Let_def wParse_def wResult1_def wResult2_def
      exportedResult_def Result_set_claim_def)

lemma wUnmarshal:
  "unmarshalInstallation wEnv ''{installation}'' = Inr wInstallation"
  "unmarshalInstallation wEnv ''{installation c1}'' = Inr (ApplyClaim wParse wInstallation wClaim1)"
  "unmarshalInstallation wEnv ''{installation c1 r1}''
     = Inr (ApplyResult (ApplyClaim wParse wInstallation wClaim1) wResult1)"
  by (simp_all add: unmarshalInstallation_def wEnv_def tableDecode_def wInstallations_def
      exportedInstallation_def wInstallation_def zeroInstallation_def)

lemma wSel [simp]:
  "Claim.ID wClaim1 = ''c1''" "Claim.Installation wClaim1 = ''wordpress''"
  "Result.ID wResult1 = ''r1''" "Result.ClaimID wResult1 = ''c1''"
  "Result.claim wResult1 = Some wClaim1" "Result.Status wResult1 = ''succeeded''"
  "Claim.Action wClaim1 = ''install''" "Claim.Revision wClaim1 = ''rev1''"
  "ParseNormalizedNamed wEnv = wParse"
  "Installation.Name wInstallation = ''wordpress''"
  "Installation.Namespace wInstallation = ''''"
  by (simp_all add: wClaim1_def wResult1_def wEnv_def wInstallation_def zeroInstallation_def)

lemma wSaveClaim: "SaveClaim wEnv (wStore sl sd) wClaim1 wSaved = (None, wAfterClaim)"
  unfolding SaveClaim_def wStore_backing withConnect_mem SaveDocument_mem
    ReadInstallation_mem [OF wStore_backing] SaveInstallation_mem [OF wStore_backing]
  by (simp add: ClaimDocument_def wModifying wMarshal wUnmarshal wSaved_def wAfterClaim_def
      lookupItem_def kind_defs touch_def memClose_def)

lemma wSaveResult: "SaveResult wEnv (wStore sl sd) wResult1 wAfterClaim = (None, wAfterResult)"
  unfolding SaveResult_def wStore_backing withConnect_mem SaveDocument_mem
    ReadInstallation_mem [OF wStore_backing] SaveInstallation_mem [OF wStore_backing]
  by (simp add: ResultDocument_def wModifying wMarshal wUnmarshal wAfterResult_def wAfterClaim_def
      lookupItem_def kind_defs touch_def memClose_def)

lemma wReadInstallation:
  "fst (ReadInstallation wEnv (wStore sl sd) '''' ''wordpress'' wSaved) = Inr wInstallation"
  "fst (ReadInstallation wEnv (wStore sl sd) '''' ''wordpress'' wAfterClaim)
     = Inr (ApplyClaim wParse wInstallation wClaim1)"
  unfolding ReadInstallation_mem [OF wStore_backing]
  by (simp_all add: lookupItem_def wSaved_def wAfterClaim_def kind_defs wUnmarshal)

theorem C1_status_derivation_witness:
  "backingStore (wStore False False)
     = memStore wEnv \<lparr>strictList = False, strictDelete = False\<rparr>
   \<and> SaveClaim wEnv (wStore False False) wClaim1 wSaved = (None, wAfterClaim)
   \<and> fst (IsModifyingAction wClaim1)
   \<and> fst (ReadInstallation wEnv (wStore False False) '''' ''wordpress'' wAfterClaim)
       = Inr (ApplyClaim wParse wInstallation wClaim1)
   \<and> Installation.Status (ApplyClaim wParse wInstallation wClaim1)
       = \<lparr>InstallationStatus.ClaimID = ''c1'', InstallationStatus.Action = ''install'',
          InstallationStatus.Revision = ''rev1'', InstallationStatus.ResultID = '''',
          InstallationStatus.ResultStatus = ''''\<rparr>
   \<and> SaveResult wEnv (wStore False False) wResult1 wAfterClaim = (None, wAfterResult)
   \<and> Result.claim wResult1 = Some wClaim1
   \<and> fst (ReadInstallation wEnv (wStore False False) '''' ''wordpress'' wAfterResult)
       = Inr (ApplyResult (ApplyClaim wParse wInstallation wClaim1) wResult1)
   \<and> InstallationStatus.ResultID (Installation.Status
         (ApplyResult (ApplyClaim wParse wInstallation wClaim1) wResult1)) = ''r1''
   \<and> InstallationStatus.ResultStatus (Installation.Status
         (ApplyResult (ApplyClaim wParse wInstallation wClaim1) wResult1)) = ''succeeded''"
proof -
  note mem = wStore_backing [of False False]
  note t1 = C1_status_derivation [OF mem wEnv_round_trip(1),
      where c = wClaim1 and st = wSaved and st' = wAfterClaim
        and r = wResult2 and rc = wClaim2 and st'' = wEmpty]
  note t2 = C1_status_derivation [OF mem wEnv_round_trip(1),
      where r = wResult1 and rc = wClaim1 and st = wAfterClaim and st'' = wAfterResult
        and c = wClaim2 and st' = wEmpty]
  from t1 wSaveClaim [of False False] wModifying
  obtain i i' where a:
    "fst (ReadInstallation wEnv (wStore False False) '''' (Claim.Installation wClaim1) wSaved)
       = Inr i"
    "i' = ApplyClaim (ParseNormalizedNamed wEnv) i wClaim1"
    "InstallationKey (Installation.Namespace i) (Installation.Name i)
       = Claim.Installation wClaim1 \<longrightarrow>
     fst (ReadInstallation wEnv (wStore False False) '''' (Claim.Installation wClaim1)
            wAfterClaim) = Inr i'"
    "InstallationStatus.ClaimID (Installation.Status i') = Claim.ID wClaim1"
    "InstallationStatus.Action (Installation.Status i') = Claim.Action wClaim1"
    "InstallationStatus.Revision (Installation.Status i') = Claim.Revision wClaim1"
    "InstallationStatus.ResultID (Installation.Status i') = ''''"
    "InstallationStatus.ResultStatus (Installation.Status i') = ''''"
    by blast
  have i: "i = wInstallation" using a(1) by (simp add: wReadInstallation)
  have c1: "fst (ReadInstallation wEnv (wStore False False) '''' ''wordpress'' wAfterClaim)
       = Inr (ApplyClaim wParse wInstallation wClaim1)"
    using a(3) unfolding a(2) i by simp
  have c2: "Installation.Status (ApplyClaim wParse wInstallation wClaim1)
       = \<lparr>InstallationStatus.ClaimID = ''c1'', InstallationStatus.Action = ''install'',
          InstallationStatus.Revision = ''rev1'', InstallationStatus.ResultID = '''',
          InstallationStatus.ResultStatus = ''''\<rparr>"
    using a(4-8) unfolding a(2) i by simp
  from t2 wSaveResult [of False False] wModifying
  obtain j j' where b:
    "fst (ReadInstallation wEnv (wStore False False) '''' (Claim.Installation wClaim1)
            wAfterClaim) = Inr j"
    "j' = ApplyResult j wResult1"
    "InstallationKey (Installation.Namespace j) (Installation.Name j)
       = Claim.Installation wClaim1 \<longrightarrow>
     fst (ReadInstallation wEnv (wStore False False) '''' (Claim.Installation wClaim1)
            wAfterResult) = Inr j'"
    "InstallationStatus.ResultID (Installation.Status j') = Result.ID wResult1"
    "InstallationStatus.ResultStatus (Installation.Status j') = Result.Status wResult1"
    by (simp only: wSel) blast
  have j: "j = ApplyClaim wParse wInstallation wClaim1"
    using b(1) by (simp add: wReadInstallation)
  have d1: "fst (ReadInstallation wEnv (wStore False False) '''' ''wordpress'' wAfterResult)
       = Inr (ApplyResult (ApplyClaim wParse wInstallation wClaim1) wResult1)"
    using b(3) unfolding b(2) j by simp
  have d2: "InstallationStatus.ResultID (Installation.Status
         (ApplyResult (ApplyClaim wParse wInstallation wClaim1) wResult1)) = ''r1''"
    "InstallationStatus.ResultStatus (Installation.Status
         (ApplyResult (ApplyClaim wParse wInstallation wClaim1) wResult1)) = ''succeeded''"
    using b(4,5) unfolding b(2) j by simp_all
  show ?thesis
    using mem wSaveClaim [of False False] wSaveResult [of False False]
      wModifying c1 c2 d1 d2
    by simp
qed


section \<open>Reading back what was saved\<close>

lemma exportedClaim_idem [simp]: "exportedClaim (exportedClaim c) = exportedClaim c"
  by (simp add: exportedClaim_def)

lemma exportedResult_idem [simp]: "exportedResult (exportedResult r) = exportedResult r"
  by (simp add: exportedResult_def Result_set_claim_def)

lemma exportedInstallation_idem [simp]:
  "exportedInstallation (exportedInstallation i) = exportedInstallation i"
  by (simp add: exportedInstallation_def)

lemma exportedClaim_id: "Claim.results c = None \<Longrightarrow> exportedClaim c = c"
  by (cases c) (simp add: exportedClaim_def)

lemma exportedResult_id: "Result.claim r = None \<Longrightarrow> exportedResult r = r"
  by (cases r) (simp add: exportedResult_def Result_set_claim_def)

lemma exportedResult_claim [simp]: "Result.claim (exportedResult r) = None"
  by (simp add: exportedResult_def Result_set_claim_def)

lemma json_claim_round_trip:
  assumes rt: "\<forall>c b. encodeClaim L c = Inr b \<longrightarrow> decodeClaim L b = Inr c"
    and m: "marshalClaim L c = Inr b"
  shows "unmarshalClaim L b = Inr (exportedClaim c)"
proof -
  have "decodeClaim L b = Inr (exportedClaim c)"
    using rt m by (simp add: marshalClaim_def)
  then show ?thesis by (simp add: unmarshalClaim_def)
qed

lemma json_result_round_trip:
  assumes rt: "\<forall>r b. encodeResult L r = Inr b \<longrightarrow> decodeResult L b = Inr r"
    and m: "marshalResult L r = Inr b"
  shows "unmarshalResult L b = Inr (exportedResult r)"
proof -
  have "decodeResult L b = Inr (exportedResult r)"
    using rt m by (simp add: marshalResult_def)
  then show ?thesis by (simp add: unmarshalResult_def)
qed

lemma unmarshalResult_no_claim:
  "unmarshalResult L b = Inr r \<Longrightarrow> Result.claim r = None"
  by (cases "decodeResult L b") (auto simp: unmarshalResult_def)

lemma ReadResult_no_claim:
  "fst (ReadResult L s resultID st) = Inr r \<Longrightarrow> Result.claim r = None"
  by (auto simp: ReadResult_def ret_def handleNotExistsError_def
      dest: unmarshalResult_no_claim
      split: prod.splits sum.splits option.splits if_splits)

lemma SaveClaim_read_back:
  assumes mem: "backingStore s = memStore L cfg"
    and rt: "\<forall>c b. encodeClaim L c = Inr b \<longrightarrow> decodeClaim L b = Inr c"
    and de: "\<forall>b b'. encrypt s b = Inr b' \<longrightarrow> decrypt s b' = Inr b"
    and ok: "SaveClaim L s c st = (None, st')"
  shows "fst (ReadClaim L s (Claim.ID c) st') = Inr (exportedClaim c)"
proof -
  from SaveClaim_mem_items [OF mem ok] obtain data data' where
    m: "marshalClaim L c = Inr data" and e: "encrypt s data = Inr data'"
    and it: "if fst (IsModifyingAction c)
         then \<exists>g b i idata.
                lookupItem st ItemTypeInstallations (Claim.Installation c) = Some (g, b)
              \<and> unmarshalInstallation L b = Inr i
              \<and> marshalInstallation L (ApplyClaim (ParseNormalizedNamed L) i c) = Inr idata
              \<and> items st' =
                  AList.update (ItemTypeInstallations,
                      InstallationKey (Installation.Namespace i) (Installation.Name i))
                    (Installation.Namespace i, idata)
                    (AList.update (ItemTypeClaims, Claim.ID c) (Claim.Installation c, data')
                       (items st))
         else items st' =
                AList.update (ItemTypeClaims, Claim.ID c) (Claim.Installation c, data')
                  (items st)"
    by blast
  have lk: "lookupItem st' ItemTypeClaims (Claim.ID c) = Some (Claim.Installation c, data')"
    using it by (auto simp: lookupItem_def update_conv' split: if_splits)
  have d: "decrypt s data' = Inr data" using de e by blast
  show ?thesis
    by (simp add: ReadClaim_mem [OF mem] lk d json_claim_round_trip [OF rt m])
qed

lemma SaveResult_read_back:
  assumes mem: "backingStore s = memStore L cfg"
    and rt: "\<forall>r b. encodeResult L r = Inr b \<longrightarrow> decodeResult L b = Inr r"
    and ok: "SaveResult L s r st = (None, st')"
  shows "fst (ReadResult L s (Result.ID r) st') = Inr (exportedResult r)"
proof -
  from SaveResult_mem_items [OF mem ok] obtain data where
    m: "marshalResult L r = Inr data"
    and it: "case Result.claim r of
          None \<Rightarrow>
            items st' = AList.update (ItemTypeResults, Result.ID r) (Result.ClaimID r, data)
                          (items st)
        | Some c \<Rightarrow>
            if fst (IsModifyingAction c)
            then \<exists>g b i idata.
                   lookupItem st ItemTypeInstallations (Claim.Installation c) = Some (g, b)
                 \<and> unmarshalInstallation L b = Inr i
                 \<and> marshalInstallation L (ApplyResult i r) = Inr idata
                 \<and> items st' =
                     AList.update (ItemTypeInstallations,
                         InstallationKey (Installation.Namespace i) (Installation.Name i))
                       (Installation.Namespace i, idata)
                       (AList.update (ItemTypeResults, Result.ID r) (Result.ClaimID r, data)
                          (items st))
            else items st' =
                   AList.update (ItemTypeResults, Result.ID r) (Result.ClaimID r, data)
                     (items st)"
    by blast
  have lk: "lookupItem st' ItemTypeResults (Result.ID r) = Some (Result.ClaimID r, data)"
    using it by (auto simp: lookupItem_def update_conv' split: if_splits option.splits)
  show ?thesis
    by (simp add: ReadResult_mem [OF mem] lk json_result_round_trip [OF rt m])
qed

lemma SaveInstallation_read_back:
  assumes mem: "backingStore s = memStore L cfg"
    and rt: "\<forall>i b. encodeInstallation L i = Inr b \<longrightarrow> decodeInstallation L b = Inr i"
    and ok: "SaveInstallation L s i st = (None, st')"
  shows "fst (ReadInstallation L s (Installation.Namespace i) (Installation.Name i) st')
           = Inr (exportedInstallation i)"
proof -
  from ok obtain data where m: "marshalInstallation L i = Inr data"
    and st': "st' = touch (st\<lparr>items :=
             AList.update (ItemTypeInstallations,
                           InstallationKey (Installation.Namespace i) (Installation.Name i))
                          (Installation.Namespace i, data) (items st)\<rparr>)"
    by (auto simp: SaveInstallation_mem [OF mem] split: sum.splits)
  show ?thesis
    unfolding st'
    by (simp add: ReadInstallation_mem [OF mem] lookupItem_update
        json_installation_round_trip [OF rt m])
qed

lemma SaveOutput_read_back:
  assumes mem: "backingStore s = memStore L cfg"
    and de: "\<forall>b b'. encrypt s b = Inr b' \<longrightarrow> decrypt s b' = Inr b"
    and ok: "SaveOutput L s out st = (None, st')"
  shows "fst (ReadOutput L s (Output.claim out) (Output.result out) (Output.Name out) st')
           = Inr (NewOutput (Output.claim out) (Output.result out) (Output.Name out)
                     (Output.Value out))"
  using ok de unfolding SaveOutput_mem [OF mem] ReadOutput_mem [OF mem]
  by (auto simp: lookupItem_update split: if_splits sum.splits)





section \<open>Connections\<close>

lemma inScope_refl: "opened st \<Longrightarrow> inScope st st"
  by (simp add: inScope_def)

lemma inScope_trans: "inScope a b \<Longrightarrow> inScope b c \<Longrightarrow> inScope a c"
  by (simp add: inScope_def)

lemma inScope_opened: "inScope a b \<Longrightarrow> opened b"
  by (simp add: inScope_def)

lemma inScope_touch_items: "opened st \<Longrightarrow> inScope st (touch (st\<lparr>items := xs\<rparr>))"
  by (simp add: inScope_def touch_def)

lemma oneConnection_touch_items:
  "\<not> opened st \<Longrightarrow> oneConnection st (touch (st\<lparr>items := xs\<rparr>))"
  by (simp add: oneConnection_def touch_def)

lemma oneConnection_touch: "\<not> opened st \<Longrightarrow> oneConnection st (touch st)"
  by (simp add: oneConnection_def touch_def)

text \<open>The five calls of the backing store.\<close>

lemma mem_scope:
  assumes "opened st"
  shows "List (memStore L cfg) kind grp st = (rl, st1) \<Longrightarrow> inScope st st1"
    and "Read (memStore L cfg) kind key st = (rr, st2) \<Longrightarrow> inScope st st2"
    and "ReadAll (memStore L cfg) kind grp st = (ra, st3) \<Longrightarrow> inScope st st3"
    and "Save (memStore L cfg) kind grp key data st = (rs, st4) \<Longrightarrow> inScope st st4"
    and "Delete (memStore L cfg) kind key st = (rd, st5) \<Longrightarrow> inScope st st5"
  using assms
  by (auto simp: mem_eqs inScope_def touch_def split: option.splits if_splits)

lemma mem_one:
  assumes "\<not> opened st"
  shows "List (memStore L cfg) kind grp st = (rl, st1) \<Longrightarrow> oneConnection st st1"
    and "Read (memStore L cfg) kind key st = (rr, st2) \<Longrightarrow> oneConnection st st2"
    and "ReadAll (memStore L cfg) kind grp st = (ra, st3) \<Longrightarrow> oneConnection st st3"
    and "Save (memStore L cfg) kind grp key data st = (rs, st4) \<Longrightarrow> oneConnection st st4"
    and "Delete (memStore L cfg) kind key st = (rd, st5) \<Longrightarrow> oneConnection st st5"
  using assms
  by (auto simp: mem_eqs oneConnection_def touch_def split: option.splits if_splits)

text \<open>
  An operation that makes one call of the backing store and returns: its state is the
  state of that call.
\<close>

lemma withConnect_scope:
  assumes "\<And>st r st'. opened st \<Longrightarrow> body st = (r, st') \<Longrightarrow> inScope st st'"
    and "opened st" and "withConnect (memStore L cfg) fail body st = (r, st')"
  shows "inScope st st'"
  using assms by (simp add: withConnect_mem)

lemma withConnect_one:
  assumes b: "\<And>st r st'. opened st \<Longrightarrow> body st = (r, st') \<Longrightarrow> inScope st st'"
    and c: "\<not> opened st" and w: "withConnect (memStore L cfg) fail body st = (r, st')"
  shows "oneConnection st st'"
proof -
  let ?st1 = "st\<lparr>opened := True, connects := connects st + 1\<rparr>"
  obtain r2 st2 where e: "body ?st1 = (r2, st2)" by (cases "body ?st1")
  have "inScope ?st1 st2" using b [OF _ e] by simp
  moreover have "st' = snd (memClose st2)"
    using w c e by (simp add: withConnect_mem)
  ultimately show ?thesis
    by (simp add: inScope_def oneConnection_def memClose_def)
qed

lemma forEach_scope:
  assumes "\<And>x st r st'. opened st \<Longrightarrow> f x st = (r, st') \<Longrightarrow> inScope st st'"
  shows "opened st \<Longrightarrow> forEach f xs st = (r, st') \<Longrightarrow> inScope st st'"
proof (induction xs arbitrary: st)
  case Nil
  then show ?case by (simp add: inScope_refl)
next
  case (Cons x xs)
  obtain r1 st1 where e: "f x st = (r1, st1)" by (cases "f x st")
  have s1: "inScope st st1" using assms [OF Cons.prems(1) e] .
  show ?case
  proof (cases r1)
    case None
    then have "forEach f xs st1 = (r, st')" using Cons.prems(2) e by simp
    then have "inScope st1 st'" using Cons.IH [OF inScope_opened [OF s1]] by simp
    then show ?thesis using s1 inScope_trans by blast
  next
    case (Some err)
    then show ?thesis using Cons.prems(2) e s1 by simp
  qed
qed

text \<open>The operations that make a single call of the backing store.\<close>

lemma single_call_state:
  assumes mem: "backingStore s = memStore L cfg"
  shows "snd (ListInstallations L s ns st) = touch st"
    and "snd (ListClaims L s inst st) = touch st"
    and "snd (ListResults L s cid st) = touch st"
    and "snd (ListOutputs L s rid st) = touch st"
    and "snd (ReadInstallation L s ns name st) = touch st"
    and "snd (ReadAllInstallations L s st) = touch st"
    and "snd (ReadClaim L s cid st) = touch st"
    and "snd (ReadAllClaims L s inst st) = touch st"
    and "snd (ReadResult L s rid st) = touch st"
    and "snd (ReadAllResults L s cid st) = touch st"
    and "snd (ReadOutput L s c r name st) = touch st"
    and "\<exists>xs. snd (DeleteOutput L s rid name st) = touch (st\<lparr>items := xs\<rparr>)"
proof -
  show "snd (ListInstallations L s ns st) = touch st"
    by (simp add: ListInstallations_def mem memList_eq)
  show "snd (ListClaims L s inst st) = touch st"
    by (simp add: ListClaims_mem [OF mem])
  show "snd (ListResults L s cid st) = touch st"
    by (simp add: ListResults_mem [OF mem])
  show "snd (ListOutputs L s rid st) = touch st"
    by (simp add: ListOutputs_mem [OF mem])
  show "snd (ReadInstallation L s ns name st) = touch st"
    by (simp add: ReadInstallation_mem [OF mem])
  show "snd (ReadAllInstallations L s st) = touch st"
    by (simp add: ReadAllInstallations_def mem memReadAll_eq split: sum.splits)
  show "snd (ReadClaim L s cid st) = touch st"
    by (simp add: ReadClaim_mem [OF mem])
  show "snd (ReadAllClaims L s inst st) = touch st"
    by (simp add: ReadAllClaims_def mem memReadAll_eq split: sum.splits)
  show "snd (ReadResult L s rid st) = touch st"
    by (simp add: ReadResult_mem [OF mem])
  show "snd (ReadAllResults L s cid st) = touch st"
    by (simp add: ReadAllResults_def mem memReadAll_eq split: sum.splits)
  show "snd (ReadOutput L s c r name st) = touch st"
    by (simp add: ReadOutput_mem [OF mem])
  show "\<exists>xs. snd (DeleteOutput L s rid name st) = touch (st\<lparr>items := xs\<rparr>)"
  proof (cases "lookupItem st ItemTypeOutputs (outputKey rid name)")
    case None
    then have "snd (DeleteOutput L s rid name st) = touch (st\<lparr>items := items st\<rparr>)"
      by (simp add: DeleteOutput_def mem memDelete_eq)
    then show ?thesis by blast
  next
    case (Some gd)
    then show ?thesis by (simp add: DeleteOutput_def mem memDelete_eq) blast
  qed
qed

text \<open>
  Operations composed of calls that stay inside an open connection stay inside it.
\<close>

lemma keepsI:
  "(\<And>st r st'. opened st \<Longrightarrow> f st = (r, st') \<Longrightarrow> inScope st st') \<Longrightarrow> keeps f"
  by (simp add: keeps_def)

lemma keepsD: "keeps f \<Longrightarrow> opened st \<Longrightarrow> f st = (r, st') \<Longrightarrow> inScope st st'"
  by (simp add: keeps_def)

lemma keeps_return: "keeps (\<lambda>st. (v, st))"
  by (simp add: keeps_def inScope_def)

lemma keeps_bind:
  assumes f: "keeps f" and k: "\<And>r. keeps (k r)"
  shows "keeps (\<lambda>st. case f st of (r, st1) \<Rightarrow> k r st1)"
proof (rule keepsI)
  fix st r st'
  assume o: "opened st" and e: "(case f st of (r, st1) \<Rightarrow> k r st1) = (r, st')"
  obtain r1 st1 where f1: "f st = (r1, st1)" by (cases "f st")
  have s1: "inScope st st1" using keepsD [OF f o f1] .
  have "k r1 st1 = (r, st')" using e f1 by simp
  then have "inScope st1 st'" using keepsD [OF k inScope_opened [OF s1]] by blast
  then show "inScope st st'" using s1 inScope_trans by blast
qed

lemma keeps_case_sum:
  assumes "\<And>e. keeps (a e)" and "\<And>x. keeps (b x)"
  shows "keeps (\<lambda>st. case r of Inl e \<Rightarrow> a e st | Inr x \<Rightarrow> b x st)"
  using assms by (cases r) simp_all

lemma keeps_case_option:
  assumes "keeps a" and "\<And>x. keeps (b x)"
  shows "keeps (\<lambda>st. case r of None \<Rightarrow> a st | Some x \<Rightarrow> b x st)"
  using assms by (cases r) simp_all

lemma keeps_case_prod:
  assumes "\<And>x y. keeps (a x y)"
  shows "keeps (\<lambda>st. case p of (x, y) \<Rightarrow> a x y st)"
  using assms by (cases p) simp

lemma keeps_if:
  assumes "keeps a" and "keeps b"
  shows "keeps (\<lambda>st. if c then a st else b st)"
  using assms by (cases c) simp_all

lemma keeps_mem:
  "keeps (List (memStore L cfg) kind grp)"
  "keeps (Read (memStore L cfg) kind key)"
  "keeps (ReadAll (memStore L cfg) kind grp)"
  "keeps (Save (memStore L cfg) kind grp key data)"
  "keeps (Delete (memStore L cfg) kind key)"
  using mem_scope by (simp_all add: keeps_def)

lemma keeps_withConnect:
  assumes "keeps body"
  shows "keeps (withConnect (memStore L cfg) fail body)"
  using assms by (simp add: keeps_def withConnect_mem)

lemma keeps_forEach:
  assumes "\<And>x. keeps (f x)"
  shows "keeps (forEach f xs)"
  using forEach_scope [of f] assms by (simp add: keeps_def)

lemmas keeps_intros = keeps_return keeps_bind keeps_case_sum keeps_case_option keeps_case_prod
  keeps_if keeps_mem keeps_withConnect keeps_forEach

lemma keeps_single:
  assumes mem: "backingStore s = memStore L cfg"
  shows "keeps (ListInstallations L s ns)"
    and "keeps (ListClaims L s inst)"
    and "keeps (ListResults L s cid)"
    and "keeps (ListOutputs L s rid)"
    and "keeps (ReadInstallation L s ns name)"
    and "keeps (ReadAllInstallations L s)"
    and "keeps (ReadClaim L s cid)"
    and "keeps (ReadAllClaims L s inst)"
    and "keeps (ReadResult L s rid)"
    and "keeps (ReadAllResults L s cid)"
    and "keeps (ReadOutput L s c r name)"
    and "keeps (SaveInstallation L s i)"
    and "keeps (SaveOutput L s out)"
    and "keeps (DeleteOutput L s rid name)"
  unfolding ListInstallations_def [abs_def] ListClaims_def [abs_def] ListResults_def [abs_def]
    ListOutputs_def [abs_def] ReadInstallation_def [abs_def] ReadAllInstallations_def [abs_def]
    ReadClaim_def [abs_def] ReadAllClaims_def [abs_def] ReadResult_def [abs_def]
    ReadAllResults_def [abs_def] ReadOutput_def [abs_def] SaveInstallation_def [abs_def]
    SaveDocument_def [abs_def] SaveOutput_def [abs_def] DeleteOutput_def [abs_def] mem
  by (intro keeps_intros)+

lemma keeps_delete:
  assumes mem: "backingStore s = memStore L cfg"
  shows "keeps (DeleteResult L s rid)"
    and "keeps (DeleteClaim L s cid)"
    and "keeps (DeleteInstallation L s inst)"
proof -
  show r: "\<And>rid. keeps (DeleteResult L s rid)"
    unfolding DeleteResult_def [abs_def] mem
    by (intro keeps_intros keeps_single [OF mem, unfolded mem])
  show c: "\<And>cid. keeps (DeleteClaim L s cid)"
    unfolding DeleteClaim_def [abs_def] mem
    by (intro keeps_intros keeps_single [OF mem, unfolded mem] r [unfolded mem])
  show "keeps (DeleteInstallation L s inst)"
    unfolding DeleteInstallation_def [abs_def] mem
    by (intro keeps_intros keeps_single [OF mem, unfolded mem] c [unfolded mem])
qed

lemma keeps_save:
  assumes mem: "backingStore s = memStore L cfg"
  shows "keeps (SaveClaim L s c)"
    and "keeps (SaveResult L s r)"
  unfolding SaveClaim_def [abs_def] SaveResult_def [abs_def] SaveDocument_def [abs_def] mem
  by (intro keeps_intros keeps_single [OF mem, unfolded mem])+

lemma keeps_last:
  assumes mem: "backingStore s = memStore L cfg"
  shows "keeps (ReadLastClaim L s inst)"
    and "keeps (ReadLastResult L s cid)"
  unfolding ReadLastClaim_def [abs_def] ReadLastResult_def [abs_def] mem
  by (intro keeps_intros keeps_single [OF mem, unfolded mem])+

lemma keeps_collectResults:
  assumes mem: "backingStore s = memStore L cfg"
  shows "keeps (collectResults L s cs acc)"
proof (induction cs arbitrary: acc)
  case Nil
  have "collectResults L s [] acc = (\<lambda>st. (Inr acc, st))" by (rule ext) simp
  then show ?case by (simp add: keeps_return)
next
  case (Cons c cs)
  have e: "collectResults L s (c # cs) acc =
      (\<lambda>st. case ListResults L s (Claim.ID c) st of
          (Inl err, st1) \<Rightarrow> (Inl err, st1)
        | (Inr resultIds, st1) \<Rightarrow>
            collectResults L s cs
              (acc @ map (\<lambda>resultID. Result resultID (Claim.ID c) [] [] [] 0 Map.empty (Some c))
                         resultIds) st1)"
    by (rule ext) simp
  show ?case unfolding e by (intro keeps_intros keeps_single [OF mem] Cons.IH)
qed

lemma keeps_collectLastOutputs:
  assumes mem: "backingStore s = memStore L cfg"
  shows "keeps (collectLastOutputs L s flt rs acc)"
proof (induction rs arbitrary: acc)
  case Nil
  have "collectLastOutputs L s flt [] acc = (\<lambda>st. (Inr acc, st))" by (rule ext) simp
  then show ?case by (simp add: keeps_return)
next
  case (Cons r rs)
  have e: "collectLastOutputs L s flt (r # rs) acc =
      (\<lambda>st. case ListOutputs L s (Result.ID r) st of
          (Inl err, st1) \<Rightarrow> (Inl err, st1)
        | (Inr outputNames, st1) \<Rightarrow>
            collectLastOutputs L s flt rs (setOutputs flt r outputNames acc) st1)"
    by (rule ext) simp
  show ?case unfolding e by (intro keeps_intros keeps_single [OF mem] Cons.IH)
qed

lemma keeps_readOutputs:
  assumes mem: "backingStore s = memStore L cfg"
  shows "keeps (readOutputs L s los acc)"
proof (induction los arbitrary: acc)
  case Nil
  have "readOutputs L s [] acc = (\<lambda>st. (Inr acc, st))" by (rule ext) simp
  then show ?case by (simp add: keeps_return)
next
  case (Cons p los)
  obtain name r where p: "p = (name, r)" by (cases p)
  have e: "readOutputs L s ((name, r) # los) acc =
      (\<lambda>st. case Result.claim r of
          None \<Rightarrow> (Inl ''panic: invalid memory address or nil pointer dereference'', st)
        | Some c \<Rightarrow>
            (case ReadOutput L s c r name st of
               (Inl err, st1) \<Rightarrow> (Inl err, st1)
             | (Inr output, st1) \<Rightarrow> readOutputs L s los (acc @ [output]) st1))"
    by (rule ext) simp
  show ?case unfolding p e by (intro keeps_intros keeps_single [OF mem] Cons.IH)
qed

lemma keeps_readLastOutputs:
  assumes mem: "backingStore s = memStore L cfg"
  shows "keeps (readLastOutputs L s inst flt)"
  unfolding readLastOutputs_def [abs_def]
  by (intro keeps_intros keeps_single [OF mem] keeps_collectResults [OF mem]
      keeps_collectLastOutputs [OF mem] keeps_readOutputs [OF mem])

lemma keeps_outputs:
  assumes mem: "backingStore s = memStore L cfg"
  shows "keeps (ReadLastOutputs L s inst)"
    and "keeps (ReadLastOutput L s inst name)"
  unfolding ReadLastOutputs_def [abs_def] ReadLastOutput_def [abs_def] mem
  by (intro keeps_intros keeps_readLastOutputs [OF mem])+

lemma keeps_ReadInstallationStatus:
  assumes mem: "backingStore s = memStore L cfg"
  shows "keeps (ReadInstallationStatus L s inst)"
  unfolding ReadInstallationStatus_def [abs_def] mem
  by (intro keeps_intros keeps_single [OF mem, unfolded mem])

lemma keeps_readStatuses:
  assumes mem: "backingStore s = memStore L cfg"
  shows "keeps (readStatuses L s names acc)"
proof (induction names arbitrary: acc)
  case Nil
  have "readStatuses L s [] acc = (\<lambda>st. (Inr acc, st))" by (rule ext) simp
  then show ?case by (simp add: keeps_return)
next
  case (Cons name names)
  have e: "readStatuses L s (name # names) acc =
      (\<lambda>st. case ReadInstallationStatus L s name st of
          (Inl err, st1) \<Rightarrow> (Inl err, st1)
        | (Inr installation, st1) \<Rightarrow> readStatuses L s names (acc @ [installation]) st1)"
    by (rule ext) simp
  show ?case unfolding e by (intro keeps_intros keeps_ReadInstallationStatus [OF mem] Cons.IH)
qed

lemma keeps_ReadAllInstallationStatus:
  assumes mem: "backingStore s = memStore L cfg"
  shows "keeps (ReadAllInstallationStatus L s)"
  unfolding ReadAllInstallationStatus_def [abs_def] mem
  by (intro keeps_intros keeps_single [OF mem, unfolded mem] keeps_readStatuses [OF mem])

lemma one_of_keeps:
  assumes f: "f = withConnect (memStore L cfg) fail body" and k: "keeps f"
    and c: "\<not> opened st"
  shows "oneConnection st (snd (f st))"
proof -
  let ?st1 = "st\<lparr>opened := True, connects := connects st + 1\<rparr>"
  obtain r2 st2 where e: "f ?st1 = (r2, st2)" by (cases "f ?st1")
  have "inScope ?st1 st2" using keepsD [OF k _ e] by simp
  moreover have "body ?st1 = (r2, st2)" using e by (simp add: f withConnect_mem)
  then have "snd (f st) = snd (memClose st2)"
    using c by (simp add: f withConnect_mem)
  ultimately show ?thesis
    by (simp add: inScope_def oneConnection_def memClose_def)
qed

lemma SaveInstallation_one:
  assumes mem: "backingStore s = memStore L cfg" and c: "\<not> opened st"
    and m: "marshalInstallation L i = Inr data"
  shows "oneConnection st (snd (SaveInstallation L s i st))"
  using c m by (simp add: SaveInstallation_mem [OF mem] oneConnection_touch_items)

lemma SaveOutput_one:
  assumes mem: "backingStore s = memStore L cfg" and c: "\<not> opened st"
    and v: "Claim.ID (Output.claim out) \<noteq> ''''"
    and e: "sensitiveOrFalse (Claim.Bundle (Output.claim out)) (Output.Name out)
              \<longrightarrow> (\<exists>data. encrypt s (Output.Value out) = Inr data)"
  shows "oneConnection st (snd (SaveOutput L s out st))"
  using c v e by (auto simp: SaveOutput_mem [OF mem] oneConnection_touch_items)

lemma SaveOutput_none:
  "Claim.ID (Output.claim out) = '''' \<Longrightarrow>
     SaveOutput L s out st = (Some ''output.Claim is not set'', st)"
  by (simp add: SaveOutput_def)

lemma DeleteOutput_one:
  assumes mem: "backingStore s = memStore L cfg" and c: "\<not> opened st"
  shows "oneConnection st (snd (DeleteOutput L s rid name st))"
  using single_call_state(12) [OF mem, of rid name st] c
  by (auto simp: oneConnection_touch_items)

text \<open>
  C8, as the claim states it, fails for \<^verbatim>\<open>SaveOutput\<close>: for an output whose claim
  is not set it returns its error before any call of the backing store, which then
  observes no connect and no close.
\<close>

theorem C8_single_connection_counterexample:
  "\<not> opened wEmpty
   \<and> SaveOutput wEnv (wStore False False) (NewOutput zeroClaim wResult1 ''port'' ''8080'')
         wEmpty
       = (Some ''output.Claim is not set'', wEmpty)
   \<and> connects (snd (SaveOutput wEnv (wStore False False)
                       (NewOutput zeroClaim wResult1 ''port'' ''8080'') wEmpty)) = 0
   \<and> closes (snd (SaveOutput wEnv (wStore False False)
                     (NewOutput zeroClaim wResult1 ''port'' ''8080'') wEmpty)) = 0
   \<and> \<not> oneConnection wEmpty
         (snd (SaveOutput wEnv (wStore False False)
                (NewOutput zeroClaim wResult1 ''port'' ''8080'') wEmpty))"
proof -
  have "Claim.ID (Output.claim (NewOutput zeroClaim wResult1 ''port'' ''8080'')) = ''''"
    by (simp add: NewOutput_def zeroClaim_def)
  then have "SaveOutput wEnv (wStore False False)
         (NewOutput zeroClaim wResult1 ''port'' ''8080'') wEmpty
       = (Some ''output.Claim is not set'', wEmpty)"
    by (rule SaveOutput_none)
  then show ?thesis by (simp add: wEmpty_def oneConnection_def)
qed

text \<open>
  A store whose connect fails: the operation returns what it makes of the connect error
  and runs the release it was handed, without running its body.
\<close>

lemma withConnect_connect_error:
  "HandleConnect store st = ((handleClose, Some e), st1)
   \<Longrightarrow> withConnect store fail body st = (fail e, snd (handleClose st1))"
  by (simp add: withConnect_def)

lemma SaveOutput_encrypt_error:
  assumes "Claim.ID (Output.claim out) \<noteq> ''''"
    and "sensitiveOrFalse (Claim.Bundle (Output.claim out)) (Output.Name out)"
    and "encrypt s (Output.Value out) = Inl err"
  shows "SaveOutput L s out st =
     (Some (Wrap err (''error encrypting output '' @ Output.Name out
                      @ '' for result '' @ Result.ID (Output.result out)
                      @ '' of installation '' @ Claim.Installation (Output.claim out))), st)"
  using assms by (simp add: SaveOutput_def)

text \<open>
  C8, amended. On the backing store above, whose connect succeeds, for an operation
  started with no connection open: every public read or write operation that calls the
  backing store leaves it having observed exactly one connect and exactly one close, with
  the connection released, whether the operation returns a value or an error.
  \<^verbatim>\<open>SaveInstallation\<close> is taken for an installation that serializes, and
  \<^verbatim>\<open>SaveOutput\<close> calls the backing store when the output's claim is set and the
  encryption of a sensitive value succeeds. \<^verbatim>\<open>SaveOutput\<close> for an output whose claim
  is not set returns the error \<^verbatim>\<open>output.Claim is not set\<close>, and \<^verbatim>\<open>SaveOutput\<close>
  for a sensitive output whose encryption fails returns the wrapped encryption error;
  both return before any call of the backing store and leave its state, and so its
  connects and closes, as they were.
\<close>

theorem C8_single_connection:
  assumes mem: "backingStore s = memStore L cfg" and c: "\<not> opened st"
  shows
    "oneConnection st (snd (ListInstallations L s ns st))
   \<and> oneConnection st (snd (ListClaims L s inst st))
   \<and> oneConnection st (snd (ListResults L s cid st))
   \<and> oneConnection st (snd (ListOutputs L s rid st))
   \<and> oneConnection st (snd (ReadInstallation L s ns name st))
   \<and> oneConnection st (snd (ReadAllInstallations L s st))
   \<and> oneConnection st (snd (ReadInstallationStatus L s inst st))
   \<and> oneConnection st (snd (ReadAllInstallationStatus L s st))
   \<and> oneConnection st (snd (ReadClaim L s cid st))
   \<and> oneConnection st (snd (ReadAllClaims L s inst st))
   \<and> oneConnection st (snd (ReadLastClaim L s inst st))
   \<and> oneConnection st (snd (ReadResult L s rid st))
   \<and> oneConnection st (snd (ReadAllResults L s cid st))
   \<and> oneConnection st (snd (ReadLastOutputs L s inst st))
   \<and> oneConnection st (snd (ReadLastOutput L s inst name st))
   \<and> oneConnection st (snd (ReadLastResult L s cid st))
   \<and> oneConnection st (snd (ReadOutput L s rc r name st))
   \<and> ((\<exists>data. marshalInstallation L i = Inr data)
        \<longrightarrow> oneConnection st (snd (SaveInstallation L s i st)))
   \<and> oneConnection st (snd (SaveClaim L s sc st))
   \<and> oneConnection st (snd (SaveResult L s r st))
   \<and> (Claim.ID (Output.claim out) \<noteq> ''''
        \<and> (sensitiveOrFalse (Claim.Bundle (Output.claim out)) (Output.Name out)
             \<longrightarrow> (\<exists>data. encrypt s (Output.Value out) = Inr data))
        \<longrightarrow> oneConnection st (snd (SaveOutput L s out st)))
   \<and> (Claim.ID (Output.claim out) = ''''
        \<longrightarrow> SaveOutput L s out st = (Some ''output.Claim is not set'', st))
   \<and> (\<forall>err. Claim.ID (Output.claim out) \<noteq> ''''
          \<and> sensitiveOrFalse (Claim.Bundle (Output.claim out)) (Output.Name out)
          \<and> encrypt s (Output.Value out) = Inl err
        \<longrightarrow> SaveOutput L s out st =
              (Some (Wrap err (''error encrypting output '' @ Output.Name out
                               @ '' for result '' @ Result.ID (Output.result out)
                               @ '' of installation ''
                               @ Claim.Installation (Output.claim out))), st))
   \<and> oneConnection st (snd (DeleteInstallation L s inst st))
   \<and> oneConnection st (snd (DeleteClaim L s cid st))
   \<and> oneConnection st (snd (DeleteResult L s rid st))
   \<and> oneConnection st (snd (DeleteOutput L s rid name st))"
proof -
  note t = oneConnection_touch [OF c]
  note sc = single_call_state [OF mem, where st = st]
  have 1: "oneConnection st (snd (ListInstallations L s ns st))" using t by (simp add: sc)
  have 2: "oneConnection st (snd (ListClaims L s inst st))" using t by (simp add: sc)
  have 3: "oneConnection st (snd (ListResults L s cid st))" using t by (simp add: sc)
  have 4: "oneConnection st (snd (ListOutputs L s rid st))" using t by (simp add: sc)
  have 5: "oneConnection st (snd (ReadInstallation L s ns name st))" using t by (simp add: sc)
  have 6: "oneConnection st (snd (ReadAllInstallations L s st))" using t by (simp add: sc)
  have 7: "oneConnection st (snd (ReadInstallationStatus L s inst st))"
    by (rule one_of_keeps [OF _ keeps_ReadInstallationStatus [OF mem] c])
       (simp add: ReadInstallationStatus_def mem)
  have 8: "oneConnection st (snd (ReadAllInstallationStatus L s st))"
    by (rule one_of_keeps [OF _ keeps_ReadAllInstallationStatus [OF mem] c])
       (simp add: ReadAllInstallationStatus_def mem)
  have 9: "oneConnection st (snd (ReadClaim L s cid st))" using t by (simp add: sc)
  have 10: "oneConnection st (snd (ReadAllClaims L s inst st))" using t by (simp add: sc)
  have 11: "oneConnection st (snd (ReadLastClaim L s inst st))"
    by (rule one_of_keeps [OF _ keeps_last(1) [OF mem] c]) (simp add: ReadLastClaim_def mem)
  have 12: "oneConnection st (snd (ReadResult L s rid st))" using t by (simp add: sc)
  have 13: "oneConnection st (snd (ReadAllResults L s cid st))" using t by (simp add: sc)
  have 14: "oneConnection st (snd (ReadLastOutputs L s inst st))"
    by (rule one_of_keeps [OF _ keeps_outputs(1) [OF mem] c]) (simp add: ReadLastOutputs_def mem)
  have 15: "oneConnection st (snd (ReadLastOutput L s inst name st))"
    by (rule one_of_keeps [OF _ keeps_outputs(2) [OF mem] c]) (simp add: ReadLastOutput_def mem)
  have 16: "oneConnection st (snd (ReadLastResult L s cid st))"
    by (rule one_of_keeps [OF _ keeps_last(2) [OF mem] c]) (simp add: ReadLastResult_def mem)
  have 17: "oneConnection st (snd (ReadOutput L s rc r name st))" using t by (simp add: sc)
  have 18: "(\<exists>data. marshalInstallation L i = Inr data)
        \<longrightarrow> oneConnection st (snd (SaveInstallation L s i st))"
    using SaveInstallation_one [OF mem c] by blast
  have 19: "oneConnection st (snd (SaveClaim L s sc st))"
    by (rule one_of_keeps [OF _ keeps_save(1) [OF mem] c]) (simp add: SaveClaim_def mem)
  have 20: "oneConnection st (snd (SaveResult L s r st))"
    by (rule one_of_keeps [OF _ keeps_save(2) [OF mem] c]) (simp add: SaveResult_def mem)
  have 21: "Claim.ID (Output.claim out) \<noteq> ''''
        \<and> (sensitiveOrFalse (Claim.Bundle (Output.claim out)) (Output.Name out)
             \<longrightarrow> (\<exists>data. encrypt s (Output.Value out) = Inr data))
        \<longrightarrow> oneConnection st (snd (SaveOutput L s out st))"
    using SaveOutput_one [OF mem c] by blast
  have 22: "Claim.ID (Output.claim out) = ''''
        \<longrightarrow> SaveOutput L s out st = (Some ''output.Claim is not set'', st)"
    by (simp add: SaveOutput_none)
  have 27: "\<forall>err. Claim.ID (Output.claim out) \<noteq> ''''
          \<and> sensitiveOrFalse (Claim.Bundle (Output.claim out)) (Output.Name out)
          \<and> encrypt s (Output.Value out) = Inl err
        \<longrightarrow> SaveOutput L s out st =
              (Some (Wrap err (''error encrypting output '' @ Output.Name out
                               @ '' for result '' @ Result.ID (Output.result out)
                               @ '' of installation ''
                               @ Claim.Installation (Output.claim out))), st)"
    by (intro allI impI, elim conjE) (rule SaveOutput_encrypt_error)
  have 23: "oneConnection st (snd (DeleteInstallation L s inst st))"
    by (rule one_of_keeps [OF _ keeps_delete(3) [OF mem] c]) (simp add: DeleteInstallation_def mem)
  have 24: "oneConnection st (snd (DeleteClaim L s cid st))"
    by (rule one_of_keeps [OF _ keeps_delete(2) [OF mem] c]) (simp add: DeleteClaim_def mem)
  have 25: "oneConnection st (snd (DeleteResult L s rid st))"
    by (rule one_of_keeps [OF _ keeps_delete(1) [OF mem] c]) (simp add: DeleteResult_def mem)
  have 26: "oneConnection st (snd (DeleteOutput L s rid name st))"
    by (rule DeleteOutput_one [OF mem c])
  show ?thesis
    using 1 2 3 4 5 6 7 8 9 10 11 12 13 14 15 16 17 18 19 20 21 22 27 23 24 25 26
    by (intro conjI)
qed

lemma wLocked_backing:
  "backingStore wLocked = memStore wEnv \<lparr>strictList = False, strictDelete = False\<rparr>"
  by (simp add: wLocked_def NewClaimStore_def)

lemma wLocked_encrypt: "encrypt wLocked data = Inl ''no key''"
  by (simp add: wLocked_def NewClaimStore_def wNoKey_def)

theorem C8_single_connection_witness:
  "backingStore (wStore False False)
     = memStore wEnv \<lparr>strictList = False, strictDelete = False\<rparr>
   \<and> \<not> opened wState
   \<and> oneConnection wState (snd (ReadLastClaim wEnv (wStore False False) ''wordpress'' wState))
   \<and> oneConnection wState (snd (ReadLastClaim wEnv (wStore False False) ''missing'' wState))
   \<and> oneConnection wState (snd (ReadLastOutputs wEnv (wStore False False) ''wordpress'' wState))
   \<and> oneConnection wState (snd (DeleteInstallation wEnv (wStore False False) ''wordpress'' wState))
   \<and> marshalInstallation wEnv wInstallation = Inr ''{installation}''
   \<and> oneConnection wState (snd (SaveInstallation wEnv (wStore False False) wInstallation wState))
   \<and> Claim.ID (Output.claim (NewOutput wClaim1 wResult1 ''password'' ''secret'')) \<noteq> ''''
   \<and> encrypt (wStore False False)
         (Output.Value (NewOutput wClaim1 wResult1 ''password'' ''secret'')) = Inr ''terces''
   \<and> oneConnection wState
         (snd (SaveOutput wEnv (wStore False False)
                 (NewOutput wClaim1 wResult1 ''password'' ''secret'') wState))
   \<and> Claim.ID (Output.claim (NewOutput zeroClaim wResult1 ''port'' ''8080'')) = ''''
   \<and> SaveOutput wEnv (wStore False False)
         (NewOutput zeroClaim wResult1 ''port'' ''8080'') wState
       = (Some ''output.Claim is not set'', wState)
   \<and> backingStore wLocked = memStore wEnv \<lparr>strictList = False, strictDelete = False\<rparr>
   \<and> sensitiveOrFalse (Claim.Bundle (Output.claim (NewOutput wClaim1 wResult1 ''password'' ''secret'')))
         (Output.Name (NewOutput wClaim1 wResult1 ''password'' ''secret''))
   \<and> encrypt wLocked (Output.Value (NewOutput wClaim1 wResult1 ''password'' ''secret''))
       = Inl ''no key''
   \<and> SaveOutput wEnv wLocked (NewOutput wClaim1 wResult1 ''password'' ''secret'') wState
       = (Some ''error encrypting output password for result r1 of installation wordpress: no key'',
          wState)"
proof -
  have c: "\<not> opened wState" by (simp add: wState_def)
  note mem = wStore_backing [of False False]
  note t1 = C8_single_connection [OF mem c, where inst = "''wordpress''"
      and i = wInstallation and out = "NewOutput wClaim1 wResult1 ''password'' ''secret''"]
  note t2 = C8_single_connection [OF mem c, where inst = "''missing''"
      and out = "NewOutput zeroClaim wResult1 ''port'' ''8080''"]
  note t3 = C8_single_connection [OF wLocked_backing c,
      where out = "NewOutput wClaim1 wResult1 ''password'' ''secret''"]
  have v: "Claim.ID (Output.claim (NewOutput wClaim1 wResult1 ''password'' ''secret'')) \<noteq> ''''"
    "Claim.ID (Output.claim (NewOutput zeroClaim wResult1 ''port'' ''8080'')) = ''''"
    "encrypt (wStore False False)
         (Output.Value (NewOutput wClaim1 wResult1 ''password'' ''secret'')) = Inr ''terces''"
    by (simp_all add: NewOutput_def zeroClaim_def wClaim1_def)
  have e: "\<exists>data. encrypt (wStore False False)
         (Output.Value (NewOutput wClaim1 wResult1 ''password'' ''secret'')) = Inr data"
    using v(3) by blast
  have m: "\<exists>data. marshalInstallation wEnv wInstallation = Inr data"
    using wMarshal(3) by blast
  have sens: "sensitiveOrFalse
         (Claim.Bundle (Output.claim (NewOutput wClaim1 wResult1 ''password'' ''secret'')))
         (Output.Name (NewOutput wClaim1 wResult1 ''password'' ''secret''))"
    by (simp add: NewOutput_def wClaim1_def sensitiveOrFalse_iff wSensitive)
  have k: "encrypt wLocked (Output.Value (NewOutput wClaim1 wResult1 ''password'' ''secret''))
       = Inl ''no key''"
    by (rule wLocked_encrypt)
  have msg: "Wrap ''no key''
            (''error encrypting output ''
             @ Output.Name (NewOutput wClaim1 wResult1 ''password'' ''secret'')
             @ '' for result ''
             @ Result.ID (Output.result (NewOutput wClaim1 wResult1 ''password'' ''secret''))
             @ '' of installation ''
             @ Claim.Installation (Output.claim (NewOutput wClaim1 wResult1 ''password'' ''secret'')))
       = ''error encrypting output password for result r1 of installation wordpress: no key''"
    by (simp add: Wrap_def NewOutput_def wClaim1_def wResult1_def Result_set_claim_def)
  have raw: "SaveOutput wEnv wLocked (NewOutput wClaim1 wResult1 ''password'' ''secret'') wState
       = (Some (Wrap ''no key''
            (''error encrypting output ''
             @ Output.Name (NewOutput wClaim1 wResult1 ''password'' ''secret'')
             @ '' for result ''
             @ Result.ID (Output.result (NewOutput wClaim1 wResult1 ''password'' ''secret''))
             @ '' of installation ''
             @ Claim.Installation (Output.claim (NewOutput wClaim1 wResult1 ''password'' ''secret'')))),
          wState)"
    using t3 v(1) sens k by blast
  have locked: "SaveOutput wEnv wLocked (NewOutput wClaim1 wResult1 ''password'' ''secret'') wState
       = (Some ''error encrypting output password for result r1 of installation wordpress: no key'',
          wState)"
    using raw by (simp only: msg)
  show ?thesis
    using t1 t2 mem c v e m wMarshal(3) wLocked_backing sens k locked by blast
qed


section \<open>The cascade of deletes\<close>

lemma shrinks_refl [simp]: "shrinks st st"
  by (simp add: shrinks_def)

lemma shrinks_trans: "shrinks a b \<Longrightarrow> shrinks b c \<Longrightarrow> shrinks a c"
  by (simp add: shrinks_def)

lemma shrinks_cong:
  "lookupItem a = lookupItem a' \<Longrightarrow> lookupItem b = lookupItem b' \<Longrightarrow> shrinks a b = shrinks a' b'"
  by (simp add: shrinks_def)

lemma shrinks_touch [simp]: "shrinks a (touch b) = shrinks a b" "shrinks (touch a) b = shrinks a b"
  by (simp_all add: shrinks_def)

lemma shrinks_delete: "shrinks st (st\<lparr>items := AList.delete (kind, key) (items st)\<rparr>)"
  by (simp add: shrinks_def lookupItem_delete)

lemma shrinks_None: "shrinks st st' \<Longrightarrow> lookupItem st kind key = None \<Longrightarrow> lookupItem st' kind key = None"
  by (metis shrinks_def option.exhaust option.distinct(1))

lemma noOutputs_shrinks: "noOutputs rid st \<Longrightarrow> shrinks st st' \<Longrightarrow> noOutputs rid st'"
  unfolding noOutputs_def shrinks_def by blast

lemma keyed_shrinks: "keyed st \<Longrightarrow> shrinks st st' \<Longrightarrow> keyed st'"
  unfolding keyed_def shrinks_def by blast

lemma onlyOutputs_refl [simp]: "onlyOutputs st st"
  by (simp add: onlyOutputs_def)

lemma onlyOutputs_trans: "onlyOutputs a b \<Longrightarrow> onlyOutputs b c \<Longrightarrow> onlyOutputs a c"
  by (auto simp: onlyOutputs_def intro: shrinks_trans)

lemma cascades_refl [simp]: "cascades st st"
  by (auto simp: cascades_def)

lemma cascades_trans:
  assumes ab: "cascades a b" and bc: "cascades b c"
  shows "cascades a c"
proof -
  have s: "shrinks a c" using ab bc by (auto simp: cascades_def intro: shrinks_trans)
  have "\<And>rid v. lookupItem a ItemTypeResults rid = Some v
           \<Longrightarrow> lookupItem c ItemTypeResults rid = None \<Longrightarrow> noOutputs rid c"
  proof -
    fix rid v
    assume a: "lookupItem a ItemTypeResults rid = Some v"
      and c: "lookupItem c ItemTypeResults rid = None"
    show "noOutputs rid c"
    proof (cases "lookupItem b ItemTypeResults rid")
      case None
      then have "noOutputs rid b" using ab a by (auto simp: cascades_def)
      then show ?thesis using bc noOutputs_shrinks by (auto simp: cascades_def)
    next
      case (Some w)
      then show ?thesis using bc c by (auto simp: cascades_def)
    qed
  qed
  then show ?thesis using s by (auto simp: cascades_def)
qed

lemma onlyOutputs_cascades: "onlyOutputs st st' \<Longrightarrow> cascades st st'"
  by (auto simp: onlyOutputs_def cascades_def)

text \<open>A loop that stopped without an error ran its body on every element.\<close>

lemma forEach_post:
  assumes step: "\<And>x st r st'. f x st = (r, st') \<Longrightarrow> R st st'"
    and refl: "\<And>st. R st st"
    and trans: "\<And>a b c. R a b \<Longrightarrow> R b c \<Longrightarrow> R a c"
    and run: "forEach f xs st = (r, st')"
  shows "R st st'"
  using run
proof (induction xs arbitrary: st)
  case Nil
  then show ?case by (simp add: refl)
next
  case (Cons x xs)
  obtain r1 st1 where e: "f x st = (r1, st1)" by (cases "f x st")
  show ?case
  proof (cases r1)
    case None
    then have "forEach f xs st1 = (r, st')" using Cons.prems e by simp
    then show ?thesis using Cons.IH step [OF e] trans by blast
  next
    case (Some err)
    then show ?thesis using Cons.prems e step [OF e] by simp
  qed
qed

lemma forEach_done:
  assumes step: "\<And>x st r st'. f x st = (r, st') \<Longrightarrow> R st st'"
    and refl: "\<And>st. R st st"
    and trans: "\<And>a b c. R a b \<Longrightarrow> R b c \<Longrightarrow> R a c"
    and est: "\<And>x st st'. f x st = (None, st') \<Longrightarrow> Q x st'"
    and stable: "\<And>x st st'. Q x st \<Longrightarrow> R st st' \<Longrightarrow> Q x st'"
    and run: "forEach f xs st = (None, st')"
  shows "\<forall>x\<in>set xs. Q x st'"
  using run
proof (induction xs arbitrary: st)
  case Nil
  then show ?case by simp
next
  case (Cons x xs)
  obtain r1 st1 where e: "f x st = (r1, st1)" by (cases "f x st")
  have r1: "r1 = None" using Cons.prems e by (cases r1) simp_all
  then have rest: "forEach f xs st1 = (None, st')" using Cons.prems e by simp
  have "Q x st1" using est e r1 by simp
  moreover have "R st1 st'"
    by (rule forEach_post [of f R, OF step refl trans rest])
  ultimately have "Q x st'" using stable by blast
  then show ?case using Cons.IH [OF rest] by simp
qed

lemma lookupItem_memClose [simp]: "lookupItem (snd (memClose st)) = lookupItem st"
  by (simp add: memClose_def fun_eq_iff lookupItem_def)

lemma withConnect_post:
  assumes body: "\<And>st r st'. body st = (r, st') \<Longrightarrow> Q st r st'"
    and cong: "\<And>a a' b b' r. lookupItem a = lookupItem a' \<Longrightarrow> lookupItem b = lookupItem b'
                 \<Longrightarrow> Q a r b \<Longrightarrow> Q a' r b'"
    and run: "withConnect (memStore L cfg) fail body st = (r, st')"
  shows "Q st r st'"
proof (cases "opened st")
  case True
  then show ?thesis using run body by (simp add: withConnect_mem)
next
  case False
  let ?st1 = "st\<lparr>opened := True, connects := connects st + 1\<rparr>"
  obtain r2 st2 where e: "body ?st1 = (r2, st2)" by (cases "body ?st1")
  have r: "r = r2" and st': "st' = snd (memClose st2)"
    using run False e by (simp_all add: withConnect_mem)
  have "Q ?st1 r2 st2" using body [OF e] .
  then show ?thesis
    unfolding r st' by (rule cong [rotated 2]) simp_all
qed


lemma deletes_refl [simp]: "deletes st st"
  by (simp add: deletes_def)

lemma deletes_trans:
  assumes ab: "deletes a b" and bc: "deletes b c"
  shows "deletes a c"
proof -
  have s: "shrinks a c" using ab bc shrinks_trans unfolding deletes_def by blast
  have "cascades a c" if k: "keyed a"
  proof -
    have "keyed b" using k ab keyed_shrinks unfolding deletes_def by blast
    then show ?thesis using k ab bc cascades_trans unfolding deletes_def by blast
  qed
  then show ?thesis using s unfolding deletes_def by blast
qed

lemma deletes_cong:
  assumes a: "lookupItem a = lookupItem a'" and b: "lookupItem b = lookupItem b'" and d: "deletes a b"
  shows "deletes a' b'"
proof -
  have "shrinks a' b' = shrinks a b" "keyed a' = keyed a" "cascades a' b' = cascades a b"
    unfolding cascades_def shrinks_def keyed_def noOutputs_def a b by (rule refl)+
  then show ?thesis using d by (simp add: deletes_def)
qed

lemma onlyOutputs_deletes: "onlyOutputs st st' \<Longrightarrow> deletes st st'"
  unfolding deletes_def using onlyOutputs_cascades onlyOutputs_def by blast

lemma onlyOutputs_touch [simp]: "onlyOutputs (touch a) b = onlyOutputs a b"
  by (simp add: onlyOutputs_def shrinks_def)

lemma deletes_touch [simp]: "deletes (touch a) b = deletes a b"
  by (simp add: deletes_def cascades_def keyed_def shrinks_def)

text \<open>A delete of the backing store leaves no record under the key, whatever it returns.\<close>

lemma memDelete_lookup:
  assumes "Delete (memStore L cfg) kind key st = (err, st')"
  shows "lookupItem st' kd ky = (if kd = kind \<and> ky = key then None else lookupItem st kd ky)"
proof (cases "lookupItem st kind key")
  case None
  then have "st' = touch st" using assms by (simp add: memDelete_eq)
  then show ?thesis using None by simp
next
  case (Some gd)
  then have "st' = touch (st\<lparr>items := AList.delete (kind, key) (items st)\<rparr>)"
    using assms by (simp add: memDelete_eq)
  then show ?thesis by (simp add: lookupItem_delete)
qed

lemma DeleteOutput_lookup:
  assumes mem: "backingStore s = memStore L cfg"
    and run: "DeleteOutput L s rid name st = (r, st')"
  shows "lookupItem st' kd ky =
     (if kd = ItemTypeOutputs \<and> ky = outputKey rid name then None else lookupItem st kd ky)"
proof -
  obtain err st1 where d: "Delete (memStore L cfg) ItemTypeOutputs (outputKey rid name) st = (err, st1)"
    by (cases "Delete (memStore L cfg) ItemTypeOutputs (outputKey rid name) st")
  have "st' = st1" using run d by (simp add: DeleteOutput_def mem)
  then show ?thesis using memDelete_lookup [OF d] by simp
qed

lemma DeleteOutput_onlyOutputs:
  assumes mem: "backingStore s = memStore L cfg"
    and run: "DeleteOutput L s rid name st = (r, st')"
  shows "onlyOutputs st st'"
  unfolding onlyOutputs_def shrinks_def
  by (simp add: DeleteOutput_lookup [OF mem run] split: if_splits)

lemma outputKey_TrimPrefix:
  assumes "prefix (rid @ ''-'') k"
  shows "outputKey rid (TrimPrefix k (rid @ ''-'')) = k"
proof -
  obtain zs where k: "k = (rid @ ''-'') @ zs" using assms unfolding prefix_def by blast
  have "TrimPrefix k (rid @ ''-'') = zs" unfolding TrimPrefix_def k by simp
  then show ?thesis by (simp add: outputKey_def k)
qed


lemma DeleteResult_body:
  assumes mem: "backingStore s = memStore L cfg"
    and run: "(case ListOutputs L s rid st of
         (Inl err, st1) \<Rightarrow> (Some err, st1)
       | (Inr outputNames, st1) \<Rightarrow>
           (case forEach (DeleteOutput L s rid) outputNames st1 of
              (Some err, st2) \<Rightarrow> (Some err, st2)
            | (None, st2) \<Rightarrow>
                (case Delete (memStore L cfg) ItemTypeResults rid st2 of
                   (err, st3) \<Rightarrow> (handleNotExistsError L err ErrResultNotFound, st3)))) = (r, st')"
  shows "deletes st st' \<and> (r = None \<longrightarrow> lookupItem st' ItemTypeResults rid = None)"
proof -
  let ?names = "sort (map (\<lambda>fullName. TrimPrefix fullName (rid @ ''-''))
                     (groupKeys st ItemTypeOutputs rid))"
  obtain r2 st2 where loop: "forEach (DeleteOutput L s rid) ?names (touch st) = (r2, st2)"
    by (cases "forEach (DeleteOutput L s rid) ?names (touch st)")
  have "onlyOutputs (touch st) st2"
    by (rule forEach_post [of "DeleteOutput L s rid" onlyOutputs, OF _ _ _ loop])
       (auto intro: DeleteOutput_onlyOutputs [OF mem] onlyOutputs_trans)
  then have oo: "onlyOutputs st st2" by simp
  show ?thesis
  proof (cases r2)
    case (Some e)
    then have "st' = st2" "r = Some e"
      using run loop by (simp_all add: ListOutputs_mem [OF mem])
    then show ?thesis using oo onlyOutputs_deletes by simp
  next
    case None
    obtain err st3 where d: "Delete (memStore L cfg) ItemTypeResults rid st2 = (err, st3)"
      by (cases "Delete (memStore L cfg) ItemTypeResults rid st2")
    have st': "st' = st3"
      using run loop None d by (simp add: ListOutputs_mem [OF mem] mem)
    note l3 = memDelete_lookup [OF d]
    have gone: "\<forall>n\<in>set ?names. lookupItem st2 ItemTypeOutputs (outputKey rid n) = None"
    proof (rule forEach_done [of "DeleteOutput L s rid" onlyOutputs
          "\<lambda>n st. lookupItem st ItemTypeOutputs (outputKey rid n) = None", OF _ _ _ _ _ loop [unfolded None]])
      show "\<And>x st r st'. DeleteOutput L s rid x st = (r, st') \<Longrightarrow> onlyOutputs st st'"
        by (rule DeleteOutput_onlyOutputs [OF mem])
      show "\<And>st. onlyOutputs st st" by simp
      show "\<And>a b c. onlyOutputs a b \<Longrightarrow> onlyOutputs b c \<Longrightarrow> onlyOutputs a c"
        by (rule onlyOutputs_trans)
      show "\<And>x st st'. DeleteOutput L s rid x st = (None, st')
           \<Longrightarrow> lookupItem st' ItemTypeOutputs (outputKey rid x) = None"
        by (simp add: DeleteOutput_lookup [OF mem])
      show "\<And>x st st'. lookupItem st ItemTypeOutputs (outputKey rid x) = None
           \<Longrightarrow> onlyOutputs st st' \<Longrightarrow> lookupItem st' ItemTypeOutputs (outputKey rid x) = None"
        using shrinks_None unfolding onlyOutputs_def by blast
    qed
    have s23: "shrinks st2 st3" unfolding shrinks_def by (simp add: l3 split: if_splits)
    have s: "shrinks st st3" using oo s23 shrinks_trans unfolding onlyOutputs_def by blast
    have c: "cascades st st3" if k: "keyed st"
      unfolding cascades_def
    proof (intro conjI allI impI)
      show "shrinks st st3" by (rule s)
    next
      fix rid' v
      assume a: "lookupItem st ItemTypeResults rid' = Some v
                 \<and> lookupItem st3 ItemTypeResults rid' = None"
      have "lookupItem st2 ItemTypeResults rid' = Some v"
        using a oo kinds_distinct unfolding onlyOutputs_def by simp
      then have rid': "rid' = rid" using a by (simp add: l3 split: if_splits)
      show "noOutputs rid' st3"
        unfolding noOutputs_def rid'
      proof (intro allI notI)
        fix key data
        assume o3: "lookupItem st3 ItemTypeOutputs key = Some (rid, data)"
        then have o2: "lookupItem st2 ItemTypeOutputs key = Some (rid, data)"
          using s23 unfolding shrinks_def by blast
        then have o: "lookupItem st ItemTypeOutputs key = Some (rid, data)"
          using oo unfolding onlyOutputs_def shrinks_def by blast
        then have p: "prefix (rid @ ''-'') key" using k unfolding keyed_def by blast
        have "key \<in> set (groupKeys st ItemTypeOutputs rid)"
          unfolding set_groupKeys using o by blast
        then have "TrimPrefix key (rid @ ''-'') \<in> set ?names" by simp
        then have "lookupItem st2 ItemTypeOutputs (outputKey rid (TrimPrefix key (rid @ ''-''))) = None"
          using gone by blast
        then show False using o2 by (simp add: outputKey_TrimPrefix [OF p])
      qed
    qed
    have "lookupItem st3 ItemTypeResults rid = None" by (simp add: l3)
    then show ?thesis using s c unfolding st' deletes_def by blast
  qed
qed

lemma DeleteResult_post:
  assumes mem: "backingStore s = memStore L cfg"
    and run: "DeleteResult L s rid st = (r, st')"
  shows "deletes st st' \<and> (r = None \<longrightarrow> lookupItem st' ItemTypeResults rid = None)"
proof -
  define Q where "Q = (\<lambda>st (r :: error option) st'. deletes st st' \<and>
      (r = None \<longrightarrow> lookupItem st' ItemTypeResults rid = None))"
  have cong: "\<And>a a' b b' r. lookupItem a = lookupItem a' \<Longrightarrow> lookupItem b = lookupItem b'
      \<Longrightarrow> Q a r b \<Longrightarrow> Q a' r b'"
  proof -
    fix a a' b b' :: MemState and r :: "error option"
    assume a: "lookupItem a = lookupItem a'" and b: "lookupItem b = lookupItem b'" and q: "Q a r b"
    have "deletes a' b'" using deletes_cong [OF a b] q unfolding Q_def by blast
    moreover have "r = None \<longrightarrow> lookupItem b' ItemTypeResults rid = None"
      using q unfolding Q_def b by blast
    ultimately show "Q a' r b'" unfolding Q_def by blast
  qed
  have body: "\<And>st r st'. (case ListOutputs L s rid st of
         (Inl err, st1) \<Rightarrow> (Some err, st1)
       | (Inr outputNames, st1) \<Rightarrow>
           (case forEach (DeleteOutput L s rid) outputNames st1 of
              (Some err, st2) \<Rightarrow> (Some err, st2)
            | (None, st2) \<Rightarrow>
                (case Delete (memStore L cfg) ItemTypeResults rid st2 of
                   (err, st3) \<Rightarrow> (handleNotExistsError L err ErrResultNotFound, st3)))) = (r, st')
      \<Longrightarrow> Q st r st'"
    unfolding Q_def by (rule DeleteResult_body [OF mem])
  have "Q st r st'"
    by (rule withConnect_post [of _ Q, OF body cong run [unfolded DeleteResult_def mem]])
  then show ?thesis unfolding Q_def .
qed

text \<open>Deleting a record that is neither a result nor an output is a delete in this sense.\<close>

lemma memDelete_deletes:
  assumes d: "Delete (memStore L cfg) kind key st = (err, st')"
    and k: "kind \<noteq> ItemTypeResults"
  shows "deletes st st'"
proof -
  note l = memDelete_lookup [OF d]
  have s: "shrinks st st'" unfolding shrinks_def by (simp add: l split: if_splits)
  have "lookupItem st' ItemTypeResults rid = lookupItem st ItemTypeResults rid" for rid
    using k by (simp add: l)
  then have "cascades st st'" unfolding cascades_def using s by auto
  then show ?thesis using s unfolding deletes_def by blast
qed

lemma deletes_shrinks: "deletes st st' \<Longrightarrow> shrinks st st'"
  by (simp add: deletes_def)

lemma DeleteClaim_body:
  assumes mem: "backingStore s = memStore L cfg"
    and run: "(case ListResults L s cid st of
         (Inl err, st1) \<Rightarrow> (Some err, st1)
       | (Inr resultIds, st1) \<Rightarrow>
           (case forEach (DeleteResult L s) resultIds st1 of
              (Some err, st2) \<Rightarrow> (Some err, st2)
            | (None, st2) \<Rightarrow>
                (case Delete (memStore L cfg) ItemTypeClaims cid st2 of
                   (err, st3) \<Rightarrow> (handleNotExistsError L err ErrClaimNotFound, st3)))) = (r, st')"
  shows "deletes st st' \<and> (r = None \<longrightarrow> lookupItem st' ItemTypeClaims cid = None
           \<and> (\<forall>rid d. lookupItem st' ItemTypeResults rid \<noteq> Some (cid, d)))"
proof -
  let ?ids = "sort (groupKeys st ItemTypeResults cid)"
  obtain r2 st2 where loop: "forEach (DeleteResult L s) ?ids (touch st) = (r2, st2)"
    by (cases "forEach (DeleteResult L s) ?ids (touch st)")
  have step: "\<And>x st r st'. DeleteResult L s x st = (r, st') \<Longrightarrow> deletes st st'"
    using DeleteResult_post [OF mem] by blast
  have "deletes (touch st) st2"
    by (rule forEach_post [of "DeleteResult L s" deletes, OF step deletes_refl deletes_trans loop])
  then have d02: "deletes st st2" by simp
  show ?thesis
  proof (cases r2)
    case (Some e)
    then have "st' = st2" "r = Some e"
      using run loop by (simp_all add: ListResults_mem [OF mem])
    then show ?thesis using d02 by simp
  next
    case None
    obtain err st3 where d: "Delete (memStore L cfg) ItemTypeClaims cid st2 = (err, st3)"
      by (cases "Delete (memStore L cfg) ItemTypeClaims cid st2")
    have st': "st' = st3"
      using run loop None d by (simp add: ListResults_mem [OF mem])
    note l3 = memDelete_lookup [OF d]
    have gone: "\<forall>x\<in>set ?ids. lookupItem st2 ItemTypeResults x = None"
    proof (rule forEach_done [of "DeleteResult L s" deletes
          "\<lambda>x st. lookupItem st ItemTypeResults x = None", OF step deletes_refl deletes_trans _ _
          loop [unfolded None]])
      show "\<And>x st st'. DeleteResult L s x st = (None, st')
           \<Longrightarrow> lookupItem st' ItemTypeResults x = None"
        using DeleteResult_post [OF mem] by blast
      show "\<And>x st st'. lookupItem st ItemTypeResults x = None
           \<Longrightarrow> deletes st st' \<Longrightarrow> lookupItem st' ItemTypeResults x = None"
        using shrinks_None deletes_shrinks by blast
    qed
    have d23: "deletes st2 st3" by (rule memDelete_deletes [OF d]) simp
    have d03: "deletes st st3" by (rule deletes_trans [OF d02 d23])
    have none: "lookupItem st3 ItemTypeResults rid \<noteq> Some (cid, dd)" for rid dd
    proof
      assume r3: "lookupItem st3 ItemTypeResults rid = Some (cid, dd)"
      then have r2: "lookupItem st2 ItemTypeResults rid = Some (cid, dd)"
        using deletes_shrinks [OF d23] unfolding shrinks_def by blast
      then have "lookupItem st ItemTypeResults rid = Some (cid, dd)"
        using deletes_shrinks [OF d02] unfolding shrinks_def by blast
      then have "rid \<in> set (groupKeys st ItemTypeResults cid)"
        unfolding set_groupKeys by blast
      then have "lookupItem st2 ItemTypeResults rid = None" using gone by simp
      then show False using r2 by simp
    qed
    have "lookupItem st3 ItemTypeClaims cid = None" by (simp add: l3)
    then show ?thesis using d03 none unfolding st' by blast
  qed
qed

lemma DeleteClaim_post:
  assumes mem: "backingStore s = memStore L cfg"
    and run: "DeleteClaim L s cid st = (r, st')"
  shows "deletes st st' \<and> (r = None \<longrightarrow> lookupItem st' ItemTypeClaims cid = None
           \<and> (\<forall>rid d. lookupItem st' ItemTypeResults rid \<noteq> Some (cid, d)))"
proof -
  define Q where "Q = (\<lambda>st (r :: error option) st'. deletes st st' \<and>
      (r = None \<longrightarrow> lookupItem st' ItemTypeClaims cid = None
           \<and> (\<forall>rid d. lookupItem st' ItemTypeResults rid \<noteq> Some (cid, d))))"
  have cong: "\<And>a a' b b' r. lookupItem a = lookupItem a' \<Longrightarrow> lookupItem b = lookupItem b'
      \<Longrightarrow> Q a r b \<Longrightarrow> Q a' r b'"
  proof -
    fix a a' b b' :: MemState and r :: "error option"
    assume a: "lookupItem a = lookupItem a'" and b: "lookupItem b = lookupItem b'" and q: "Q a r b"
    have "deletes a' b'" using deletes_cong [OF a b] q unfolding Q_def by blast
    moreover have "r = None \<longrightarrow> lookupItem b' ItemTypeClaims cid = None
           \<and> (\<forall>rid d. lookupItem b' ItemTypeResults rid \<noteq> Some (cid, d))"
      using q unfolding Q_def b by blast
    ultimately show "Q a' r b'" unfolding Q_def by blast
  qed
  have body: "\<And>st r st'. (case ListResults L s cid st of
         (Inl err, st1) \<Rightarrow> (Some err, st1)
       | (Inr resultIds, st1) \<Rightarrow>
           (case forEach (DeleteResult L s) resultIds st1 of
              (Some err, st2) \<Rightarrow> (Some err, st2)
            | (None, st2) \<Rightarrow>
                (case Delete (memStore L cfg) ItemTypeClaims cid st2 of
                   (err, st3) \<Rightarrow> (handleNotExistsError L err ErrClaimNotFound, st3)))) = (r, st')
      \<Longrightarrow> Q st r st'"
    unfolding Q_def by (rule DeleteClaim_body [OF mem])
  have "Q st r st'"
    by (rule withConnect_post [of _ Q, OF body cong run [unfolded DeleteClaim_def mem]])
  then show ?thesis unfolding Q_def .
qed

lemma deletes_touch_right [simp]: "deletes a (touch b) = deletes a b"
  by (simp add: deletes_def cascades_def keyed_def shrinks_def noOutputs_def)

lemma DeleteInstallation_body:
  assumes mem: "backingStore s = memStore L cfg"
    and run: "(case ListClaims L s inst st of
         ((claimIds, Some err), st1) \<Rightarrow> (Some err, st1)
       | ((claimIds, None), st1) \<Rightarrow>
           (case forEach (DeleteClaim L s) claimIds st1 of
              (Some err, st2) \<Rightarrow> (Some err, st2)
            | (None, st2) \<Rightarrow>
                (case Delete (memStore L cfg) ItemTypeInstallations inst st2 of
                   (err, st3) \<Rightarrow> (handleNotExistsError L err ErrInstallationNotFound, st3)))) = (r, st')"
  shows "deletes st st' \<and> (r = None \<longrightarrow> lookupItem st' ItemTypeInstallations inst = None
           \<and> groupKeys st ItemTypeClaims inst \<noteq> []
           \<and> (\<forall>cid d. lookupItem st ItemTypeClaims cid = Some (inst, d)
                \<longrightarrow> lookupItem st' ItemTypeClaims cid = None
                  \<and> (\<forall>rid d'. lookupItem st' ItemTypeResults rid \<noteq> Some (cid, d'))))"
proof (cases "groupKeys st ItemTypeClaims inst = []")
  case True
  then have "st' = touch st" "r = Some ErrInstallationNotFound"
    using run by (simp_all add: ListClaims_mem [OF mem])
  then show ?thesis by simp
next
  case False
  let ?ids = "sort (groupKeys st ItemTypeClaims inst)"
  let ?Q = "\<lambda>cid st. lookupItem st ItemTypeClaims cid = None
              \<and> (\<forall>rid d'. lookupItem st ItemTypeResults rid \<noteq> Some (cid, d'))"
  obtain r2 st2 where loop: "forEach (DeleteClaim L s) ?ids (touch st) = (r2, st2)"
    by (cases "forEach (DeleteClaim L s) ?ids (touch st)")
  have step: "\<And>x st r st'. DeleteClaim L s x st = (r, st') \<Longrightarrow> deletes st st'"
    using DeleteClaim_post [OF mem] by blast
  have "deletes (touch st) st2"
    by (rule forEach_post [of "DeleteClaim L s" deletes, OF step deletes_refl deletes_trans loop])
  then have d02: "deletes st st2" by simp
  show ?thesis
  proof (cases r2)
    case (Some e)
    then have "st' = st2" "r = Some e"
      using run loop False by (simp_all add: ListClaims_mem [OF mem])
    then show ?thesis using d02 by simp
  next
    case None
    obtain err st3 where d: "Delete (memStore L cfg) ItemTypeInstallations inst st2 = (err, st3)"
      by (cases "Delete (memStore L cfg) ItemTypeInstallations inst st2")
    have st': "st' = st3"
      using run loop None d False by (simp add: ListClaims_mem [OF mem])
    note l3 = memDelete_lookup [OF d]
    have gone: "\<forall>x\<in>set ?ids. ?Q x st2"
    proof (rule forEach_done [of "DeleteClaim L s" deletes ?Q,
          OF step deletes_refl deletes_trans _ _ loop [unfolded None]])
      show "\<And>x st st'. DeleteClaim L s x st = (None, st') \<Longrightarrow> ?Q x st'"
        using DeleteClaim_post [OF mem] by blast
      show "\<And>x st st'. ?Q x st \<Longrightarrow> deletes st st' \<Longrightarrow> ?Q x st'"
      proof -
        fix x and st st' :: MemState
        assume q: "?Q x st" and dl: "deletes st st'"
        have s: "shrinks st st'" by (rule deletes_shrinks [OF dl])
        have "lookupItem st' ItemTypeClaims x = None" using shrinks_None [OF s] q by blast
        moreover have "\<forall>rid d'. lookupItem st' ItemTypeResults rid \<noteq> Some (x, d')"
          using q s unfolding shrinks_def by blast
        ultimately show "?Q x st'" by blast
      qed
    qed
    have d23: "deletes st2 st3" by (rule memDelete_deletes [OF d]) simp
    have d03: "deletes st st3" by (rule deletes_trans [OF d02 d23])
    have all: "?Q cid st3" if c: "lookupItem st ItemTypeClaims cid = Some (inst, dd)" for cid dd
    proof -
      have "cid \<in> set (groupKeys st ItemTypeClaims inst)"
        unfolding set_groupKeys using c by blast
      then have q: "?Q cid st2" using gone by simp
      have s: "shrinks st2 st3" by (rule deletes_shrinks [OF d23])
      have "lookupItem st3 ItemTypeClaims cid = None" using shrinks_None [OF s] q by blast
      moreover have "\<forall>rid d'. lookupItem st3 ItemTypeResults rid \<noteq> Some (cid, d')"
        using q s unfolding shrinks_def by blast
      ultimately show ?thesis by blast
    qed
    have "lookupItem st3 ItemTypeInstallations inst = None" by (simp add: l3)
    then show ?thesis using d03 all False unfolding st' by blast
  qed
qed

lemma DeleteInstallation_post:
  assumes mem: "backingStore s = memStore L cfg"
    and run: "DeleteInstallation L s inst st = (r, st')"
  shows "deletes st st' \<and> (r = None \<longrightarrow> lookupItem st' ItemTypeInstallations inst = None
           \<and> (\<exists>cid d. lookupItem st ItemTypeClaims cid = Some (inst, d))
           \<and> (\<forall>cid d. lookupItem st ItemTypeClaims cid = Some (inst, d)
                \<longrightarrow> lookupItem st' ItemTypeClaims cid = None
                  \<and> (\<forall>rid d'. lookupItem st' ItemTypeResults rid \<noteq> Some (cid, d'))))"
proof -
  define Q where "Q = (\<lambda>st (r :: error option) st'. deletes st st' \<and>
      (r = None \<longrightarrow> lookupItem st' ItemTypeInstallations inst = None
           \<and> (\<exists>cid d. lookupItem st ItemTypeClaims cid = Some (inst, d))
           \<and> (\<forall>cid d. lookupItem st ItemTypeClaims cid = Some (inst, d)
                \<longrightarrow> lookupItem st' ItemTypeClaims cid = None
                  \<and> (\<forall>rid d'. lookupItem st' ItemTypeResults rid \<noteq> Some (cid, d')))))"
  have cong: "\<And>a a' b b' r. lookupItem a = lookupItem a' \<Longrightarrow> lookupItem b = lookupItem b'
      \<Longrightarrow> Q a r b \<Longrightarrow> Q a' r b'"
  proof -
    fix a a' b b' :: MemState and r :: "error option"
    assume a: "lookupItem a = lookupItem a'" and b: "lookupItem b = lookupItem b'" and q: "Q a r b"
    have "deletes a' b'" using deletes_cong [OF a b] q unfolding Q_def by blast
    moreover have "r = None \<longrightarrow> lookupItem b' ItemTypeInstallations inst = None
           \<and> (\<exists>cid d. lookupItem a' ItemTypeClaims cid = Some (inst, d))
           \<and> (\<forall>cid d. lookupItem a' ItemTypeClaims cid = Some (inst, d)
                \<longrightarrow> lookupItem b' ItemTypeClaims cid = None
                  \<and> (\<forall>rid d'. lookupItem b' ItemTypeResults rid \<noteq> Some (cid, d')))"
      using q unfolding Q_def a b by blast
    ultimately show "Q a' r b'" unfolding Q_def by blast
  qed
  have body: "\<And>st r st'. (case ListClaims L s inst st of
         ((claimIds, Some err), st1) \<Rightarrow> (Some err, st1)
       | ((claimIds, None), st1) \<Rightarrow>
           (case forEach (DeleteClaim L s) claimIds st1 of
              (Some err, st2) \<Rightarrow> (Some err, st2)
            | (None, st2) \<Rightarrow>
                (case Delete (memStore L cfg) ItemTypeInstallations inst st2 of
                   (err, st3) \<Rightarrow> (handleNotExistsError L err ErrInstallationNotFound, st3)))) = (r, st')
      \<Longrightarrow> Q st r st'"
    unfolding Q_def using DeleteInstallation_body [OF mem] groupKeys_empty_iff by blast
  have "Q st r st'"
    by (rule withConnect_post [of _ Q, OF body cong run [unfolded DeleteInstallation_def mem]])
  then show ?thesis unfolding Q_def .
qed

text \<open>
  On a backing store that does not report the delete of a missing record, the delete of
  an installation with a claim returns no error.
\<close>

lemma forEach_None:
  assumes "\<And>x st. fst (f x st) = None"
  shows "fst (forEach f xs st) = None"
proof (induction xs arbitrary: st)
  case Nil
  then show ?case by simp
next
  case (Cons x xs)
  obtain r1 st1 where e: "f x st = (r1, st1)" by (cases "f x st")
  have "r1 = None" using assms [of x st] e by simp
  then show ?case using e Cons.IH by simp
qed

lemma withConnect_None_at:
  assumes "\<And>st'. lookupItem st' = lookupItem st \<Longrightarrow> fst (body st') = None"
  shows "fst (withConnect (memStore L cfg) fail body st) = None"
proof (cases "opened st")
  case True
  then show ?thesis using assms [of st] by (simp add: withConnect_mem)
next
  case False
  let ?st1 = "st\<lparr>opened := True, connects := connects st + 1\<rparr>"
  obtain r2 st2 where e: "body ?st1 = (r2, st2)" by (cases "body ?st1")
  have "r2 = None" using assms [of ?st1] e by simp
  then show ?thesis using False e by (simp add: withConnect_mem)
qed

lemma withConnect_None:
  assumes "\<And>st. fst (body st) = None"
  shows "fst (withConnect (memStore L cfg) fail body st) = None"
  by (rule withConnect_None_at) (rule assms)

lemma memDelete_None:
  "\<not> strictDelete cfg \<Longrightarrow> fst (Delete (memStore L cfg) kind key st) = None"
  by (simp add: memDelete_eq split: option.splits)

lemma DeleteOutput_None:
  assumes mem: "backingStore s = memStore L cfg" and sd: "\<not> strictDelete cfg"
  shows "fst (DeleteOutput L s rid name st) = None"
  using memDelete_None [OF sd, of L ItemTypeOutputs "outputKey rid name" st]
  by (auto simp: DeleteOutput_def mem split: prod.splits)

lemma DeleteResult_None:
  assumes mem: "backingStore s = memStore L cfg" and sd: "\<not> strictDelete cfg"
  shows "fst (DeleteResult L s rid st) = None"
  unfolding DeleteResult_def mem
proof (rule withConnect_None)
  fix st
  let ?names = "sort (map (\<lambda>fullName. TrimPrefix fullName (rid @ ''-''))
                     (groupKeys st ItemTypeOutputs rid))"
  obtain r2 st2 where loop: "forEach (DeleteOutput L s rid) ?names (touch st) = (r2, st2)"
    by (cases "forEach (DeleteOutput L s rid) ?names (touch st)")
  have "r2 = None"
    using forEach_None [of "DeleteOutput L s rid" ?names "touch st", OF DeleteOutput_None [OF mem sd]]
      loop by simp
  then show "fst (case ListOutputs L s rid st of
         (Inl err, st1) \<Rightarrow> (Some err, st1)
       | (Inr outputNames, st1) \<Rightarrow>
           (case forEach (DeleteOutput L s rid) outputNames st1 of
              (Some err, st2) \<Rightarrow> (Some err, st2)
            | (None, st2) \<Rightarrow>
                (case Delete (memStore L cfg) ItemTypeResults rid st2 of
                   (err, st3) \<Rightarrow> (handleNotExistsError L err ErrResultNotFound, st3)))) = None"
    using loop memDelete_None [OF sd, of L ItemTypeResults rid st2]
    by (auto simp: ListOutputs_mem [OF mem] split: prod.splits)
qed

lemma DeleteClaim_None:
  assumes mem: "backingStore s = memStore L cfg" and sd: "\<not> strictDelete cfg"
  shows "fst (DeleteClaim L s cid st) = None"
  unfolding DeleteClaim_def mem
proof (rule withConnect_None)
  fix st
  let ?ids = "sort (groupKeys st ItemTypeResults cid)"
  obtain r2 st2 where loop: "forEach (DeleteResult L s) ?ids (touch st) = (r2, st2)"
    by (cases "forEach (DeleteResult L s) ?ids (touch st)")
  have "r2 = None"
    using forEach_None [of "DeleteResult L s" ?ids "touch st", OF DeleteResult_None [OF mem sd]]
      loop by simp
  then show "fst (case ListResults L s cid st of
         (Inl err, st1) \<Rightarrow> (Some err, st1)
       | (Inr resultIds, st1) \<Rightarrow>
           (case forEach (DeleteResult L s) resultIds st1 of
              (Some err, st2) \<Rightarrow> (Some err, st2)
            | (None, st2) \<Rightarrow>
                (case Delete (memStore L cfg) ItemTypeClaims cid st2 of
                   (err, st3) \<Rightarrow> (handleNotExistsError L err ErrClaimNotFound, st3)))) = None"
    using loop memDelete_None [OF sd, of L ItemTypeClaims cid st2]
    by (auto simp: ListResults_mem [OF mem] split: prod.splits)
qed

lemma DeleteInstallation_None:
  assumes mem: "backingStore s = memStore L cfg" and sd: "\<not> strictDelete cfg"
    and c: "lookupItem st ItemTypeClaims cid = Some (inst, d)"
  shows "fst (DeleteInstallation L s inst st) = None"
proof -
  have ne: "groupKeys st' ItemTypeClaims inst \<noteq> []" if "lookupItem st' = lookupItem st" for st'
    unfolding groupKeys_empty_iff that using c by blast
  have body: "fst (case ListClaims L s inst st' of
         ((claimIds, Some err), st1) \<Rightarrow> (Some err, st1)
       | ((claimIds, None), st1) \<Rightarrow>
           (case forEach (DeleteClaim L s) claimIds st1 of
              (Some err, st2) \<Rightarrow> (Some err, st2)
            | (None, st2) \<Rightarrow>
                (case Delete (memStore L cfg) ItemTypeInstallations inst st2 of
                   (err, st3) \<Rightarrow> (handleNotExistsError L err ErrInstallationNotFound, st3)))) = None"
    if l: "lookupItem st' = lookupItem st" for st'
  proof -
    let ?ids = "sort (groupKeys st' ItemTypeClaims inst)"
    obtain r2 st2 where loop: "forEach (DeleteClaim L s) ?ids (touch st') = (r2, st2)"
      by (cases "forEach (DeleteClaim L s) ?ids (touch st')")
    have "r2 = None"
      using forEach_None [of "DeleteClaim L s" ?ids "touch st'", OF DeleteClaim_None [OF mem sd]]
        loop by simp
    then show ?thesis
      using loop memDelete_None [OF sd, of L ItemTypeInstallations inst st2] ne [OF l]
      by (auto simp: ListClaims_mem [OF mem] split: prod.splits)
  qed
  show ?thesis
    unfolding DeleteInstallation_def mem
    by (rule withConnect_None_at) (rule body)
qed

text \<open>
  The keys of the output records: \<^verbatim>\<open>SaveOutput\<close>, the only write of an output record,
  keeps every output record under a key that starts with its result and a dash.
\<close>

lemma keyed_update:
  assumes k: "keyed st"
  shows "keyed (touch (st\<lparr>items := AList.update (ItemTypeOutputs, outputKey rid name)
                                  (rid, data) (items st)\<rparr>))"
proof -
  have "prefix (rid @ ''-'') (outputKey rid name)" by (simp add: outputKey_def)
  then show ?thesis
    using k unfolding keyed_def by (simp add: lookupItem_update)
qed

lemma SaveOutput_keyed:
  assumes mem: "backingStore s = memStore L cfg"
    and k: "keyed st"
    and run: "SaveOutput L s out st = (r, st')"
  shows "keyed st'"
  using run k keyed_update [OF k]
  by (auto simp: SaveOutput_mem [OF mem] split: if_splits sum.splits)

section \<open>The cascading delete\<close>


lemma wState_keyed: "keyed wState"
  unfolding keyed_def
  by (simp add: lookupItem_def wState_def kind_defs)

lemma wState_records:
  "lookupItem wState ItemTypeClaims ''c1'' = Some (''wordpress'', rev ''{claim c1}'')"
  "lookupItem wState ItemTypeResults ''r1'' = Some (''c1'', ''{result r1}'')"
  "lookupItem wState ItemTypeOutputs ''r1-port'' = Some (''r1'', ''8080'')"
  by (simp_all add: lookupItem_def wState_def kind_defs)



section \<open>The last outputs of an installation\<close>

text \<open>Inside a connection the reads leave the state of the backing store as it is.\<close>

lemma collectResults_mem:
  assumes mem: "backingStore s = memStore L cfg" and c: "opened st"
  shows "collectResults L s cs acc st =
     (Inr (acc @ concat (map (\<lambda>c. map (\<lambda>resultID. Result resultID (Claim.ID c) '''' '''' '''' 0
                                                   Map.empty (Some c))
                                   (sort (groupKeys st ItemTypeResults (Claim.ID c)))) cs)), st)"
  using c
proof (induction cs arbitrary: acc)
  case Nil
  then show ?case by simp
next
  case (Cons c cs)
  then show ?case by (simp add: ListResults_mem [OF mem])
qed

lemma collectLastOutputs_mem:
  assumes mem: "backingStore s = memStore L cfg" and c: "opened st"
  shows "collectLastOutputs L s f rs lo st =
     (Inr (foldl (\<lambda>lo r. setOutputs f r (namesOf st (Result.ID r)) lo) lo rs), st)"
  using c
proof (induction rs arbitrary: lo)
  case Nil
  then show ?case by simp
next
  case (Cons r rs)
  then show ?case by (simp add: ListOutputs_mem [OF mem] namesOf_def)
qed

lemma map_of_setOutputs:
  "map_of (setOutputs '''' r ns lo) n = (if n \<in> set ns then Some r else map_of lo n)"
  by (induction ns arbitrary: lo) (auto simp: update_conv')

lemma distinct_setOutputs:
  "distinct (map fst lo) \<Longrightarrow> distinct (map fst (setOutputs f r ns lo))"
  by (induction ns arbitrary: lo) (auto simp: distinct_update)

text \<open>
  The map of the second loop: over results in the order of their ids, a name is mapped
  to the result of the greatest id that lists it.
\<close>

lemma lastOutputs_distinct:
  "distinct (map fst lo)
   \<Longrightarrow> distinct (map fst (foldl (\<lambda>lo r. setOutputs f r (N r) lo) lo rs))"
  by (induction rs arbitrary: lo) (simp_all add: distinct_setOutputs)

lemma lastOutputs_None:
  "map_of (foldl (\<lambda>lo r. setOutputs '''' r (N r) lo) [] rs) n = None
     \<longleftrightarrow> (\<forall>r\<in>set rs. n \<notin> set (N r))"
  by (induction rs rule: rev_induct) (auto simp: map_of_setOutputs)

lemma lastOutputs_Some:
  assumes "sorted (map Result.ID rs)"
    and "map_of (foldl (\<lambda>lo r. setOutputs '''' r (N r) lo) [] rs) n = Some r"
  shows "r \<in> set rs \<and> n \<in> set (N r)
         \<and> (\<forall>r'\<in>set rs. n \<in> set (N r') \<longrightarrow> Result.ID r' \<le> Result.ID r)"
  using assms
proof (induction rs arbitrary: r rule: rev_induct)
  case Nil
  then show ?case by simp
next
  case (snoc x xs)
  have s: "sorted (map Result.ID xs)" and le: "\<forall>y\<in>set xs. Result.ID y \<le> Result.ID x"
    using snoc.prems(1) by (auto simp: sorted_append)
  show ?case
  proof (cases "n \<in> set (N x)")
    case True
    then have "r = x" using snoc.prems(2) by (simp add: map_of_setOutputs)
    then show ?thesis using True le by auto
  next
    case False
    then have "map_of (foldl (\<lambda>lo r. setOutputs '''' r (N r) lo) [] xs) n = Some r"
      using snoc.prems(2) by (simp add: map_of_setOutputs)
    then show ?thesis using snoc.IH [OF s] False by auto
  qed
qed

text \<open>The container of outputs with pairwise distinct names.\<close>

lemma NewOutputs_vals:
  "set (vals (NewOutputs xs)) = set xs"
  "length (vals (NewOutputs xs)) = length xs"
  "sorted (map Output.Name (vals (NewOutputs xs)))"
  by (simp_all add: NewOutputs_def Let_def)

lemma NewOutputs_distinct:
  assumes "distinct (map Output.Name xs)"
  shows "distinct (map Output.Name (vals (NewOutputs xs)))"
  using assms by (simp add: NewOutputs_def Let_def distinct_map)

lemma NewOutputs_lookup:
  assumes d: "distinct (map Output.Name xs)" and x: "x \<in> set xs"
  shows "\<exists>i. i < length xs \<and> keys (NewOutputs xs) (Output.Name x) = Some i
             \<and> vals (NewOutputs xs) ! i = x
             \<and> GetByName (NewOutputs xs) (Output.Name x) = Some x
             \<and> GetByIndex (NewOutputs xs) (int i) = Some x"
proof -
  let ?vs = "sort_key Output.Name xs"
  have dv: "distinct (map Output.Name ?vs)" using d by (simp add: distinct_map)
  have "x \<in> set ?vs" using x by simp
  then obtain i where i: "i < length ?vs" "?vs ! i = x" unfolding in_set_conv_nth by blast
  have "map_of (zip (map Output.Name ?vs) [0..<length ?vs]) (map Output.Name ?vs ! i)
          = Some ([0..<length ?vs] ! i)"
    by (rule map_of_zip_nth) (use dv i in simp_all)
  then have k: "keys (NewOutputs xs) (Output.Name x) = Some i"
    using i by (simp add: NewOutputs_def Let_def)
  have v: "vals (NewOutputs xs) ! i = x" using i by (simp add: NewOutputs_def Let_def)
  have l: "i < length (vals (NewOutputs xs))" using i by (simp add: NewOutputs_def Let_def)
  have "GetByName (NewOutputs xs) (Output.Name x) = Some x"
    using k v l by (simp add: GetByName_def)
  moreover have "GetByIndex (NewOutputs xs) (int i) = Some x"
    using v l by (simp add: GetByIndex_def)
  ultimately show ?thesis using i k v by auto
qed

lemma NewOutputs_missing:
  assumes "n \<notin> Output.Name ` set xs"
  shows "GetByName (NewOutputs xs) n = None"
proof -
  have "n \<notin> set (map Output.Name (sort_key Output.Name xs))" using assms by simp
  then have "keys (NewOutputs xs) n = None"
    by (simp add: NewOutputs_def Let_def map_of_zip_is_None)
  then show ?thesis by (simp add: GetByName_def)
qed

text \<open>The third loop, when every entry of the map can be read.\<close>

lemma readOutputs_mem:
  assumes mem: "backingStore s = memStore L cfg" and c: "opened st"
    and ok: "\<forall>nr\<in>set lo. \<exists>out. readsAs s st nr out"
  shows "\<exists>outs. readOutputs L s lo acc st = (Inr (acc @ outs), st)
                \<and> list_all2 (readsAs s st) lo outs"
  using ok
proof (induction lo arbitrary: acc)
  case Nil
  then show ?case by simp
next
  case (Cons nr lo)
  obtain n r where nr: "nr = (n, r)" by (cases nr)
  obtain out where out: "readsAs s st (n, r) out" using Cons.prems nr by auto
  then obtain cl g data v where r: "Result.claim r = Some cl"
    and l: "lookupItem st ItemTypeOutputs (outputKey (Result.ID r) n) = Some (g, data)"
    and v: "if sensitiveOrFalse (Claim.Bundle cl) n then decrypt s data = Inr v else v = data"
    and o: "out = NewOutput cl r n v"
    unfolding readsAs_def by auto
  have rd: "ReadOutput L s cl r n st = (Inr out, st)"
    using l v o c by (simp add: ReadOutput_mem [OF mem] split: if_splits)
  obtain outs where outs: "readOutputs L s lo ((acc @ [out])) st = (Inr ((acc @ [out]) @ outs), st)"
    and all: "list_all2 (readsAs s st) lo outs"
    using Cons.IH [of "acc @ [out]"] Cons.prems by auto
  have "readOutputs L s (nr # lo) acc st = (Inr (acc @ out # outs), st)"
    using rd r outs by (simp add: nr)
  moreover have "list_all2 (readsAs s st) (nr # lo) (out # outs)"
    using all out nr by simp
  ultimately show ?case by blast
qed

lemma readsAs_Name: "readsAs s st nr out \<Longrightarrow> Output.Name out = fst nr"
  by (auto simp: readsAs_def NewOutput_def)

lemma readsAs_names:
  "list_all2 (readsAs s st) lo outs \<Longrightarrow> map Output.Name outs = map fst lo"
  by (induction rule: list_all2_induct) (simp_all add: readsAs_Name)

text \<open>The names listed for a result are the names of its output records.\<close>

lemma in_namesOf:
  assumes k: "keyed st"
  shows "n \<in> set (namesOf st rid)
     \<longleftrightarrow> (\<exists>data. lookupItem st ItemTypeOutputs (outputKey rid n) = Some (rid, data))"
proof
  assume "n \<in> set (namesOf st rid)"
  then obtain key where key: "key \<in> set (groupKeys st ItemTypeOutputs rid)"
    and n: "n = TrimPrefix key (rid @ ''-'')"
    by (auto simp: namesOf_def)
  obtain data where d: "lookupItem st ItemTypeOutputs key = Some (rid, data)"
    using key unfolding set_groupKeys by blast
  have "prefix (rid @ ''-'') key" using k d unfolding keyed_def by blast
  then have "outputKey rid n = key" unfolding n by (rule outputKey_TrimPrefix)
  then show "\<exists>data. lookupItem st ItemTypeOutputs (outputKey rid n) = Some (rid, data)"
    using d by blast
next
  assume "\<exists>data. lookupItem st ItemTypeOutputs (outputKey rid n) = Some (rid, data)"
  then have "outputKey rid n \<in> set (groupKeys st ItemTypeOutputs rid)"
    unfolding set_groupKeys by blast
  moreover have "TrimPrefix (outputKey rid n) (rid @ ''-'') = n"
    by (simp add: TrimPrefix_def outputKey_def)
  ultimately show "n \<in> set (namesOf st rid)"
    unfolding namesOf_def by (metis (no_types, lifting) image_eqI set_map set_sort)
qed

lemma list_all2_left:
  assumes "list_all2 P xs ys" and "x \<in> set xs"
  shows "\<exists>y\<in>set ys. P x y"
proof -
  obtain i where i: "i < length xs" "xs ! i = x" using assms(2) unfolding in_set_conv_nth by blast
  have "P (xs ! i) (ys ! i)" by (rule list_all2_nthD [OF assms(1) i(1)])
  moreover have "ys ! i \<in> set ys" using i(1) list_all2_lengthD [OF assms(1)] by simp
  ultimately show ?thesis using i(2) by blast
qed

lemma list_all2_right:
  assumes "list_all2 P xs ys" and "y \<in> set ys"
  shows "\<exists>x\<in>set xs. P x y"
proof -
  obtain i where i: "i < length ys" "ys ! i = y" using assms(2) unfolding in_set_conv_nth by blast
  have "P (xs ! i) (ys ! i)" by (rule list_all2_nthD2 [OF assms(1) i(1)])
  moreover have "xs ! i \<in> set xs" using i(1) list_all2_lengthD [OF assms(1)] by simp
  ultimately show ?thesis using i(2) by blast
qed

text \<open>The claims of an installation whose claim records decode.\<close>

lemma decodeClaims_ok:
  assumes "\<forall>kd\<in>set kds. \<exists>plain c. decrypt s (snd kd) = Inr plain
             \<and> unmarshalClaim L plain = Inr c \<and> Claim.ID c = fst kd"
  shows "\<exists>cs. decodeClaims L s (map snd kds) = Inr cs
           \<and> list_all2 (\<lambda>kd c. \<exists>plain. decrypt s (snd kd) = Inr plain
                   \<and> unmarshalClaim L plain = Inr c \<and> Claim.ID c = fst kd) kds cs"
  using assms
proof (induction kds)
  case Nil
  then show ?case by simp
next
  case (Cons kd kds)
  obtain plain c where d: "decrypt s (snd kd) = Inr plain" "unmarshalClaim L plain = Inr c"
      "Claim.ID c = fst kd"
    using Cons.prems by auto
  obtain cs where cs: "decodeClaims L s (map snd kds) = Inr cs"
    and all: "list_all2 (\<lambda>kd c. \<exists>plain. decrypt s (snd kd) = Inr plain
                   \<and> unmarshalClaim L plain = Inr c \<and> Claim.ID c = fst kd) kds cs"
    using Cons.IH Cons.prems by auto
  have "decodeClaims L s (map snd (kd # kds)) = Inr (c # cs)" using d cs by simp
  moreover have "list_all2 (\<lambda>kd c. \<exists>plain. decrypt s (snd kd) = Inr plain
                   \<and> unmarshalClaim L plain = Inr c \<and> Claim.ID c = fst kd) (kd # kds) (c # cs)"
    using all d by simp
  ultimately show ?case by blast
qed

lemma ReadAllClaims_ok:
  assumes mem: "backingStore s = memStore L cfg" and c: "opened st"
    and claims: "\<forall>cid data. lookupItem st ItemTypeClaims cid = Some (inst, data)
        \<longrightarrow> (\<exists>plain c. decrypt s data = Inr plain \<and> unmarshalClaim L plain = Inr c
              \<and> Claim.ID c = cid)"
    and some: "\<exists>cid data. lookupItem st ItemTypeClaims cid = Some (inst, data)"
  shows "\<exists>cs. ReadAllClaims L s inst st = (Inr cs, st)
     \<and> (\<forall>c. c \<in> set cs \<longleftrightarrow>
           (\<exists>data plain. lookupItem st ItemTypeClaims (Claim.ID c) = Some (inst, data)
               \<and> decrypt s data = Inr plain \<and> unmarshalClaim L plain = Inr c))"
proof -
  let ?kds = "groupItems st ItemTypeClaims inst"
  let ?P = "\<lambda>kd c. \<exists>plain. decrypt s (snd kd) = Inr plain
                   \<and> unmarshalClaim L plain = Inr c \<and> Claim.ID c = fst kd"
  have ne: "?kds \<noteq> []"
    using some groupKeys_empty_iff [of st ItemTypeClaims inst] by (auto simp: groupKeys_def)
  have "\<forall>kd\<in>set ?kds. \<exists>plain c. decrypt s (snd kd) = Inr plain
             \<and> unmarshalClaim L plain = Inr c \<and> Claim.ID c = fst kd"
  proof
    fix kd assume "kd \<in> set ?kds"
    then have "(fst kd, snd kd) \<in> set ?kds" by simp
    then have "lookupItem st ItemTypeClaims (fst kd) = Some (inst, snd kd)"
      by (rule iffD1 [OF in_groupItems_iff])
    then show "\<exists>plain c. decrypt s (snd kd) = Inr plain
             \<and> unmarshalClaim L plain = Inr c \<and> Claim.ID c = fst kd"
      using claims by blast
  qed
  then obtain cs where cs: "decodeClaims L s (map snd ?kds) = Inr cs"
    and all: "list_all2 ?P ?kds cs"
    using decodeClaims_ok [of ?kds s L] by blast
  have r: "ReadAllClaims L s inst st = (Inr (sort_key Claim.ID cs), st)"
    using ne cs c by (simp add: ReadAllClaims_def mem memReadAll_eq)
  have "c \<in> set cs \<longleftrightarrow>
           (\<exists>data plain. lookupItem st ItemTypeClaims (Claim.ID c) = Some (inst, data)
               \<and> decrypt s data = Inr plain \<and> unmarshalClaim L plain = Inr c)" for c
  proof
    assume "c \<in> set cs"
    then obtain kd where kd: "kd \<in> set ?kds" "?P kd c" using list_all2_right [OF all] by blast
    have "(fst kd, snd kd) \<in> set ?kds" using kd(1) by simp
    then have "lookupItem st ItemTypeClaims (fst kd) = Some (inst, snd kd)"
      by (rule iffD1 [OF in_groupItems_iff])
    then show "\<exists>data plain. lookupItem st ItemTypeClaims (Claim.ID c) = Some (inst, data)
               \<and> decrypt s data = Inr plain \<and> unmarshalClaim L plain = Inr c"
      using kd(2) by auto
  next
    assume "\<exists>data plain. lookupItem st ItemTypeClaims (Claim.ID c) = Some (inst, data)
               \<and> decrypt s data = Inr plain \<and> unmarshalClaim L plain = Inr c"
    then obtain data plain where l: "lookupItem st ItemTypeClaims (Claim.ID c) = Some (inst, data)"
      and d: "decrypt s data = Inr plain" "unmarshalClaim L plain = Inr c" by blast
    have "(Claim.ID c, data) \<in> set ?kds" using l by (rule iffD2 [OF in_groupItems_iff])
    then obtain c' where c': "c' \<in> set cs" "?P (Claim.ID c, data) c'"
      using list_all2_left [OF all] by blast
    then have "c' = c" using d by auto
    then show "c \<in> set cs" using c'(1) by simp
  qed
  then show ?thesis using r by simp
qed

text \<open>
  The run of \<^verbatim>\<open>readLastOutputs\<close> inside a connection: the map of the second loop
  sends every written name to the result of the greatest id that wrote it, with the
  claim of that result, and the third loop reads every entry.
\<close>

lemma readLastOutputs_run:
  assumes mem: "backingStore s = memStore L cfg" and c: "opened st"
    and k: "keyed st"
    and claims: "\<forall>cid data. lookupItem st ItemTypeClaims cid = Some (inst, data)
        \<longrightarrow> (\<exists>plain c. decrypt s data = Inr plain \<and> unmarshalClaim L plain = Inr c
              \<and> Claim.ID c = cid)"
    and some: "\<exists>cid data. lookupItem st ItemTypeClaims cid = Some (inst, data)"
    and readable: "\<forall>cid cdata plain c rid rdata name data.
          lookupItem st ItemTypeClaims cid = Some (inst, cdata)
        \<and> decrypt s cdata = Inr plain \<and> unmarshalClaim L plain = Inr c
        \<and> lookupItem st ItemTypeResults rid = Some (cid, rdata)
        \<and> lookupItem st ItemTypeOutputs (outputKey rid name) = Some (rid, data)
        \<and> sensitiveOrFalse (Claim.Bundle c) name
        \<longrightarrow> (\<exists>v. decrypt s data = Inr v)"
  shows "\<exists>lo outs.
       readLastOutputs L s inst '''' st = (Inr (NewOutputs outs), st)
     \<and> list_all2 (readsAs s st) lo outs
     \<and> distinct (map fst lo)
     \<and> (\<forall>n. (\<exists>rid. wrote st inst rid n) \<longrightarrow> map_of lo n \<noteq> None)
     \<and> (\<forall>n r. map_of lo n = Some r \<longrightarrow>
           (\<exists>cl cdata plain rdata data.
                Result.claim r = Some cl
              \<and> lookupItem st ItemTypeClaims (Claim.ID cl) = Some (inst, cdata)
              \<and> decrypt s cdata = Inr plain \<and> unmarshalClaim L plain = Inr cl
              \<and> lookupItem st ItemTypeResults (Result.ID r) = Some (Claim.ID cl, rdata)
              \<and> lookupItem st ItemTypeOutputs (outputKey (Result.ID r) n)
                  = Some (Result.ID r, data)
              \<and> (\<forall>rid'. wrote st inst rid' n \<longrightarrow> rid' \<le> Result.ID r)))"
proof -
  let ?mk = "\<lambda>c resultID. Result resultID (Claim.ID c) '''' '''' '''' 0 Map.empty (Some c)"
  let ?N = "\<lambda>r. namesOf st (Result.ID r)"
  obtain cs where rac: "ReadAllClaims L s inst st = (Inr cs, st)"
    and cs: "\<And>c. c \<in> set cs \<longleftrightarrow>
           (\<exists>data plain. lookupItem st ItemTypeClaims (Claim.ID c) = Some (inst, data)
               \<and> decrypt s data = Inr plain \<and> unmarshalClaim L plain = Inr c)"
    using ReadAllClaims_ok [OF mem c claims some] by blast
  define rs where "rs = sort_key Result.ID
      (concat (map (\<lambda>c. map (?mk c) (sort (groupKeys st ItemTypeResults (Claim.ID c)))) cs))"
  define lo where "lo = foldl (\<lambda>lo r. setOutputs '''' r (?N r) lo) [] rs"
  have srt: "sorted (map Result.ID rs)" by (simp add: rs_def)
  have in_rs: "r \<in> set rs \<longleftrightarrow>
      (\<exists>cl\<in>set cs. \<exists>rid rdata. lookupItem st ItemTypeResults rid = Some (Claim.ID cl, rdata)
          \<and> r = ?mk cl rid)" for r
    unfolding rs_def by (auto simp: set_groupKeys)
  have dlo: "distinct (map fst lo)"
    unfolding lo_def by (rule lastOutputs_distinct) simp
  have sem: "\<exists>cl cdata plain rdata data.
                Result.claim r = Some cl
              \<and> lookupItem st ItemTypeClaims (Claim.ID cl) = Some (inst, cdata)
              \<and> decrypt s cdata = Inr plain \<and> unmarshalClaim L plain = Inr cl
              \<and> lookupItem st ItemTypeResults (Result.ID r) = Some (Claim.ID cl, rdata)
              \<and> lookupItem st ItemTypeOutputs (outputKey (Result.ID r) n)
                  = Some (Result.ID r, data)
              \<and> (\<forall>rid'. wrote st inst rid' n \<longrightarrow> rid' \<le> Result.ID r)"
    if m: "map_of lo n = Some r" for n r
  proof -
    note f = lastOutputs_Some [of rs ?N n r, OF srt m [unfolded lo_def]]
    obtain cl rid rdata where cl: "cl \<in> set cs"
      and rd: "lookupItem st ItemTypeResults rid = Some (Claim.ID cl, rdata)"
      and r: "r = ?mk cl rid"
      using f in_rs by blast
    obtain cdata plain where cd: "lookupItem st ItemTypeClaims (Claim.ID cl) = Some (inst, cdata)"
      "decrypt s cdata = Inr plain" "unmarshalClaim L plain = Inr cl"
      using cl cs by blast
    have "n \<in> set (namesOf st rid)" using f r by simp
    then obtain data where d: "lookupItem st ItemTypeOutputs (outputKey rid n) = Some (rid, data)"
      using in_namesOf [OF k] by blast
    have mx: "rid' \<le> Result.ID r" if w: "wrote st inst rid' n" for rid'
    proof -
      obtain cid' cdata' rdata' data' where
        w1: "lookupItem st ItemTypeClaims cid' = Some (inst, cdata')"
        and w2: "lookupItem st ItemTypeResults rid' = Some (cid', rdata')"
        and w3: "lookupItem st ItemTypeOutputs (outputKey rid' n) = Some (rid', data')"
        using w unfolding wrote_def by blast
      obtain plain' c' where c': "decrypt s cdata' = Inr plain'" "unmarshalClaim L plain' = Inr c'"
        "Claim.ID c' = cid'"
        using claims w1 by blast
      have "c' \<in> set cs" using cs [of c'] c' w1 by blast
      then have "?mk c' rid' \<in> set rs" using in_rs [of "?mk c' rid'"] w2 c'(3) by blast
      moreover have "n \<in> set (namesOf st rid')" using in_namesOf [OF k] w3 by blast
      ultimately have "Result.ID (?mk c' rid') \<le> Result.ID r" using f by auto
      then show ?thesis by simp
    qed
    show ?thesis using r cd rd d mx by auto
  qed
  have written: "map_of lo n \<noteq> None" if w: "\<exists>rid. wrote st inst rid n" for n
  proof -
    obtain rid cid cdata rdata data where
      w1: "lookupItem st ItemTypeClaims cid = Some (inst, cdata)"
      and w2: "lookupItem st ItemTypeResults rid = Some (cid, rdata)"
      and w3: "lookupItem st ItemTypeOutputs (outputKey rid n) = Some (rid, data)"
      using w unfolding wrote_def by blast
    obtain plain cl where cl: "decrypt s cdata = Inr plain" "unmarshalClaim L plain = Inr cl"
        "Claim.ID cl = cid"
      using claims w1 by blast
    have "cl \<in> set cs" using cs [of cl] cl w1 by blast
    then have "?mk cl rid \<in> set rs" using in_rs [of "?mk cl rid"] w2 cl(3) by blast
    moreover have "n \<in> set (?N (?mk cl rid))" using in_namesOf [OF k] w3 by simp
    ultimately show ?thesis unfolding lo_def lastOutputs_None by blast
  qed
  have "\<forall>nr\<in>set lo. \<exists>out. readsAs s st nr out"
  proof
    fix nr assume nr: "nr \<in> set lo"
    then have "map_of lo (fst nr) = Some (snd nr)"
      using dlo by (intro map_of_is_SomeI) simp_all
    then obtain cl cdata plain rdata data where
        a: "Result.claim (snd nr) = Some cl"
        "lookupItem st ItemTypeClaims (Claim.ID cl) = Some (inst, cdata)"
        "decrypt s cdata = Inr plain" "unmarshalClaim L plain = Inr cl"
        "lookupItem st ItemTypeResults (Result.ID (snd nr)) = Some (Claim.ID cl, rdata)"
        "lookupItem st ItemTypeOutputs (outputKey (Result.ID (snd nr)) (fst nr))
                  = Some (Result.ID (snd nr), data)"
      using sem by blast
    have "\<exists>v. if sensitiveOrFalse (Claim.Bundle cl) (fst nr) then decrypt s data = Inr v
               else v = data"
    proof (cases "sensitiveOrFalse (Claim.Bundle cl) (fst nr)")
      case True
      then have "\<exists>v. decrypt s data = Inr v" using readable a by blast
      then show ?thesis using True by simp
    next
      case False
      then show ?thesis by simp
    qed
    then show "\<exists>out. readsAs s st nr out" unfolding readsAs_def using a(1) a(6) by blast
  qed
  then obtain outs where ro: "readOutputs L s lo [] st = (Inr ([] @ outs), st)"
    and all: "list_all2 (readsAs s st) lo outs"
    using readOutputs_mem [OF mem c, of lo "[]"] by blast
  have "readLastOutputs L s inst '''' st = (Inr (NewOutputs outs), st)"
    using rac ro
    by (simp add: readLastOutputs_def collectResults_mem [OF mem c]
        collectLastOutputs_mem [OF mem c] rs_def [symmetric] lo_def [symmetric])
  then show ?thesis using all dlo written sem by blast
qed

lemma filter_distinct_map:
  assumes "distinct (map f xs)" and "x \<in> set xs"
  shows "filter (\<lambda>y. f y = f x) xs = [x]"
  using assms
proof (induction xs)
  case Nil
  then show ?case by simp
next
  case (Cons a xs)
  show ?case
  proof (cases "a = x")
    case True
    have "f a \<notin> f ` set xs" using Cons.prems(1) by simp
    then have "\<forall>y\<in>set xs. f y \<noteq> f x" unfolding True by (metis imageI)
    then have "filter (\<lambda>y. f y = f x) xs = []" by (simp add: filter_empty_conv)
    then show ?thesis using True by simp
  next
    case False
    then have x: "x \<in> set xs" using Cons.prems(2) by simp
    then have "f a \<noteq> f x" using Cons.prems(1) by auto
    then show ?thesis using Cons.IH x Cons.prems(1) by simp
  qed
qed

lemma readLastOutputs_ok:
  assumes mem: "backingStore s = memStore L cfg" and c: "opened st"
    and k: "keyed st"
    and claims: "\<forall>cid data. lookupItem st ItemTypeClaims cid = Some (inst, data)
        \<longrightarrow> (\<exists>plain c. decrypt s data = Inr plain \<and> unmarshalClaim L plain = Inr c
              \<and> Claim.ID c = cid)"
    and some: "\<exists>cid data. lookupItem st ItemTypeClaims cid = Some (inst, data)"
    and readable: "\<forall>cid cdata plain c rid rdata name data.
          lookupItem st ItemTypeClaims cid = Some (inst, cdata)
        \<and> decrypt s cdata = Inr plain \<and> unmarshalClaim L plain = Inr c
        \<and> lookupItem st ItemTypeResults rid = Some (cid, rdata)
        \<and> lookupItem st ItemTypeOutputs (outputKey rid name) = Some (rid, data)
        \<and> sensitiveOrFalse (Claim.Bundle c) name
        \<longrightarrow> (\<exists>v. decrypt s data = Inr v)"
  shows "\<exists>outs. fst (readLastOutputs L s inst '''' st) = Inr outs
     \<and> sorted (map Output.Name (vals outs))
     \<and> distinct (map Output.Name (vals outs))
     \<and> (\<forall>out. out \<in> set (vals outs) \<longrightarrow> (\<exists>rid. wrote st inst rid (Output.Name out)))
     \<and> (\<forall>name. (\<exists>rid. wrote st inst rid name) \<longrightarrow>
          (\<exists>out i rid.
               GetByName outs name = Some out
             \<and> filter (\<lambda>x. Output.Name x = name) (vals outs) = [out]
             \<and> i < Len outs \<and> GetByIndex outs (int i) = Some out
             \<and> Output.Name out = name
             \<and> Result.ID (Output.result out) = rid
             \<and> wrote st inst rid name
             \<and> (\<forall>rid'. wrote st inst rid' name \<longrightarrow> rid' \<le> rid)
             \<and> (\<exists>data. lookupItem st ItemTypeOutputs (outputKey rid name) = Some (rid, data)
                  \<and> (if sensitiveOrFalse (Claim.Bundle (Output.claim out)) name
                      then decrypt s data = Inr (Output.Value out)
                      else Output.Value out = data))
             \<and> (\<exists>cdata plain rdata.
                   lookupItem st ItemTypeClaims (Claim.ID (Output.claim out)) = Some (inst, cdata)
                 \<and> decrypt s cdata = Inr plain
                 \<and> unmarshalClaim L plain = Inr (Output.claim out)
                 \<and> lookupItem st ItemTypeResults rid
                     = Some (Claim.ID (Output.claim out), rdata))))"
proof -
  obtain lo outs where run: "readLastOutputs L s inst '''' st = (Inr (NewOutputs outs), st)"
    and all: "list_all2 (readsAs s st) lo outs"
    and dlo: "distinct (map fst lo)"
    and written: "\<And>n. \<exists>rid. wrote st inst rid n \<Longrightarrow> map_of lo n \<noteq> None"
    and sem: "\<And>n r. map_of lo n = Some r \<Longrightarrow>
           (\<exists>cl cdata plain rdata data.
                Result.claim r = Some cl
              \<and> lookupItem st ItemTypeClaims (Claim.ID cl) = Some (inst, cdata)
              \<and> decrypt s cdata = Inr plain \<and> unmarshalClaim L plain = Inr cl
              \<and> lookupItem st ItemTypeResults (Result.ID r) = Some (Claim.ID cl, rdata)
              \<and> lookupItem st ItemTypeOutputs (outputKey (Result.ID r) n)
                  = Some (Result.ID r, data)
              \<and> (\<forall>rid'. wrote st inst rid' n \<longrightarrow> rid' \<le> Result.ID r))"
    using readLastOutputs_run [OF mem c k claims some readable] by blast
  let ?outs = "NewOutputs outs"
  have names: "map Output.Name outs = map fst lo" by (rule readsAs_names [OF all])
  have d: "distinct (map Output.Name outs)" using dlo names by simp
  have 1: "sorted (map Output.Name (vals ?outs))" by (rule NewOutputs_vals(3))
  have 2: "distinct (map Output.Name (vals ?outs))" by (rule NewOutputs_distinct [OF d])
  have entry: "Output.Name out = n
             \<and> Result.ID (Output.result out) = Result.ID r
             \<and> wrote st inst (Result.ID r) n
             \<and> (\<forall>rid'. wrote st inst rid' n \<longrightarrow> rid' \<le> Result.ID r)
             \<and> (\<exists>data. lookupItem st ItemTypeOutputs (outputKey (Result.ID r) n)
                         = Some (Result.ID r, data)
                  \<and> (if sensitiveOrFalse (Claim.Bundle (Output.claim out)) n
                      then decrypt s data = Inr (Output.Value out)
                      else Output.Value out = data))
             \<and> (\<exists>cdata plain rdata.
                   lookupItem st ItemTypeClaims (Claim.ID (Output.claim out)) = Some (inst, cdata)
                 \<and> decrypt s cdata = Inr plain
                 \<and> unmarshalClaim L plain = Inr (Output.claim out)
                 \<and> lookupItem st ItemTypeResults (Result.ID r)
                     = Some (Claim.ID (Output.claim out), rdata))"
    if m: "map_of lo n = Some r" and ra: "readsAs s st (n, r) out" for n r out
  proof -
    obtain cl cdata plain rdata data where
        a: "Result.claim r = Some cl"
        "lookupItem st ItemTypeClaims (Claim.ID cl) = Some (inst, cdata)"
        "decrypt s cdata = Inr plain" "unmarshalClaim L plain = Inr cl"
        "lookupItem st ItemTypeResults (Result.ID r) = Some (Claim.ID cl, rdata)"
        "lookupItem st ItemTypeOutputs (outputKey (Result.ID r) n) = Some (Result.ID r, data)"
        and mx: "\<forall>rid'. wrote st inst rid' n \<longrightarrow> rid' \<le> Result.ID r"
      using sem [OF m] by blast
    obtain v where v: "if sensitiveOrFalse (Claim.Bundle cl) n then decrypt s data = Inr v
                       else v = data"
      and o: "out = NewOutput cl r n v"
      using ra a(1) a(6) unfolding readsAs_def by auto
    have oc: "Output.claim out = cl" "Output.Name out = n" "Output.Value out = v"
      "Result.ID (Output.result out) = Result.ID r"
      unfolding o by (simp_all add: NewOutput_def Result_set_claim_def)
    have w: "wrote st inst (Result.ID r) n" unfolding wrote_def using a by blast
    show ?thesis unfolding oc using oc(2) w mx a v by blast
  qed
  have 3: "\<forall>out. out \<in> set (vals ?outs) \<longrightarrow> (\<exists>rid. wrote st inst rid (Output.Name out))"
  proof (intro allI impI)
    fix out assume "out \<in> set (vals ?outs)"
    then have "out \<in> set outs" by (simp add: NewOutputs_vals)
    then obtain nr where nr: "nr \<in> set lo" "readsAs s st nr out"
      using list_all2_right [OF all] by blast
    have m: "map_of lo (fst nr) = Some (snd nr)"
      using dlo nr(1) by (intro map_of_is_SomeI) simp_all
    have "readsAs s st (fst nr, snd nr) out" using nr(2) by simp
    from entry [OF m this] have "Output.Name out = fst nr"
      and "wrote st inst (Result.ID (snd nr)) (fst nr)"
      by simp_all
    then show "\<exists>rid. wrote st inst rid (Output.Name out)" by auto
  qed
  have 4: "\<exists>out i rid.
               GetByName ?outs name = Some out
             \<and> filter (\<lambda>x. Output.Name x = name) (vals ?outs) = [out]
             \<and> i < Len ?outs \<and> GetByIndex ?outs (int i) = Some out
             \<and> Output.Name out = name
             \<and> Result.ID (Output.result out) = rid
             \<and> wrote st inst rid name
             \<and> (\<forall>rid'. wrote st inst rid' name \<longrightarrow> rid' \<le> rid)
             \<and> (\<exists>data. lookupItem st ItemTypeOutputs (outputKey rid name) = Some (rid, data)
                  \<and> (if sensitiveOrFalse (Claim.Bundle (Output.claim out)) name
                      then decrypt s data = Inr (Output.Value out)
                      else Output.Value out = data))
             \<and> (\<exists>cdata plain rdata.
                   lookupItem st ItemTypeClaims (Claim.ID (Output.claim out)) = Some (inst, cdata)
                 \<and> decrypt s cdata = Inr plain
                 \<and> unmarshalClaim L plain = Inr (Output.claim out)
                 \<and> lookupItem st ItemTypeResults rid
                     = Some (Claim.ID (Output.claim out), rdata))"
    if w: "\<exists>rid. wrote st inst rid name" for name
  proof -
    obtain r where m: "map_of lo name = Some r" using written [OF w] by blast
    then have "(name, r) \<in> set lo" by (rule map_of_SomeD)
    then obtain out where out: "out \<in> set outs" "readsAs s st (name, r) out"
      using list_all2_left [OF all] by blast
    note e = entry [OF m out(2)]
    have n: "Output.Name out = name" using e by simp
    obtain i where i: "i < length outs" "GetByName ?outs (Output.Name out) = Some out"
      "GetByIndex ?outs (int i) = Some out"
      using NewOutputs_lookup [OF d out(1)] by blast
    have "out \<in> set (vals ?outs)" using out(1) by (simp add: NewOutputs_vals)
    then have f: "filter (\<lambda>x. Output.Name x = Output.Name out) (vals ?outs) = [out]"
      by (rule filter_distinct_map [OF 2])
    have l: "i < Len ?outs" using i(1) by (simp add: Len_def NewOutputs_vals)
    show ?thesis
      by (rule exI [of _ out], rule exI [of _ i], rule exI [of _ "Result.ID r"])
         (use e i(2,3) f l n in simp)
  qed
  have "fst (readLastOutputs L s inst '''' st) = Inr ?outs" using run by simp
  then show ?thesis using 1 2 3 4 by blast
qed

lemma keyed_conn [simp]:
  "keyed (st\<lparr>opened := b, connects := n\<rparr>) = keyed st"
  by (simp add: keyed_def)

lemma wrote_conn [simp]:
  "wrote (st\<lparr>opened := b, connects := n\<rparr>) = wrote st"
  by (simp add: wrote_def fun_eq_iff)

lemma ReadLastOutputs_mem:
  assumes mem: "backingStore s = memStore L cfg"
  shows "fst (ReadLastOutputs L s inst st) =
     fst (readLastOutputs L s inst ''''
            (if opened st then st else st\<lparr>opened := True, connects := connects st + 1\<rparr>))"
  by (simp add: ReadLastOutputs_def mem withConnect_mem split: prod.splits)

text \<open>
  C3. On the backing store above, from a state whose output records are keyed by their
  result, whose claim records of the installation decrypt and decode to a claim with the
  id they are stored under, and whose sensitive outputs decrypt: for an installation
  with at least one claim record \<^verbatim>\<open>ReadLastOutputs\<close> returns a container, sorted by
  output name and with pairwise distinct names, whose entries are names written by a
  result of a claim of the installation. For every such name the container holds exactly
  one entry, found by the name and by its position; it is the output of the greatest
  result id, in the order of strings, among the results that wrote the name, and its
  value is what the store holds under that result, decrypted when the bundle of the
  result's claim marks the output sensitive.
\<close>

theorem C3_last_outputs:
  assumes mem: "backingStore s = memStore L cfg"
    and k: "keyed st"
    and claims: "\<forall>cid data. lookupItem st ItemTypeClaims cid = Some (inst, data)
        \<longrightarrow> (\<exists>plain c. decrypt s data = Inr plain \<and> unmarshalClaim L plain = Inr c
              \<and> Claim.ID c = cid)"
    and some: "\<exists>cid data. lookupItem st ItemTypeClaims cid = Some (inst, data)"
    and readable: "\<forall>cid cdata plain c rid rdata name data.
          lookupItem st ItemTypeClaims cid = Some (inst, cdata)
        \<and> decrypt s cdata = Inr plain \<and> unmarshalClaim L plain = Inr c
        \<and> lookupItem st ItemTypeResults rid = Some (cid, rdata)
        \<and> lookupItem st ItemTypeOutputs (outputKey rid name) = Some (rid, data)
        \<and> sensitiveOrFalse (Claim.Bundle c) name
        \<longrightarrow> (\<exists>v. decrypt s data = Inr v)"
  shows "\<exists>outs. fst (ReadLastOutputs L s inst st) = Inr outs
     \<and> sorted (map Output.Name (vals outs))
     \<and> distinct (map Output.Name (vals outs))
     \<and> (\<forall>out. out \<in> set (vals outs) \<longrightarrow> (\<exists>rid. wrote st inst rid (Output.Name out)))
     \<and> (\<forall>name. (\<exists>rid. wrote st inst rid name) \<longrightarrow>
          (\<exists>out i rid.
               GetByName outs name = Some out
             \<and> filter (\<lambda>x. Output.Name x = name) (vals outs) = [out]
             \<and> i < Len outs \<and> GetByIndex outs (int i) = Some out
             \<and> Output.Name out = name
             \<and> Result.ID (Output.result out) = rid
             \<and> wrote st inst rid name
             \<and> (\<forall>rid'. wrote st inst rid' name \<longrightarrow> rid' \<le> rid)
             \<and> (\<exists>data. lookupItem st ItemTypeOutputs (outputKey rid name) = Some (rid, data)
                  \<and> (if sensitiveOrFalse (Claim.Bundle (Output.claim out)) name
                      then decrypt s data = Inr (Output.Value out)
                      else Output.Value out = data))
             \<and> (\<exists>cdata plain rdata.
                   lookupItem st ItemTypeClaims (Claim.ID (Output.claim out)) = Some (inst, cdata)
                 \<and> decrypt s cdata = Inr plain
                 \<and> unmarshalClaim L plain = Inr (Output.claim out)
                 \<and> lookupItem st ItemTypeResults rid
                     = Some (Claim.ID (Output.claim out), rdata))))"
proof -
  define st1 where
    "st1 = (if opened st then st else st\<lparr>opened := True, connects := connects st + 1\<rparr>)"
  have o: "opened st1" by (simp add: st1_def)
  have l: "lookupItem st1 = lookupItem st" by (simp add: st1_def fun_eq_iff)
  have w: "wrote st1 = wrote st" by (simp add: st1_def)
  have k1: "keyed st1" using k by (simp add: st1_def)
  have e: "fst (ReadLastOutputs L s inst st) = fst (readLastOutputs L s inst '''' st1)"
    unfolding st1_def by (rule ReadLastOutputs_mem [OF mem])
  show ?thesis
    using readLastOutputs_ok [OF mem o k1 claims [folded l] some [folded l] readable [folded l]]
    unfolding l w e .
qed

lemma wClaimDecode:
  "unmarshalClaim wEnv ''{claim c1}'' = Inr wClaim1"
  "unmarshalClaim wEnv ''{claim c2}'' = Inr wClaim2"
  by (simp_all add: unmarshalClaim_def wEnv_def tableDecode_def wClaims_def exportedClaim_def
      wClaim1_def wClaim2_def)

lemma wState_claim_records:
  assumes "lookupItem wState ItemTypeClaims cid = Some (''wordpress'', data)"
  shows "cid = ''c1'' \<and> data = rev ''{claim c1}'' \<or> cid = ''c2'' \<and> data = rev ''{claim c2}''"
  using assms by (simp add: lookupItem_def wState_def kind_defs split: if_splits)

lemma wState_result_records:
  assumes "lookupItem wState ItemTypeResults rid = Some (cid, rdata)"
  shows "rid = ''r1'' \<and> cid = ''c1'' \<or> rid = ''r2'' \<and> cid = ''c2''"
  using assms by (simp add: lookupItem_def wState_def kind_defs split: if_splits)

lemma wState_port:
  "lookupItem wState ItemTypeClaims ''c2'' = Some (''wordpress'', rev ''{claim c2}'')"
  "lookupItem wState ItemTypeResults ''r2'' = Some (''c2'', ''{result r2}'')"
  "lookupItem wState ItemTypeOutputs (outputKey ''r2'' ''port'') = Some (''r2'', ''9090'')"
  by (simp_all add: lookupItem_def wState_def kind_defs outputKey_def)

lemma wState_claims_decode:
  "\<forall>cid data. lookupItem wState ItemTypeClaims cid = Some (''wordpress'', data)
        \<longrightarrow> (\<exists>plain c. decrypt (wStore False False) data = Inr plain
              \<and> unmarshalClaim wEnv plain = Inr c \<and> Claim.ID c = cid)"
proof (intro allI impI)
  fix cid data
  assume "lookupItem wState ItemTypeClaims cid = Some (''wordpress'', data)"
  from wState_claim_records [OF this]
  show "\<exists>plain c. decrypt (wStore False False) data = Inr plain
            \<and> unmarshalClaim wEnv plain = Inr c \<and> Claim.ID c = cid"
  proof
    assume a: "cid = ''c1'' \<and> data = rev ''{claim c1}''"
    have "decrypt (wStore False False) data = Inr ''{claim c1}''" using a by simp
    moreover have "Claim.ID wClaim1 = cid" using a by (simp add: wClaim1_def)
    ultimately show ?thesis using wClaimDecode(1) by blast
  next
    assume a: "cid = ''c2'' \<and> data = rev ''{claim c2}''"
    have "decrypt (wStore False False) data = Inr ''{claim c2}''" using a by simp
    moreover have "Claim.ID wClaim2 = cid" using a by (simp add: wClaim2_def)
    ultimately show ?thesis using wClaimDecode(2) by blast
  qed
qed

theorem C3_last_outputs_witness:
  "wrote wState ''wordpress'' ''r1'' ''port''
   \<and> wrote wState ''wordpress'' ''r2'' ''port''
   \<and> (\<exists>outs out i.
         fst (ReadLastOutputs wEnv (wStore False False) ''wordpress'' wState) = Inr outs
       \<and> sorted (map Output.Name (vals outs))
       \<and> distinct (map Output.Name (vals outs))
       \<and> GetByName outs ''port'' = Some out
       \<and> filter (\<lambda>x. Output.Name x = ''port'') (vals outs) = [out]
       \<and> i < Len outs \<and> GetByIndex outs (int i) = Some out
       \<and> Output.Name out = ''port''
       \<and> Result.ID (Output.result out) = ''r2''
       \<and> Output.claim out = wClaim2
       \<and> Output.Value out = ''9090'')"
proof -
  note mem = wStore_backing [of False False]
  note claims = wState_claims_decode
  have some: "\<exists>cid data. lookupItem wState ItemTypeClaims cid = Some (''wordpress'', data)"
    using wState_port(1) by blast
  have readable: "\<forall>cid cdata plain c rid rdata name data.
          lookupItem wState ItemTypeClaims cid = Some (''wordpress'', cdata)
        \<and> decrypt (wStore False False) cdata = Inr plain \<and> unmarshalClaim wEnv plain = Inr c
        \<and> lookupItem wState ItemTypeResults rid = Some (cid, rdata)
        \<and> lookupItem wState ItemTypeOutputs (outputKey rid name) = Some (rid, data)
        \<and> sensitiveOrFalse (Claim.Bundle c) name
        \<longrightarrow> (\<exists>v. decrypt (wStore False False) data = Inr v)"
  proof (intro allI impI)
    fix data :: bytes
    show "\<exists>v. decrypt (wStore False False) data = Inr v" by simp
  qed
  have w1: "wrote wState ''wordpress'' ''r1'' ''port''"
    unfolding wrote_def
    by (simp add: lookupItem_def wState_def kind_defs outputKey_def)
  have w2: "wrote wState ''wordpress'' ''r2'' ''port''"
    unfolding wrote_def using wState_port by blast
  from C3_last_outputs [OF mem wState_keyed claims some readable]
  obtain outs where big: "fst (ReadLastOutputs wEnv (wStore False False) ''wordpress'' wState)
        = Inr outs
    \<and> sorted (map Output.Name (vals outs))
    \<and> distinct (map Output.Name (vals outs))
    \<and> (\<forall>name. (\<exists>rid. wrote wState ''wordpress'' rid name) \<longrightarrow>
          (\<exists>out i rid.
               GetByName outs name = Some out
             \<and> filter (\<lambda>x. Output.Name x = name) (vals outs) = [out]
             \<and> i < Len outs \<and> GetByIndex outs (int i) = Some out
             \<and> Output.Name out = name
             \<and> Result.ID (Output.result out) = rid
             \<and> wrote wState ''wordpress'' rid name
             \<and> (\<forall>rid'. wrote wState ''wordpress'' rid' name \<longrightarrow> rid' \<le> rid)
             \<and> (\<exists>data. lookupItem wState ItemTypeOutputs (outputKey rid name) = Some (rid, data)
                  \<and> (if sensitiveOrFalse (Claim.Bundle (Output.claim out)) name
                      then decrypt (wStore False False) data = Inr (Output.Value out)
                      else Output.Value out = data))
             \<and> (\<exists>cdata plain rdata.
                   lookupItem wState ItemTypeClaims (Claim.ID (Output.claim out))
                     = Some (''wordpress'', cdata)
                 \<and> decrypt (wStore False False) cdata = Inr plain
                 \<and> unmarshalClaim wEnv plain = Inr (Output.claim out)
                 \<and> lookupItem wState ItemTypeResults rid
                     = Some (Claim.ID (Output.claim out), rdata))))"
    by (elim exE conjE) (rule that, intro conjI)
  note run = big [THEN conjunct1]
  note srt = big [THEN conjunct2, THEN conjunct1]
  note dst = big [THEN conjunct2, THEN conjunct2, THEN conjunct1]
  note each = big [THEN conjunct2, THEN conjunct2, THEN conjunct2]
  have ex: "\<exists>rid. wrote wState ''wordpress'' rid ''port''" by (rule exI [of _ "''r2''"]) (rule w2)
  let ?P = "\<lambda>out i rid.
               GetByName outs ''port'' = Some out
             \<and> filter (\<lambda>x. Output.Name x = ''port'') (vals outs) = [out]
             \<and> i < Len outs \<and> GetByIndex outs (int i) = Some out
             \<and> Output.Name out = ''port''
             \<and> Result.ID (Output.result out) = rid
             \<and> wrote wState ''wordpress'' rid ''port''
             \<and> (\<forall>rid'. wrote wState ''wordpress'' rid' ''port'' \<longrightarrow> rid' \<le> rid)
             \<and> (\<exists>data. lookupItem wState ItemTypeOutputs (outputKey rid ''port'') = Some (rid, data)
                  \<and> (if sensitiveOrFalse (Claim.Bundle (Output.claim out)) ''port''
                      then decrypt (wStore False False) data = Inr (Output.Value out)
                      else Output.Value out = data))
             \<and> (\<exists>cdata plain rdata.
                   lookupItem wState ItemTypeClaims (Claim.ID (Output.claim out))
                     = Some (''wordpress'', cdata)
                 \<and> decrypt (wStore False False) cdata = Inr plain
                 \<and> unmarshalClaim wEnv plain = Inr (Output.claim out)
                 \<and> lookupItem wState ItemTypeResults rid
                     = Some (Claim.ID (Output.claim out), rdata))"
  have "\<exists>out i rid. ?P out i rid" by (rule each [THEN spec, THEN mp, OF ex])
  then obtain out where "\<exists>i rid. ?P out i rid" ..
  then obtain i where "\<exists>rid. ?P out i rid" ..
  then obtain rid where p: "?P out i rid" ..
  note g = p [THEN conjunct1]
  note p2 = p [THEN conjunct2]
  note f = p2 [THEN conjunct1]
  note p3 = p2 [THEN conjunct2]
  note i = p3 [THEN conjunct1] p3 [THEN conjunct2, THEN conjunct1]
  note p5 = p3 [THEN conjunct2, THEN conjunct2]
  note n = p5 [THEN conjunct1]
  note p6 = p5 [THEN conjunct2]
  note r = p6 [THEN conjunct1]
  note p7 = p6 [THEN conjunct2]
  note w = p7 [THEN conjunct1]
  note p8 = p7 [THEN conjunct2]
  note mx = p8 [THEN conjunct1]
  note p9 = p8 [THEN conjunct2]
  note v = p9 [THEN conjunct1]
  note cl = p9 [THEN conjunct2]
  have "rid = ''r1'' \<or> rid = ''r2''"
    using w wState_result_records unfolding wrote_def by blast
  moreover have "''r2'' \<le> rid" using mx w2 by blast
  moreover have "\<not> ''r2'' \<le> ''r1''" by simp
  ultimately have rid: "rid = ''r2''" by blast
  obtain cdata plain rdata where
      c1: "lookupItem wState ItemTypeClaims (Claim.ID (Output.claim out))
             = Some (''wordpress'', cdata)"
      and c2: "decrypt (wStore False False) cdata = Inr plain"
      and c3: "unmarshalClaim wEnv plain = Inr (Output.claim out)"
      and c4: "lookupItem wState ItemTypeResults ''r2'' = Some (Claim.ID (Output.claim out), rdata)"
    using cl unfolding rid by blast
  have cid: "Claim.ID (Output.claim out) = ''c2''" using c4 wState_port(2) by simp
  have "cdata = rev ''{claim c2}''" using c1 wState_port(1) unfolding cid by simp
  then have "plain = ''{claim c2}''" using c2 by simp
  then have oc: "Output.claim out = wClaim2" using c3 wClaimDecode(2) by simp
  have "\<not> sensitiveOrFalse (Claim.Bundle (Output.claim out)) ''port''"
    unfolding oc by (simp add: wClaim2_def sensitiveOrFalse_iff wSensitive)
  then have val: "Output.Value out = ''9090''"
    using v wState_port(3) unfolding rid by auto
  have "fst (ReadLastOutputs wEnv (wStore False False) ''wordpress'' wState) = Inr outs
       \<and> sorted (map Output.Name (vals outs))
       \<and> distinct (map Output.Name (vals outs))
       \<and> GetByName outs ''port'' = Some out
       \<and> filter (\<lambda>x. Output.Name x = ''port'') (vals outs) = [out]
       \<and> i < Len outs \<and> GetByIndex outs (int i) = Some out
       \<and> Output.Name out = ''port''
       \<and> Result.ID (Output.result out) = ''r2''
       \<and> Output.claim out = wClaim2
       \<and> Output.Value out = ''9090''"
    using run srt dst g f i n r [unfolded rid] oc val by (intro conjI)
  then have "\<exists>outs out i.
         fst (ReadLastOutputs wEnv (wStore False False) ''wordpress'' wState) = Inr outs
       \<and> sorted (map Output.Name (vals outs))
       \<and> distinct (map Output.Name (vals outs))
       \<and> GetByName outs ''port'' = Some out
       \<and> filter (\<lambda>x. Output.Name x = ''port'') (vals outs) = [out]
       \<and> i < Len outs \<and> GetByIndex outs (int i) = Some out
       \<and> Output.Name out = ''port''
       \<and> Result.ID (Output.result out) = ''r2''
       \<and> Output.claim out = wClaim2
       \<and> Output.Value out = ''9090''"
    by (intro exI)
  then show ?thesis using w1 w2 by (intro conjI)
qed

end
